(* ===== verification/Marvin_Prelude.thy ===== *)
theory Marvin_Prelude
  imports Main "HOL-Library.Word"
begin

text \<open>
  Shared vocabulary of the development: the collections of simplification rules, the C and C++
  library operations on strings and numbers that the sources call (\<open>boost::to_upper\<close>,
  \<open>boost::trim\<close>, \<open>std::to_string\<close>, \<open>atoi\<close>, \<open>std::vector::erase\<close>, unsigned subtraction), the
  result type of code that may throw, and generic facts about lists and options.
  Bytes are \<^typ>\<open>char\<close>; a \<open>std::string\<close> is a \<^typ>\<open>string\<close>.
\<close>

section \<open>Collections\<close>

named_theorems step_simps \<open>unfoldings of the handlers of the state machines\<close>
named_theorems buffer_simps \<open>rules about buffer operations under their invariant\<close>
named_theorems header_simps \<open>rules about header field operations\<close>
named_theorems msg_simps \<open>rules about message getters after message setters\<close>

section \<open>Exceptions as values\<close>

text \<open>
  What the code raises: \<open>MARVIN_THROW\<close>, the out-of-range exception of the header container, a failed
  \<open>assert\<close>, the exceptions of \<open>boost\<close>, and, where the behaviour is undefined, the dereference of an empty
  \<open>optional\<close> or null pointer and the use of a value that was never set.
\<close>

datatype exn =
    Alloc_Too_Big
  | Index_Out_Of_Range
  | Assert_Failed
  | Null_Deref
  | No_Current_Message
  | Already_Secured
  | Not_Implemented
  | Bad_Handshake_Type
  | No_Server_Certificate
  | Unexpected_Connection
  | Bind_Failed
  | Pool_Size_Zero
  | Regex_Error
  | Out_Of_Bounds
  | No_Marvin_Home
  | Bad_Environment
  | Bad_Working_Dir
  | No_Cert_Dir
  | No_Dot_Dir
  | No_Ca_Config
  | No_Pipe_Reader
  | Marvin_Exception string
  | System_Error int
  | Undefined_Value

type_synonym 'a result = "exn + 'a"

fun rbind :: "'a result \<Rightarrow> ('a \<Rightarrow> 'b result) \<Rightarrow> 'b result" where
  "rbind (Inl e) f = Inl e"
| "rbind (Inr x) f = f x"

lemma rbind_Inr_iff:
  "rbind m f = Inr y \<longleftrightarrow> (\<exists>x. m = Inr x \<and> f x = Inr y)"
  by (cases m) auto

lemma rbind_Inl_iff:
  "rbind m f = Inl e \<longleftrightarrow> m = Inl e \<or> (\<exists>x. m = Inr x \<and> f x = Inl e)"
  by (cases m) auto

lemma rbind_Inr [simp]: "rbind m Inr = m"
  by (cases m) auto

fun rfold :: "('a \<Rightarrow> 's \<Rightarrow> 's result) \<Rightarrow> 'a list \<Rightarrow> 's \<Rightarrow> 's result" where
  "rfold f [] s = Inr s"
| "rfold f (x # xs) s = rbind (f x s) (rfold f xs)"

lemma rfold_fun: "rfold f [] = Inr" "rfold f (x # xs) = (\<lambda>s. rbind (f x s) (rfold f xs))"
  by (simp_all add: fun_eq_iff)

lemma rbind_assoc: "rbind (rbind m f) g = rbind m (\<lambda>x. rbind (f x) g)"
  by (cases m) simp_all

text \<open>Access through a shared pointer or an optional that may be empty.\<close>

fun deref :: "'a option \<Rightarrow> 'a result" where
  "deref None = Inl Null_Deref"
| "deref (Some x) = Inr x"

lemma deref_Inr_iff: "deref p = Inr x \<longleftrightarrow> p = Some x"
  by (cases p) auto

lemma rfold_append: "rfold f (xs @ ys) s = rbind (rfold f xs s) (rfold f ys)"
proof (induction xs arbitrary: s)
  case (Cons x xs)
  then show ?case by (cases "f x s") simp_all
qed simp

lemma rfold_append_fun: "rfold f (xs @ ys) = (\<lambda>s. rbind (rfold f xs s) (rfold f ys))"
  by (simp add: fun_eq_iff rfold_append)

lemma rfold_map:
  assumes "list_all P xs" "\<And>x s. P x \<Longrightarrow> f x s = g (h x) s"
  shows "rfold f xs s = rfold g (map h xs) s"
  using assms(1)
proof (induction xs arbitrary: s)
  case (Cons x xs)
  then show ?case using assms(2) by (cases "g (h x) s") simp_all
qed simp

section \<open>Characters and strings\<close>

definition to_upper_char :: "char \<Rightarrow> char" where
  "to_upper_char c = (let n = of_char c :: nat in if 97 \<le> n \<and> n \<le> 122 then char_of (n - 32) else c)"

definition to_upper :: "string \<Rightarrow> string" where
  "to_upper s = map to_upper_char s"

definition is_space :: "char \<Rightarrow> bool" where
  "is_space c = (let n = of_char c :: nat in n = 32 \<or> (9 \<le> n \<and> n \<le> 13))"

definition is_digit :: "char \<Rightarrow> bool" where
  "is_digit c = (let n = of_char c :: nat in 48 \<le> n \<and> n \<le> 57)"

definition trim_left :: "string \<Rightarrow> string" where
  "trim_left s = dropWhile is_space s"

definition trim_right :: "string \<Rightarrow> string" where
  "trim_right s = rev (dropWhile is_space (rev s))"

definition trim :: "string \<Rightarrow> string" where
  "trim s = trim_left (trim_right s)"

lemma of_char_to_upper:
  "(of_char (to_upper_char c) :: nat) =
     (if 97 \<le> (of_char c :: nat) \<and> (of_char c :: nat) \<le> 122 then of_char c - 32 else of_char c)"
  by (auto simp: to_upper_char_def Let_def)

lemma to_upper_char_idem [simp]: "to_upper_char (to_upper_char c) = to_upper_char c"
  by (auto simp: to_upper_char_def Let_def)

lemma to_upper_idem [simp]: "to_upper (to_upper s) = to_upper s"
  by (simp add: to_upper_def)

lemma to_upper_Nil [simp]: "to_upper [] = []"
  by (simp add: to_upper_def)

lemma length_to_upper [simp]: "length (to_upper s) = length s"
  by (simp add: to_upper_def)

lemma to_upper_append [simp]: "to_upper (s @ t) = to_upper s @ to_upper t"
  by (simp add: to_upper_def)

lemma trim_left_no_space [simp]: "s \<noteq> [] \<Longrightarrow> \<not> is_space (hd s) \<Longrightarrow> trim_left s = s"
  by (cases s) (auto simp: trim_left_def)

lemma trim_right_no_space [simp]: "s \<noteq> [] \<Longrightarrow> \<not> is_space (last s) \<Longrightarrow> trim_right s = s"
  by (cases s rule: rev_cases) (auto simp: trim_right_def)

lemma trim_sides_Nil [simp]: "trim_left [] = []" "trim_right [] = []"
  by (simp_all add: trim_left_def trim_right_def)

lemma trim_Nil [simp]: "trim [] = []"
  by (simp add: trim_def)

lemma trim_id: "(\<And>c. c \<in> set s \<Longrightarrow> \<not> is_space c) \<Longrightarrow> trim s = s"
  by (cases "s = []") (simp_all add: trim_def)

lemma trim_left_hd: "trim_left s \<noteq> [] \<Longrightarrow> \<not> is_space (hd (trim_left s))"
  by (simp add: trim_left_def hd_dropWhile)

lemma trim_right_last: "trim_right s \<noteq> [] \<Longrightarrow> \<not> is_space (last (trim_right s))"
  by (metis hd_dropWhile last_rev rev_rev_ident trim_right_def rev_is_Nil_conv)

lemma trim_left_last: "trim_left s \<noteq> [] \<Longrightarrow> last (trim_left s) = last s"
  unfolding trim_left_def
  by (metis dropWhile_eq_Nil_conv last_appendR takeWhile_dropWhile_id)

lemma trim_idem [simp]: "trim (trim s) = trim s"
proof (cases "trim s = []")
  case False
  then have h: "\<not> is_space (hd (trim s))" by (simp add: trim_def trim_left_hd)
  have "trim_right s \<noteq> []" using False by (auto simp: trim_def trim_left_def)
  then have l: "\<not> is_space (last (trim s))"
    using False trim_right_last [of s] by (simp add: trim_def trim_left_last)
  have "trim_right (trim s) = trim s" using False l by simp
  then show ?thesis using False h by (simp add: trim_def [of "trim s"])
qed simp

section \<open>Decimal numbers\<close>

definition digit_char :: "nat \<Rightarrow> char" where
  "digit_char d = char_of (48 + d)"

fun nat_to_string :: "nat \<Rightarrow> string" where
  "nat_to_string n = (if n < 10 then [digit_char n] else nat_to_string (n div 10) @ [digit_char (n mod 10)])"

declare nat_to_string.simps [simp del]

definition int_to_string :: "int \<Rightarrow> string" where
  "int_to_string i = (if i < 0 then CHR ''-'' # nat_to_string (nat (- i)) else nat_to_string (nat i))"

definition digit_value :: "char \<Rightarrow> nat" where
  "digit_value c = of_char c - 48"

definition dec_value :: "string \<Rightarrow> nat" where
  "dec_value s = foldl (\<lambda>n c. 10 * n + digit_value c) 0 s"

text \<open>
  \<open>atoi\<close>: leading white space, an optional sign, the longest run of digits. The C standard leaves
  values outside \<open>int\<close> undefined; the GNU library computes \<open>(int) strtol(s)\<close>: the \<open>long\<close> saturates
  and its low 32 bits are kept.
\<close>

definition long_clamp :: "int \<Rightarrow> int" where
  "long_clamp i = max (- (2 ^ 63)) (min (2 ^ 63 - 1) i)"

definition int32_of_long :: "int \<Rightarrow> int" where
  "int32_of_long i = (i + 2 ^ 31) mod 2 ^ 32 - 2 ^ 31"

definition atoi :: "string \<Rightarrow> int" where
  "atoi s =
     (let t = trim_left s;
          neg = (t \<noteq> [] \<and> hd t = CHR ''-'');
          u = (if t \<noteq> [] \<and> (hd t = CHR ''-'' \<or> hd t = CHR ''+'') then tl t else t);
          v = int (dec_value (takeWhile is_digit u))
      in int32_of_long (long_clamp (if neg then - v else v)))"

text \<open>Conversion of a signed \<open>int\<close> to \<open>std::size_t\<close>, and \<open>std::size_t\<close> addition and subtraction.\<close>

definition size_of_int :: "int \<Rightarrow> nat" where
  "size_of_int i = nat (i mod 2 ^ 64)"

definition size_add :: "nat \<Rightarrow> nat \<Rightarrow> nat" where
  "size_add a b = (a + b) mod 2 ^ 64"

definition size_sub :: "nat \<Rightarrow> nat \<Rightarrow> nat" where
  "size_sub a b = (if b \<le> a then a - b else a + 2 ^ 64 - b)"

lemma of_char_digit_char [simp]: "d < 10 \<Longrightarrow> (of_char (digit_char d) :: nat) = 48 + d"
  by (simp add: digit_char_def)

lemma digit_value_digit_char [simp]: "d < 10 \<Longrightarrow> digit_value (digit_char d) = d"
  by (simp add: digit_value_def)

lemma is_digit_digit_char [simp]: "d < 10 \<Longrightarrow> is_digit (digit_char d)"
  by (simp add: is_digit_def)

lemma is_digit_not_space: "is_digit c \<Longrightarrow> \<not> is_space c"
  by (auto simp: is_digit_def is_space_def Let_def)

lemma is_digit_not_sign: "is_digit c \<Longrightarrow> c \<noteq> CHR ''-'' \<and> c \<noteq> CHR ''+''"
  by (auto simp: is_digit_def Let_def)

lemma nat_to_string_digits: "c \<in> set (nat_to_string n) \<Longrightarrow> is_digit c"
proof (induction n rule: nat_to_string.induct)
  case (1 n)
  show ?case
  proof (cases "n < 10")
    case True
    with "1.prems" show ?thesis by (simp add: nat_to_string.simps [of n])
  next
    case False
    with "1" show ?thesis by (auto simp: nat_to_string.simps [of n])
  qed
qed

lemma nat_to_string_nonempty [simp]: "nat_to_string n \<noteq> []"
  by (subst nat_to_string.simps) simp

lemma dec_value_nat_to_string [simp]: "dec_value (nat_to_string n) = n"
proof (induction n rule: nat_to_string.induct)
  case (1 n)
  show ?case
  proof (cases "n < 10")
    case True
    then show ?thesis by (simp add: nat_to_string.simps [of n] dec_value_def)
  next
    case False
    then have "dec_value (nat_to_string (n div 10)) = n div 10" by (rule "1.IH")
    with False show ?thesis by (simp add: nat_to_string.simps [of n] dec_value_def)
  qed
qed

lemma nat_to_string_inject [simp]: "nat_to_string m = nat_to_string n \<longleftrightarrow> m = n"
  by (metis dec_value_nat_to_string)

lemma trim_nat_to_string [simp]: "trim (nat_to_string n) = nat_to_string n"
  by (rule trim_id) (metis is_digit_not_space nat_to_string_digits)

lemma hd_nat_to_string: "is_digit (hd (nat_to_string n))"
  by (rule nat_to_string_digits [of _ n]) simp

lemma atoi_nat_to_string:
  assumes "n < 2 ^ 31"
  shows "atoi (nat_to_string n) = int n"
proof -
  let ?s = "nat_to_string n"
  have h: "is_digit (hd ?s)" by (rule hd_nat_to_string)
  have t: "trim_left ?s = ?s" using h by (simp add: is_digit_not_space)
  have k: "takeWhile is_digit ?s = ?s" by (simp add: takeWhile_eq_all_conv nat_to_string_digits)
  show ?thesis
    using assms h by (simp add: atoi_def t k is_digit_not_sign long_clamp_def int32_of_long_def)
qed

lemma size_of_int_nat [simp]: "n < 2 ^ 64 \<Longrightarrow> size_of_int (int n) = n"
  by (simp add: size_of_int_def nat_mod_as_int)

lemma size_sub_le: "b \<le> a \<Longrightarrow> size_sub a b = a - b"
  by (simp add: size_sub_def)

section \<open>Vectors\<close>

text \<open>
  \<open>std::vector::erase(begin() + pos)\<close> as GNU libstdc++ implements it: the elements behind \<open>pos\<close> move
  down by one, then the end pointer is decremented. At \<open>pos = end()\<close>, where the C++ standard leaves the
  call undefined, nothing is moved and the last element is dropped.
\<close>

definition vector_erase :: "nat \<Rightarrow> 'a list \<Rightarrow> 'a list" where
  "vector_erase pos xs = (if pos < length xs then take pos xs @ drop (Suc pos) xs else butlast xs)"

lemma length_vector_erase: "length (vector_erase pos xs) = length xs - 1"
  by (auto simp: vector_erase_def)

lemma concat_map_singleton [simp]: "concat (map (\<lambda>x. [f x]) xs) = map f xs"
  by (induction xs) auto

lemma list_all_snoc [simp]: "list_all P (xs @ [x]) \<longleftrightarrow> list_all P xs \<and> P x"
  by simp

end
