(* ===== verification/Contig_Buffer.thy ===== *)
theory Contig_Buffer
  imports Marvin_Prelude
begin

text \<open>
  \<open>marvin/buffer/buffer_allocator.hpp\<close>, \<open>contig_buffer.hpp\<close> and \<open>contig_buffer_factory.hpp\<close>: the
  allocation strategies, the contiguous growing buffer and its factory.

  A block of memory is a list of cells, \<^term>\<open>None\<close> being a byte that was allocated and never
  written. Sizes are unbounded naturals: the operands of the additions are lengths of objects in memory,
  whose sum stays below \<open>2 ^ 64\<close>. \<open>m_cPtr\<close> always equals \<open>m_memPtr\<close> and has no field of its own.
  \<open>BufferMallocator::reallocate\<close> lacks its \<open>return\<close> statement; the model takes the pointer that
  \<open>realloc\<close> computed, which is what callers read where the value survives in the return register.
\<close>

section \<open>Allocation strategies\<close>

type_synonym memory = "char option list"

text \<open>The classes behind \<open>BufferStrategyInterface\<close>; virtual dispatch is a case distinction.\<close>

datatype strategy =
    BufferMallocator nat nat
  | HeaderAllocator
  | BodyAllocator
  | TunnelAllocator

fun min_size :: "strategy \<Rightarrow> nat" where
  "min_size (BufferMallocator mn mx) = mn"
| "min_size HeaderAllocator = 1024 * 8"
| "min_size BodyAllocator = 1024 * 32"
| "min_size TunnelAllocator = 1024 * 128"

fun max_size :: "strategy \<Rightarrow> nat" where
  "max_size (BufferMallocator mn mx) = mx"
| "max_size HeaderAllocator = 1024 * 1024"
| "max_size BodyAllocator = 1024 * 1024"
| "max_size TunnelAllocator = 1024 * 1024"

definition default_mallocator :: strategy where
  "default_mallocator = BufferMallocator 256 (1024 * 1024)"

definition allocate :: "strategy \<Rightarrow> nat \<Rightarrow> memory result" where
  "allocate st n =
     (if n > max_size st then Inl Alloc_Too_Big else Inr (replicate (max n (min_size st)) None))"

definition reallocate_size :: "strategy \<Rightarrow> nat \<Rightarrow> nat \<Rightarrow> nat result" where
  "reallocate_size st original_size new_size =
     (if new_size > max_size st then Inl Alloc_Too_Big
      else Inr (max new_size (min (max_size st) (2 * original_size))))"

definition reallocate :: "strategy \<Rightarrow> memory \<Rightarrow> nat \<Rightarrow> memory result" where
  "reallocate st p new_size =
     (if new_size > max_size st then Inl Alloc_Too_Big
      else Inr (take new_size p @ replicate (new_size - length p) None))"

section \<open>The buffer\<close>

record contig_buffer =
  m_strategy :: strategy
  m_mem :: memory
  m_length :: nat
  m_capacity :: nat
  m_size :: nat

text \<open>\<open>memcpy\<close> to an offset of a block; writing past its end is the value \<^const>\<open>Out_Of_Bounds\<close>.\<close>

definition memcpy :: "memory \<Rightarrow> nat \<Rightarrow> memory \<Rightarrow> memory result" where
  "memcpy dst off src =
     (if off + length src \<le> length dst
      then Inr (take off dst @ src @ drop (off + length src) dst) else Inl Out_Of_Bounds)"

definition contig_new :: "strategy \<Rightarrow> contig_buffer result" where
  "contig_new st =
     (let tmp_cap = min_size st in
      rbind (allocate st tmp_cap) (\<lambda>mem.
        Inr \<lparr>m_strategy = st, m_mem = mem, m_length = 0, m_capacity = tmp_cap, m_size = 0\<rparr>))"

definition contig_new_cap :: "strategy \<Rightarrow> nat \<Rightarrow> contig_buffer result" where
  "contig_new_cap st cap =
     (let tmp_cap = max cap (min_size st) in
      rbind (allocate st tmp_cap) (\<lambda>mem.
        Inr \<lparr>m_strategy = st, m_mem = mem, m_length = 0, m_capacity = tmp_cap, m_size = 0\<rparr>))"

definition contig_append :: "memory \<Rightarrow> contig_buffer \<Rightarrow> contig_buffer result" where
  "contig_append data b =
     (let len = length data in
      rbind (if m_length b + len \<ge> m_capacity b then
               rbind (reallocate_size (m_strategy b) (m_capacity b) (m_length b + len)) (\<lambda>new_capacity.
               rbind (reallocate (m_strategy b) (m_mem b) new_capacity) (\<lambda>tmp.
                 Inr (b\<lparr>m_mem := tmp, m_capacity := new_capacity\<rparr>)))
             else Inr b) (\<lambda>b1.
      rbind (memcpy (m_mem b1) (m_length b1) data) (\<lambda>mem.
        Inr (b1\<lparr>m_mem := mem, m_length := m_length b1 + len, m_size := m_length b1 + len\<rparr>))))"

definition contig_append_string :: "string \<Rightarrow> contig_buffer \<Rightarrow> contig_buffer result" where
  "contig_append_string str b = contig_append (map Some str) b"

definition contig_of_string :: "strategy \<Rightarrow> string \<Rightarrow> contig_buffer result" where
  "contig_of_string st str = rbind (contig_new_cap st (length str)) (contig_append_string str)"

text \<open>The copy constructor never sets \<open>m_length\<close>: its value is the argument \<open>junk\<close>.\<close>

definition contig_copy :: "nat \<Rightarrow> contig_buffer \<Rightarrow> contig_buffer result" where
  "contig_copy junk other =
     rbind (allocate (m_strategy other) (m_capacity other)) (\<lambda>mem.
     rbind (memcpy mem 0 (take (m_size other) (m_mem other))) (\<lambda>mem'.
       Inr \<lparr>m_strategy = m_strategy other, m_mem = mem', m_length = junk,
            m_capacity = m_capacity other, m_size = m_size other\<rparr>))"

text \<open>
  Copy assignment between distinct objects. \<open>m_strategy = other.m_strategy\<close> assigns through a reference
  to a class without data members and changes nothing; \<open>m_length\<close> keeps the value of the target.
\<close>

definition contig_assign :: "contig_buffer \<Rightarrow> contig_buffer \<Rightarrow> contig_buffer result" where
  "contig_assign this other =
     rbind (allocate (m_strategy this) (m_capacity other)) (\<lambda>mem.
     rbind (memcpy mem 0 (take (m_size other) (m_mem other))) (\<lambda>mem'.
       Inr (this\<lparr>m_mem := mem', m_capacity := m_capacity other, m_size := m_size other\<rparr>)))"

text \<open>
  Move assignment ends by move-assigning a fresh temporary to \<open>other\<close>, which ends by move-assigning a
  fresh temporary to the temporary, and so on. \<open>fuel\<close> bounds the depth of the recursion; \<^term>\<open>None\<close> is
  a call that has not returned within it.
\<close>

fun contig_move_assign :: "nat \<Rightarrow> contig_buffer \<Rightarrow> contig_buffer \<Rightarrow> (contig_buffer \<times> contig_buffer) result option" where
  "contig_move_assign 0 this other = None"
| "contig_move_assign (Suc fuel) this other =
     (let this' = this\<lparr>m_mem := m_mem other, m_capacity := m_capacity other, m_size := m_size other\<rparr> in
      case contig_new_cap (m_strategy this') (m_capacity this') of
        Inl e \<Rightarrow> Some (Inl e)
      | Inr tmp \<Rightarrow>
          (case contig_move_assign fuel other tmp of
             None \<Rightarrow> None
           | Some (Inl e) \<Rightarrow> Some (Inl e)
           | Some (Inr (other', tmp')) \<Rightarrow> Some (Inr (this', other'))))"

definition contig_data :: "contig_buffer \<Rightarrow> memory" where
  "contig_data b = m_mem b"

definition contig_size :: "contig_buffer \<Rightarrow> nat" where
  "contig_size b = m_length b"

definition contig_capacity :: "contig_buffer \<Rightarrow> nat" where
  "contig_capacity b = m_capacity b"

definition contig_clear :: "contig_buffer \<Rightarrow> contig_buffer" where
  "contig_clear b = b\<lparr>m_length := 0, m_mem := (m_mem b)[0 := Some (CHR 0x00)]\<rparr>"

definition contig_setSize :: "nat \<Rightarrow> contig_buffer \<Rightarrow> contig_buffer" where
  "contig_setSize n b = b\<lparr>m_length := n, m_size := n\<rparr>"

text \<open>Reading \<open>n\<close> bytes from the start of a block: \<^term>\<open>None\<close> when one of them was never written.\<close>

definition read_bytes :: "memory \<Rightarrow> nat \<Rightarrow> string option" where
  "read_bytes mem n =
     (if n \<le> length mem \<and> list_all (\<lambda>c. c \<noteq> None) (take n mem)
      then Some (map the (take n mem)) else None)"

definition contig_toString :: "contig_buffer \<Rightarrow> string option" where
  "contig_toString b = read_bytes (m_mem b) (m_size b)"

text \<open>\<open>contains\<close>: a pointer is its distance from \<open>m_cPtr\<close>.\<close>

definition contig_contains :: "contig_buffer \<Rightarrow> int \<Rightarrow> bool" where
  "contig_contains b ptr = (ptr \<le> int (m_capacity b) \<and> ptr \<ge> 0)"

text \<open>\<open>boost::asio::const_buffer\<close>: a start address, modelled by the block behind it, and a length.\<close>

record const_buffer =
  cb_data :: memory
  cb_size :: nat

definition mb_as_const_buffer :: "contig_buffer \<Rightarrow> const_buffer" where
  "mb_as_const_buffer b = \<lparr>cb_data = contig_data b, cb_size = contig_size b\<rparr>"

definition contig_show :: "contig_buffer \<Rightarrow> string option" where
  "contig_show b =
     (if m_length b = 0 then Some ''Empty ''
      else map_option (\<lambda>s. [CHR 0x0D, CHR 0x0A] @ ''ContigBuffer{ length: '' @ nat_to_string (m_length b)
             @ ''content: ['' @ s @ '']}'') (read_bytes (m_mem b) (contig_size b)))"

section \<open>The factory\<close>

definition makeSPtr :: "strategy \<Rightarrow> contig_buffer result" where
  "makeSPtr st = contig_new st"

definition makeSPtr_cap :: "strategy \<Rightarrow> nat \<Rightarrow> contig_buffer result" where
  "makeSPtr_cap st capacity = contig_new_cap st capacity"

definition makeSPtr_string :: "strategy \<Rightarrow> string \<Rightarrow> contig_buffer result" where
  "makeSPtr_string st s = rbind (contig_new_cap st (length s)) (contig_append_string s)"

definition makeSPtr_mem :: "strategy \<Rightarrow> memory \<Rightarrow> contig_buffer result" where
  "makeSPtr_mem st mem = rbind (contig_new_cap st (length mem)) (contig_append mem)"

definition makeSPtr_contig :: "strategy \<Rightarrow> contig_buffer \<Rightarrow> contig_buffer result" where
  "makeSPtr_contig st mb =
     rbind (contig_new_cap st (contig_capacity mb)) (contig_append (take (contig_size mb) (contig_data mb)))"

section \<open>Invariant and abstraction\<close>

definition strategy_ok :: "strategy \<Rightarrow> bool" where
  "strategy_ok st \<longleftrightarrow> min_size st \<le> max_size st"

definition contig_inv :: "contig_buffer \<Rightarrow> bool" where
  "contig_inv b \<longleftrightarrow>
     strategy_ok (m_strategy b) \<and> m_length b \<le> m_capacity b \<and> m_capacity b \<le> length (m_mem b) \<and>
     m_capacity b \<le> max_size (m_strategy b) \<and> m_size b = m_length b \<and>
     list_all (\<lambda>c. c \<noteq> None) (take (m_length b) (m_mem b))"

definition contig_content :: "contig_buffer \<Rightarrow> string" where
  "contig_content b = map the (take (m_length b) (m_mem b))"

lemma strategy_ok_classes [simp]:
  "strategy_ok HeaderAllocator" "strategy_ok BodyAllocator" "strategy_ok TunnelAllocator"
  "strategy_ok default_mallocator"
  by (simp_all add: strategy_ok_def default_mallocator_def)

lemma map_Some_the: "list_all (\<lambda>c. c \<noteq> None) xs \<Longrightarrow> map (\<lambda>c. Some (the c)) xs = xs"
  by (induction xs) auto

lemma contig_toString_content [buffer_simps]:
  "contig_inv b \<Longrightarrow> contig_toString b = Some (contig_content b)"
  by (auto simp: contig_inv_def contig_toString_def contig_content_def read_bytes_def)

lemma take_mem_content [buffer_simps]:
  "contig_inv b \<Longrightarrow> take (m_length b) (m_mem b) = map Some (contig_content b)"
  by (auto simp: contig_inv_def contig_content_def comp_def map_Some_the)

lemma length_contig_content [buffer_simps]: "contig_inv b \<Longrightarrow> length (contig_content b) = m_length b"
  by (auto simp: contig_inv_def contig_content_def)

lemma contig_new_cap_ok:
  assumes "strategy_ok st" "cap \<le> max_size st"
  shows "\<exists>b. contig_new_cap st cap = Inr b \<and> contig_inv b \<and> contig_content b = [] \<and>
             m_strategy b = st \<and> m_capacity b = max cap (min_size st)"
  using assms
  by (auto simp: contig_new_cap_def allocate_def strategy_ok_def contig_inv_def contig_content_def Let_def)

lemma contig_new_cap_too_big:
  "cap > max_size st \<Longrightarrow> contig_new_cap st cap = Inl Alloc_Too_Big"
  by (auto simp: contig_new_cap_def allocate_def Let_def max_def)

lemma contig_new_ok:
  assumes "strategy_ok st"
  shows "\<exists>b. contig_new st = Inr b \<and> contig_inv b \<and> contig_content b = [] \<and> m_strategy b = st"
  using assms
  by (auto simp: contig_new_def allocate_def strategy_ok_def contig_inv_def contig_content_def Let_def)

text \<open>The grow step of \<open>append\<close>: capacity for the new bytes, contents kept, never past the maximum.\<close>

lemma contig_grow:
  assumes inv: "contig_inv b" and fits: "m_length b + n \<le> max_size (m_strategy b)"
    and need: "m_length b + n \<ge> m_capacity b"
  shows "\<exists>cap mem. reallocate_size (m_strategy b) (m_capacity b) (m_length b + n) = Inr cap \<and>
           reallocate (m_strategy b) (m_mem b) cap = Inr mem \<and>
           m_length b + n \<le> cap \<and> m_capacity b \<le> cap \<and> cap \<le> max_size (m_strategy b) \<and>
           length mem = cap \<and> take (m_length b) mem = take (m_length b) (m_mem b)"
  using assms
  by (auto simp: reallocate_size_def reallocate_def contig_inv_def min_def max_def)

lemma memcpy_ok:
  assumes "off + length src \<le> length dst"
  shows "memcpy dst off src = Inr (take off dst @ src @ drop (off + length src) dst)"
  using assms by (simp add: memcpy_def)

lemma contig_store:
  assumes "contig_inv b" "list_all (\<lambda>c. c \<noteq> None) data" "m_length b + length data \<le> m_capacity b"
  shows "\<exists>b'. rbind (memcpy (m_mem b) (m_length b) data) (\<lambda>mem.
              Inr (b\<lparr>m_mem := mem, m_length := m_length b + length data,
                     m_size := m_length b + length data\<rparr>)) = Inr b' \<and> contig_inv b' \<and>
              contig_content b' = contig_content b @ map the data \<and> m_strategy b' = m_strategy b \<and>
              m_capacity b' = m_capacity b"
  using assms by (auto simp: memcpy_def contig_inv_def contig_content_def min_absorb2)

lemma contig_append_ok:
  assumes inv: "contig_inv b" and written: "list_all (\<lambda>c. c \<noteq> None) data"
    and fits: "m_length b + length data \<le> max_size (m_strategy b)"
  shows "\<exists>b'. contig_append data b = Inr b' \<and> contig_inv b' \<and>
              contig_content b' = contig_content b @ map the data \<and>
              m_strategy b' = m_strategy b \<and> m_capacity b \<le> m_capacity b'"
proof (cases "m_length b + length data \<ge> m_capacity b")
  case True
  obtain cap mem where
    r: "reallocate_size (m_strategy b) (m_capacity b) (m_length b + length data) = Inr cap"
      "reallocate (m_strategy b) (m_mem b) cap = Inr mem"
    and c: "m_length b + length data \<le> cap" "m_capacity b \<le> cap" "cap \<le> max_size (m_strategy b)"
      "length mem = cap" "take (m_length b) mem = take (m_length b) (m_mem b)"
    using contig_grow [OF inv fits True] by blast
  let ?b = "b\<lparr>m_mem := mem, m_capacity := cap\<rparr>"
  have "contig_inv ?b" using inv c by (auto simp: contig_inv_def)
  moreover have "contig_content ?b = contig_content b" using c by (simp add: contig_content_def)
  ultimately show ?thesis
    using contig_store [of ?b data] written c r True by (auto simp: contig_append_def Let_def)
next
  case False
  then show ?thesis
    using contig_store [OF inv written] by (auto simp: contig_append_def Let_def)
qed

lemma contig_append_too_big:
  assumes "contig_inv b" "m_length b + length data > max_size (m_strategy b)"
  shows "contig_append data b = Inl Alloc_Too_Big"
  using assms by (auto simp: contig_append_def reallocate_size_def contig_inv_def Let_def)

section \<open>Byte sinks\<close>

text \<open>
  What the serialisers and collectors of buffers rely on: appending a piece that the sink accepts
  extends its contents and keeps its invariant. A bounded sink accepts exactly what fits its limit and
  refuses the rest with an exception.
\<close>

locale byte_sink =
  fixes append :: "string \<Rightarrow> 'b \<Rightarrow> 'b result"
    and content :: "'b \<Rightarrow> string"
    and inv :: "'b \<Rightarrow> bool"
    and accepts :: "'b \<Rightarrow> string \<Rightarrow> bool"
  assumes append_accepted: "inv b \<Longrightarrow> accepts b d \<Longrightarrow>
      \<exists>b'. append d b = Inr b' \<and> inv b' \<and> content b' = content b @ d \<and>
           (\<forall>e. accepts b (d @ e) \<longrightarrow> accepts b' e)"
    and accepts_prefix: "accepts b (d @ e) \<Longrightarrow> accepts b d"
begin

lemma append_pieces:
  assumes "inv b" "accepts b (concat ds)"
  shows "\<exists>b'. rfold append ds b = Inr b' \<and> inv b' \<and> content b' = content b @ concat ds"
  using assms
proof (induction ds arbitrary: b)
  case (Cons d ds)
  then have "accepts b d" using accepts_prefix [of b d "concat ds"] by simp
  then obtain b1 where b1: "append d b = Inr b1" "inv b1" "content b1 = content b @ d"
      "accepts b1 (concat ds)"
    using append_accepted [of b d] Cons.prems by auto
  then show ?case using Cons.IH [of b1] by auto
qed simp

end

locale bounded_sink = byte_sink append content inv accepts
  for append :: "string \<Rightarrow> 'b \<Rightarrow> 'b result" and content inv accepts +
  fixes limit :: "'b \<Rightarrow> nat"
  assumes accepts_iff: "inv b \<Longrightarrow> accepts b d \<longleftrightarrow> length (content b) + length d \<le> limit b"
    and limit_append: "inv b \<Longrightarrow> append d b = Inr b' \<Longrightarrow> limit b' = limit b"
    and refused: "inv b \<Longrightarrow> \<not> accepts b d \<Longrightarrow> append d b = Inl Alloc_Too_Big"
begin

lemma append_pieces_refused:
  assumes "inv b" "\<not> accepts b (concat ds)" "ds \<noteq> []"
  shows "rfold append ds b = Inl Alloc_Too_Big"
  using assms
proof (induction ds arbitrary: b)
  case (Cons d ds)
  show ?case
  proof (cases "accepts b d")
    case True
    then obtain b1 where b1: "append d b = Inr b1" "inv b1" "content b1 = content b @ d"
        "\<forall>e. accepts b (d @ e) \<longrightarrow> accepts b1 e"
      using append_accepted [of b d] Cons.prems by auto
    have ne: "ds \<noteq> []" using Cons.prems True by auto
    have "\<not> accepts b1 (concat ds)"
      using Cons.prems True b1 accepts_iff [of b] accepts_iff [of b1] limit_append [of b d b1]
      by simp
    then show ?thesis using Cons.IH [of b1] b1 ne by simp
  next
    case False
    then show ?thesis using refused Cons.prems by simp
  qed
qed simp

end

text \<open>A piecewise sink judges every piece on its own: what it holds already does not matter.\<close>

locale piecewise_sink = byte_sink append content inv accepts
  for append :: "string \<Rightarrow> 'b \<Rightarrow> 'b result" and content inv accepts +
  assumes accepts_stable: "inv b \<Longrightarrow> accepts b d \<Longrightarrow> append d b = Inr b' \<Longrightarrow> accepts b' e = accepts b e"
begin

lemma append_each:
  assumes "inv b" "list_all (accepts b) ds"
  shows "\<exists>b'. rfold append ds b = Inr b' \<and> inv b' \<and> content b' = content b @ concat ds"
  using assms
proof (induction ds arbitrary: b)
  case (Cons d ds)
  then obtain b1 where b1: "append d b = Inr b1" "inv b1" "content b1 = content b @ d"
    using append_accepted [of b d] by auto
  then have "accepts b1 = accepts b" using accepts_stable [of b d b1] Cons.prems by (auto simp: fun_eq_iff)
  then show ?case using Cons.IH [of b1] Cons.prems b1 by auto
qed simp

end

definition contig_accepts :: "contig_buffer \<Rightarrow> string \<Rightarrow> bool" where
  "contig_accepts b d \<longleftrightarrow> length (contig_content b) + length d \<le> max_size (m_strategy b)"

lemma list_all_map_Some: "list_all (\<lambda>c. c \<noteq> None) (map Some d)"
  by (simp add: list_all_iff)

lemma contig_append_string_ok:
  assumes "contig_inv b" "contig_accepts b d"
  shows "\<exists>b'. contig_append_string d b = Inr b' \<and> contig_inv b' \<and>
              contig_content b' = contig_content b @ d \<and>
              m_strategy b' = m_strategy b \<and> m_capacity b \<le> m_capacity b'"
  using contig_append_ok [OF _ list_all_map_Some, of b d] assms
  by (simp add: contig_append_string_def contig_accepts_def length_contig_content comp_def)

lemma contig_append_string_strategy:
  assumes "contig_inv b" "contig_append_string d b = Inr b'"
  shows "m_strategy b' = m_strategy b"
proof (cases "contig_accepts b d")
  case True
  then show ?thesis using contig_append_string_ok assms by fastforce
next
  case False
  then show ?thesis using contig_append_too_big [of b "map Some d"] assms
    by (simp add: contig_append_string_def contig_accepts_def length_contig_content)
qed

interpretation contig: bounded_sink contig_append_string contig_content contig_inv contig_accepts
  "\<lambda>b. max_size (m_strategy b)"
proof (unfold_locales, goal_cases)
  case (1 b d)
  then obtain b' where "contig_append_string d b = Inr b'" "contig_inv b'"
      "contig_content b' = contig_content b @ d" "m_strategy b' = m_strategy b"
    using contig_append_string_ok by blast
  then show ?case by (auto simp: contig_accepts_def)
next
  case (2 b d e)
  then show ?case by (simp add: contig_accepts_def)
next
  case (3 b d)
  then show ?case by (simp add: contig_accepts_def)
next
  case (4 b d b')
  then show ?case using contig_append_string_strategy by simp
next
  case (5 b d)
  then show ?case using contig_append_too_big [of b "map Some d"]
    by (simp add: contig_append_string_def contig_accepts_def length_contig_content)
qed

section \<open>Properties\<close>

text \<open>
  Appending to a well-formed buffer never fails for lack of space below the strategy's maximum: the
  buffer grows as needed, stays well formed (filled part inside the allocated block, capacity at most
  the maximum), keeps what it held and gains exactly the appended bytes; above the maximum it throws
  \<open>requested allocation too big\<close> and nothing else.
\<close>

theorem contig_append_correct:
  assumes "contig_inv b"
  shows "if length (contig_content b) + length d \<le> max_size (m_strategy b)
         then \<exists>b'. contig_append_string d b = Inr b' \<and> contig_inv b' \<and>
                   contig_toString b' = Some (contig_content b @ d) \<and> contig_size b' = contig_size b + length d
         else contig_append_string d b = Inl Alloc_Too_Big"
proof (cases "contig_accepts b d")
  case True
  then obtain b' where b': "contig_append_string d b = Inr b'" "contig_inv b'"
      "contig_content b' = contig_content b @ d"
    using contig_append_string_ok assms by blast
  then have "contig_size b' = contig_size b + length d"
    using length_contig_content [of b] length_contig_content [of b'] assms by (simp add: contig_size_def)
  with True b' show ?thesis by (auto simp: contig_accepts_def contig_toString_content)
next
  case False
  then show ?thesis using contig.refused assms by (simp add: contig_accepts_def)
qed

definition sample_buffer :: contig_buffer where
  "sample_buffer = \<lparr>m_strategy = BufferMallocator 2 8, m_mem = [Some (CHR ''a''), None],
                    m_length = 1, m_capacity = 2, m_size = 1\<rparr>"

lemma sample_buffer_inv: "contig_inv sample_buffer"
  by (simp add: sample_buffer_def contig_inv_def strategy_ok_def)

theorem contig_append_correct_witness:
  "contig_inv sample_buffer \<and>
   (\<exists>b'. contig_append_string ''bcd'' sample_buffer = Inr b' \<and> contig_inv b' \<and>
         contig_toString b' = Some ''abcd'' \<and> contig_size b' = 1 + 3)"
proof -
  have "contig_content sample_buffer = ''a''" "contig_size sample_buffer = 1"
      "max_size (m_strategy sample_buffer) = 8"
    by (simp_all add: sample_buffer_def contig_content_def contig_size_def)
  then show ?thesis
    using contig_append_correct [OF sample_buffer_inv, of "''bcd''"] sample_buffer_inv
    by (simp add: numeral_eq_Suc)
qed

lemma contig_new_cap_same_strategy:
  assumes "strategy_ok st" "cap \<le> max_size st"
  obtains t where "contig_new_cap st cap = Inr t" "m_strategy t = st" "m_capacity t \<le> max_size st"
  using contig_new_cap_ok [OF assms] assms by (auto simp: strategy_ok_def)

lemma contig_move_assign_None:
  assumes "strategy_ok st" "m_strategy this = st" "m_strategy other = st" "m_capacity other \<le> max_size st"
  shows "contig_move_assign fuel this other = None"
  using assms
proof (induction fuel arbitrary: this other)
  case (Suc fuel)
  from Suc.prems obtain t where t: "contig_new_cap st (m_capacity other) = Inr t"
      "m_strategy t = st" "m_capacity t \<le> max_size st"
    using contig_new_cap_same_strategy by metis
  then have "contig_move_assign fuel other t = None" using Suc by simp
  then show ?case using t Suc.prems by (simp add: Let_def)
qed simp

text \<open>
  Move assignment between two well-formed buffers of the same strategy never returns: at every
  recursion depth the operator is still assigning a temporary to the buffer it has just moved from.
\<close>

theorem contig_move_assign_diverges:
  assumes "contig_inv this" "contig_inv other" "m_strategy this = m_strategy other"
  shows "contig_move_assign fuel this other = None"
  using assms contig_move_assign_None [of "m_strategy other" this other fuel]
  by (simp add: contig_inv_def)

theorem contig_move_assign_diverges_witness:
  "contig_inv sample_buffer \<and> contig_move_assign 1000000 sample_buffer sample_buffer = None"
  using contig_move_assign_diverges [OF sample_buffer_inv sample_buffer_inv refl] sample_buffer_inv
  by blast

text \<open>
  \<open>clear\<close> empties the buffer as far as \<open>size()\<close> is concerned but leaves \<open>toString()\<close> behind: on a
  non-empty well-formed buffer it still returns as many bytes as before, the first replaced by NUL.
\<close>

theorem contig_clear_toString_stale:
  assumes "contig_inv b" "contig_content b \<noteq> []"
  shows "contig_size (contig_clear b) = 0 \<and>
         contig_toString (contig_clear b) = Some (CHR 0x00 # tl (contig_content b))"
proof -
  obtain x xs where m: "m_mem b = x # xs" and l: "m_length b = Suc (m_length b - 1)"
    using assms by (cases "m_mem b"; cases "m_length b") (auto simp: contig_content_def contig_inv_def)
  have "take (m_length b) (m_mem b) = x # take (m_length b - 1) xs"
    by (subst l) (simp add: m)
  then show ?thesis using assms m
    by (auto simp: contig_clear_def contig_size_def contig_toString_def read_bytes_def contig_inv_def
        contig_content_def take_Cons' split: if_splits)
qed

theorem contig_clear_toString_stale_witness:
  "contig_inv sample_buffer \<and> contig_content sample_buffer \<noteq> [] \<and>
   contig_size (contig_clear sample_buffer) = 0 \<and>
   contig_toString (contig_clear sample_buffer) = Some [CHR 0x00]"
proof -
  have c: "contig_content sample_buffer = ''a''" by (simp add: sample_buffer_def contig_content_def)
  then show ?thesis
    using contig_clear_toString_stale [OF sample_buffer_inv] sample_buffer_inv by simp
qed

lemma makeSPtr_string_ok:
  assumes "strategy_ok st" "length s \<le> max_size st"
  shows "\<exists>b. makeSPtr_string st s = Inr b \<and> contig_inv b \<and> contig_content b = s \<and> m_strategy b = st"
proof -
  obtain b where b: "contig_new_cap st (length s) = Inr b" "contig_inv b" "contig_content b = []"
      "m_strategy b = st"
    using contig_new_cap_ok assms by blast
  then show ?thesis
    using contig_append_string_ok [of b s] assms by (auto simp: makeSPtr_string_def contig_accepts_def)
qed

lemma makeSPtr_string_too_big:
  "length s > max_size st \<Longrightarrow> makeSPtr_string st s = Inl Alloc_Too_Big"
  by (simp add: makeSPtr_string_def contig_new_cap_too_big)

lemma makeSPtr_contig_ok:
  assumes "contig_inv mb" "strategy_ok st" "m_capacity mb \<le> max_size st"
  shows "\<exists>b. makeSPtr_contig st mb = Inr b \<and> contig_inv b \<and> contig_content b = contig_content mb \<and>
             m_strategy b = st"
proof -
  obtain b where b: "contig_new_cap st (m_capacity mb) = Inr b" "contig_inv b" "contig_content b = []"
      "m_strategy b = st"
    using contig_new_cap_ok assms by blast
  have "m_length mb \<le> max_size st" using assms by (auto simp: contig_inv_def)
  then show ?thesis
    using contig_append_string_ok [of b "contig_content mb"] assms b
    by (auto simp: makeSPtr_contig_def contig_accepts_def contig_capacity_def contig_data_def
        contig_size_def contig_append_string_def buffer_simps)
qed

end
