(* ===== verification/Buffer_Chain.thy ===== *)
theory Buffer_Chain
  imports Contig_Buffer
begin

text \<open>
  \<open>marvin/buffer/buffer_chain.hpp\<close> and the factory functions of \<open>buffer_for_tests.hpp\<close>: a message body
  as a sequence of contiguous buffers, with the parallel sequence of \<open>asio\<close> buffers that gather writes
  send. Blocks are held through shared pointers that nothing else writes through, so they are values
  here; an \<open>asio\<close> buffer is the block and length it was made from. \<open>MARVIN_MK_CONSTBUF\<close> is defined in
  the body of \<open>append\<close> and so is in force for the rest of the header.
\<close>

record buffer_chain =
  m_chain :: "contig_buffer list"
  m_asio_chain :: "const_buffer list"
  bc_size :: nat
  m_buf_factory :: strategy

definition chain_new :: "strategy \<Rightarrow> buffer_chain" where
  "chain_new factory = \<lparr>m_chain = [], m_asio_chain = [], bc_size = 0, m_buf_factory = factory\<rparr>"

definition chain_push_back :: "contig_buffer \<Rightarrow> buffer_chain \<Rightarrow> buffer_chain" where
  "chain_push_back mb c =
     c\<lparr>bc_size := bc_size c + contig_size mb, m_chain := m_chain c @ [mb],
       m_asio_chain := m_asio_chain c @ [mb_as_const_buffer mb]\<rparr>"

text \<open>The fallback of \<open>append\<close>: a new block of at least eight kilobytes.\<close>

definition chain_append_block :: "string \<Rightarrow> buffer_chain \<Rightarrow> buffer_chain result" where
  "chain_append_block buf c =
     (let len = length buf;
          required_len = (if len > 256 * 4 * 8 then len + 100 else 256 * 4 * 8) in
      rbind (makeSPtr_cap (m_buf_factory c) required_len) (\<lambda>new_mb.
      rbind (contig_append_string buf new_mb) (\<lambda>new_mb'.
        Inr (chain_push_back new_mb' c))))"

definition chain_append :: "string \<Rightarrow> buffer_chain \<Rightarrow> buffer_chain result" where
  "chain_append buf c =
     (let len = length buf in
      if m_chain c \<noteq> [] \<and>
         size_sub (contig_capacity (last (m_chain c))) (contig_size (last (m_chain c))) \<ge> len
      then rbind (contig_append_string buf (last (m_chain c))) (\<lambda>last_mb.
             if m_asio_chain c = [] then Inl Out_Of_Bounds
             else Inr (c\<lparr>m_chain := butlast (m_chain c) @ [last_mb],
                         m_asio_chain := butlast (m_asio_chain c) @ [mb_as_const_buffer last_mb],
                         bc_size := bc_size c + len\<rparr>))
      else chain_append_block buf c)"

definition chain_push_copies :: "contig_buffer list \<Rightarrow> buffer_chain \<Rightarrow> buffer_chain result" where
  "chain_push_copies mbs c =
     rfold (\<lambda>mb c. rbind (makeSPtr_contig (m_buf_factory c) mb) (\<lambda>cp. Inr (chain_push_back cp c))) mbs c"

definition chain_copy :: "buffer_chain \<Rightarrow> buffer_chain result" where
  "chain_copy other = chain_push_copies (m_chain other) (chain_new (m_buf_factory other))"

text \<open>Assignments between distinct objects; the factory is a reference and stays.\<close>

definition chain_assign :: "buffer_chain \<Rightarrow> buffer_chain \<Rightarrow> buffer_chain result" where
  "chain_assign this other = chain_push_copies (m_chain other) (this\<lparr>bc_size := 0\<rparr>)"

definition chain_move :: "buffer_chain \<Rightarrow> buffer_chain \<times> buffer_chain" where
  "chain_move other =
     (\<lparr>m_chain = m_chain other, m_asio_chain = m_asio_chain other, bc_size = bc_size other,
       m_buf_factory = m_buf_factory other\<rparr>,
      other\<lparr>m_chain := [], m_asio_chain := [], bc_size := 0\<rparr>)"

definition chain_move_assign :: "buffer_chain \<Rightarrow> buffer_chain \<Rightarrow> buffer_chain \<times> buffer_chain" where
  "chain_move_assign this other =
     (this\<lparr>m_chain := m_chain other, bc_size := bc_size other\<rparr>,
      other\<lparr>m_chain := m_chain this, bc_size := bc_size this\<rparr>)"

definition chain_clear :: "buffer_chain \<Rightarrow> buffer_chain" where
  "chain_clear c = c\<lparr>m_chain := [], m_asio_chain := [], bc_size := 0\<rparr>"

definition chain_size :: "buffer_chain \<Rightarrow> nat" where
  "chain_size c = bc_size c"

definition chain_blocks :: "buffer_chain \<Rightarrow> nat" where
  "chain_blocks c = length (m_chain c)"

definition chain_block_at :: "nat \<Rightarrow> buffer_chain \<Rightarrow> contig_buffer result" where
  "chain_block_at index c =
     (if index \<ge> length (m_chain c) then Inl Index_Out_Of_Range else Inr (m_chain c ! index))"

fun cat_options :: "string option list \<Rightarrow> string option" where
  "cat_options [] = Some []"
| "cat_options (None # xs) = None"
| "cat_options (Some s # xs) = map_option (\<lambda>t. s @ t) (cat_options xs)"

definition chain_to_string :: "buffer_chain \<Rightarrow> string option" where
  "chain_to_string c = cat_options (map contig_toString (m_chain c))"

definition chain_amalgamate :: "buffer_chain \<Rightarrow> contig_buffer result" where
  "chain_amalgamate c =
     rbind (makeSPtr_cap (m_buf_factory c) (chain_size c)) (\<lambda>mb_final.
       rfold (\<lambda>mb. contig_append (take (contig_size mb) (contig_data mb))) (m_chain c) mb_final)"

definition asio_buffer_sequence :: "buffer_chain \<Rightarrow> const_buffer list" where
  "asio_buffer_sequence c = m_asio_chain c"

definition buffersequence_to_string :: "const_buffer list \<Rightarrow> string option" where
  "buffersequence_to_string bufs = cat_options (map (\<lambda>m. read_bytes (cb_data m) (cb_size m)) bufs)"

definition chain_show :: "buffer_chain \<Rightarrow> string option" where
  "chain_show b =
     (if chain_size b = 0 then Some ''Empty ''
      else map_option (\<lambda>s. [CHR 0x0A] @ ''BufferChain{ length: '' @ nat_to_string (chain_size b)
             @ ''content: ['' @ s @ '']}'') (chain_to_string b))"

section \<open>Shared pointer factories\<close>

definition getTestFactory :: strategy where
  "getTestFactory = default_mallocator"

definition makeBufferChainSPtr :: buffer_chain where
  "makeBufferChainSPtr = chain_new getTestFactory"

definition makeBufferChainSPtr_string :: "string \<Rightarrow> buffer_chain result" where
  "makeBufferChainSPtr_string s =
     rbind (makeSPtr_string getTestFactory s) (\<lambda>cb. Inr (chain_push_back cb (chain_new getTestFactory)))"

definition makeBufferChainSPtr_contig :: "contig_buffer \<Rightarrow> buffer_chain" where
  "makeBufferChainSPtr_contig cb_sptr = chain_push_back cb_sptr (chain_new getTestFactory)"

definition makeContigBufferSPtr_cap :: "nat \<Rightarrow> contig_buffer result" where
  "makeContigBufferSPtr_cap capacity = makeSPtr_cap getTestFactory capacity"

definition makeContigBufferSPtr_string :: "string \<Rightarrow> contig_buffer result" where
  "makeContigBufferSPtr_string s = makeSPtr_string getTestFactory s"

section \<open>Invariant and abstraction\<close>

definition chain_content :: "buffer_chain \<Rightarrow> string" where
  "chain_content c = concat (map contig_content (m_chain c))"

definition chain_inv :: "buffer_chain \<Rightarrow> bool" where
  "chain_inv c \<longleftrightarrow>
     strategy_ok (m_buf_factory c) \<and> list_all contig_inv (m_chain c) \<and>
     m_asio_chain c = map mb_as_const_buffer (m_chain c) \<and> bc_size c = length (chain_content c)"

definition chain_accepts :: "buffer_chain \<Rightarrow> string \<Rightarrow> bool" where
  "chain_accepts c d \<longleftrightarrow>
     max (256 * 4 * 8) (length d + 100) \<le> max_size (m_buf_factory c)"

lemma cat_options_Some: "cat_options (map (\<lambda>x. Some (f x)) xs) = Some (concat (map f xs))"
  by (induction xs) auto

lemma cat_options_cong:
  assumes "list_all P xs" "\<And>x. P x \<Longrightarrow> g x = Some (f x)"
  shows "cat_options (map g xs) = Some (concat (map f xs))"
  using assms by (induction xs) auto

lemma chain_new_inv [simp]: "strategy_ok st \<Longrightarrow> chain_inv (chain_new st)"
  by (simp add: chain_inv_def chain_new_def chain_content_def)

lemma chain_content_new [simp]: "chain_content (chain_new st) = []"
  by (simp add: chain_new_def chain_content_def)

lemma getTestFactory_ok [simp]: "strategy_ok getTestFactory"
  by (simp add: getTestFactory_def)

lemma max_size_getTestFactory [simp]: "max_size getTestFactory = 1048576"
  by (simp add: getTestFactory_def default_mallocator_def)

lemma chain_push_back_inv:
  assumes "chain_inv c" "contig_inv mb"
  shows "chain_inv (chain_push_back mb c)"
    and "chain_content (chain_push_back mb c) = chain_content c @ contig_content mb"
    and "m_buf_factory (chain_push_back mb c) = m_buf_factory c"
  using assms
  by (auto simp: chain_inv_def chain_push_back_def chain_content_def contig_size_def length_contig_content)

lemma chain_to_string_content [buffer_simps]:
  "chain_inv c \<Longrightarrow> chain_to_string c = Some (chain_content c)"
  unfolding chain_to_string_def chain_content_def
  by (rule cat_options_cong [of contig_inv]) (auto simp: chain_inv_def buffer_simps)

lemma asio_view_content:
  "contig_inv b \<Longrightarrow> read_bytes (cb_data (mb_as_const_buffer b)) (cb_size (mb_as_const_buffer b)) = Some (contig_content b)"
  by (auto simp: mb_as_const_buffer_def read_bytes_def contig_inv_def contig_content_def
      contig_data_def contig_size_def)

lemma asio_sequence_content [buffer_simps]:
  "chain_inv c \<Longrightarrow> buffersequence_to_string (asio_buffer_sequence c) = Some (chain_content c)"
  unfolding buffersequence_to_string_def chain_content_def asio_buffer_sequence_def
  using cat_options_cong [of contig_inv "m_chain c" "\<lambda>b. read_bytes (cb_data (mb_as_const_buffer b)) (cb_size (mb_as_const_buffer b))"]
  by (auto simp: chain_inv_def asio_view_content comp_def)

lemma chain_append_block_ok:
  assumes "chain_inv c" "chain_accepts c d"
  shows "\<exists>c'. chain_append_block d c = Inr c' \<and> chain_inv c' \<and>
              chain_content c' = chain_content c @ d \<and> m_buf_factory c' = m_buf_factory c"
proof -
  let ?req = "if length d > 256 * 4 * 8 then length d + 100 else 256 * 4 * 8"
  have "strategy_ok (m_buf_factory c)" "?req \<le> max_size (m_buf_factory c)"
    using assms by (auto simp: chain_inv_def chain_accepts_def)
  then obtain b where b: "makeSPtr_cap (m_buf_factory c) ?req = Inr b" "contig_inv b"
      "contig_content b = []" "m_strategy b = m_buf_factory c"
    using contig_new_cap_ok unfolding makeSPtr_cap_def by blast
  moreover have "contig_accepts b d" using assms b by (auto simp: contig_accepts_def chain_accepts_def)
  ultimately obtain b' where "contig_append_string d b = Inr b'" "contig_inv b'" "contig_content b' = d"
    using contig_append_string_ok by fastforce
  then show ?thesis
    using b chain_push_back_inv [OF assms(1), of b'] by (auto simp: chain_append_block_def Let_def)
qed

lemma chain_append_last_ok:
  assumes inv: "chain_inv c" and ne: "m_chain c \<noteq> []"
    and fits: "size_sub (contig_capacity (last (m_chain c))) (contig_size (last (m_chain c))) \<ge> length d"
  shows "\<exists>c'. chain_append d c = Inr c' \<and> chain_inv c' \<and>
              chain_content c' = chain_content c @ d \<and> m_buf_factory c' = m_buf_factory c"
proof -
  obtain bs b where bs: "m_chain c = bs @ [b]" using ne by (cases "m_chain c" rule: rev_cases) auto
  have b: "contig_inv b" using inv bs by (simp add: chain_inv_def)
  then have "contig_accepts b d"
    using fits bs by (auto simp: contig_accepts_def size_sub_def contig_inv_def contig_capacity_def
        contig_size_def contig_content_def)
  then obtain b' where b': "contig_append_string d b = Inr b'" "contig_inv b'"
      "contig_content b' = contig_content b @ d"
    using contig_append_string_ok b by blast
  then show ?thesis using inv bs fits by (auto simp: chain_append_def Let_def chain_inv_def chain_content_def)
qed

lemma chain_append_ok:
  assumes "chain_inv c" "chain_accepts c d"
  shows "\<exists>c'. chain_append d c = Inr c' \<and> chain_inv c' \<and>
              chain_content c' = chain_content c @ d \<and> m_buf_factory c' = m_buf_factory c"
proof (cases "m_chain c \<noteq> [] \<and>
    size_sub (contig_capacity (last (m_chain c))) (contig_size (last (m_chain c))) \<ge> length d")
  case True
  then show ?thesis using chain_append_last_ok assms(1) by blast
next
  case False
  then have "chain_append d c = chain_append_block d c" by (auto simp: chain_append_def Let_def)
  then show ?thesis using chain_append_block_ok [OF assms] by simp
qed

text \<open>The chain is a byte sink: a body of any total size, arriving in pieces that fit a block.\<close>

interpretation chain: piecewise_sink chain_append chain_content chain_inv chain_accepts
proof (unfold_locales, goal_cases)
  case (1 b d)
  then obtain c' where "chain_append d b = Inr c'" "chain_inv c'"
      "chain_content c' = chain_content b @ d" "m_buf_factory c' = m_buf_factory b"
    using chain_append_ok by blast
  then show ?case by (auto simp: chain_accepts_def)
next
  case (2 b d e)
  then show ?case by (auto simp: chain_accepts_def)
next
  case (3 b d b' e)
  then show ?case using chain_append_ok [of b d] by (auto simp: chain_accepts_def)
qed

lemma chain_push_copies_ok:
  assumes "list_all contig_inv mbs" "strategy_ok (m_buf_factory c)"
    and "list_all (\<lambda>mb. m_capacity mb \<le> max_size (m_buf_factory c)) mbs"
  shows "\<exists>c' cps. chain_push_copies mbs c = Inr c' \<and> m_buf_factory c' = m_buf_factory c \<and>
           list_all contig_inv cps \<and> map contig_content cps = map contig_content mbs \<and>
           m_chain c' = m_chain c @ cps \<and> m_asio_chain c' = m_asio_chain c @ map mb_as_const_buffer cps \<and>
           bc_size c' = bc_size c + length (concat (map contig_content mbs))"
  using assms
proof (induction mbs arbitrary: c)
  case Nil
  then show ?case by (simp add: chain_push_copies_def)
next
  case (Cons mb mbs)
  then obtain cp where cp: "makeSPtr_contig (m_buf_factory c) mb = Inr cp" "contig_inv cp"
      "contig_content cp = contig_content mb"
    using makeSPtr_contig_ok [of mb "m_buf_factory c"] by auto
  let ?c = "chain_push_back cp c"
  have f: "m_buf_factory ?c = m_buf_factory c" by (simp add: chain_push_back_def)
  obtain c' cps where ih: "chain_push_copies mbs ?c = Inr c'" "m_buf_factory c' = m_buf_factory c"
      "list_all contig_inv cps" "map contig_content cps = map contig_content mbs"
      "m_chain c' = m_chain ?c @ cps" "m_asio_chain c' = m_asio_chain ?c @ map mb_as_const_buffer cps"
      "bc_size c' = bc_size ?c + length (concat (map contig_content mbs))"
    using Cons.IH [of ?c] Cons.prems f by auto
  have "chain_push_copies (mb # mbs) c = Inr c'"
    using cp ih(1) by (simp add: chain_push_copies_def)
  moreover have "contig_size cp = length (contig_content mb)"
    using cp length_contig_content [of cp] by (simp add: contig_size_def)
  ultimately show ?case
    using ih cp by (intro exI [of _ c'] exI [of _ "cp # cps"]) (simp add: chain_push_back_def)
qed

section \<open>Properties\<close>

definition fits_factory :: "buffer_chain \<Rightarrow> bool" where
  "fits_factory c \<longleftrightarrow> list_all (\<lambda>mb. m_capacity mb \<le> max_size (m_buf_factory c)) (m_chain c)"

text \<open>
  C31. Collecting a body: appending any sequence of pieces, each leaving room for the 100 bytes of slack
  below the allocator's maximum, succeeds; the chain then holds the pieces in order, its recorded size
  is their total length, and the gather-write sequence handed to \<open>asio\<close> spells the same bytes.
\<close>

theorem chain_collects_body:
  assumes "chain_inv c" "list_all (chain_accepts c) ds"
  shows "\<exists>c'. rfold chain_append ds c = Inr c' \<and> chain_inv c' \<and>
              chain_to_string c' = Some (chain_content c @ concat ds) \<and>
              buffersequence_to_string (asio_buffer_sequence c') = Some (chain_content c @ concat ds) \<and>
              chain_size c' = chain_size c + length (concat ds)"
proof -
  obtain c' where c': "rfold chain_append ds c = Inr c'" "chain_inv c'"
      "chain_content c' = chain_content c @ concat ds"
    using chain.append_each [OF assms] by blast
  moreover have "chain_size c' = chain_size c + length (concat ds)"
    using c' assms by (simp add: chain_inv_def chain_size_def)
  ultimately show ?thesis by (simp add: buffer_simps)
qed

definition sample_chain :: buffer_chain where
  "sample_chain = chain_new getTestFactory"

lemma sample_chain_inv: "chain_inv sample_chain"
  by (simp add: sample_chain_def)

theorem chain_collects_body_witness:
  "chain_inv sample_chain \<and> list_all (chain_accepts sample_chain) [''ab'', ''c''] \<and>
   (\<exists>c'. rfold chain_append [''ab'', ''c''] sample_chain = Inr c' \<and>
         buffersequence_to_string (asio_buffer_sequence c') = Some ''abc'' \<and> chain_size c' = Suc (Suc 1))"
proof -
  have a: "list_all (chain_accepts sample_chain) [''ab'', ''c'']"
    by (simp add: chain_accepts_def sample_chain_def chain_new_def)
  have c: "chain_content sample_chain = []" "chain_size sample_chain = 0"
    by (simp_all add: sample_chain_def chain_size_def chain_new_def chain_content_def)
  show ?thesis using chain_collects_body [OF sample_chain_inv a] a sample_chain_inv c by auto
qed

lemma rfold_contig_blocks:
  assumes "list_all contig_inv mbs"
  shows "rfold (\<lambda>mb. contig_append (take (contig_size mb) (contig_data mb))) mbs b =
         rfold contig_append_string (map contig_content mbs) b"
  using assms
  by (rule rfold_map) (simp add: contig_append_string_def contig_size_def contig_data_def buffer_simps)

lemma chain_amalgamate_ok:
  assumes "chain_inv c" "chain_size c \<le> max_size (m_buf_factory c)"
  shows "\<exists>b. chain_amalgamate c = Inr b \<and> contig_inv b \<and> contig_content b = chain_content c"
proof -
  obtain b where b: "makeSPtr_cap (m_buf_factory c) (chain_size c) = Inr b" "contig_inv b"
      "contig_content b = []" "m_strategy b = m_buf_factory c"
    using contig_new_cap_ok assms unfolding makeSPtr_cap_def chain_inv_def by blast
  have "contig_accepts b (concat (map contig_content (m_chain c)))"
    using assms b by (simp add: contig_accepts_def chain_inv_def chain_size_def chain_content_def)
  then obtain b' where "rfold contig_append_string (map contig_content (m_chain c)) b = Inr b'"
      "contig_inv b'" "contig_content b' = chain_content c"
    using contig.append_pieces [OF b(2)] b(3) by (auto simp: chain_content_def)
  then show ?thesis
    using b assms rfold_contig_blocks [of "m_chain c" b]
    by (simp add: chain_amalgamate_def chain_inv_def)
qed

lemma chain_amalgamate_too_big:
  "max_size (m_buf_factory c) < chain_size c \<Longrightarrow> chain_amalgamate c = Inl Alloc_Too_Big"
  by (simp add: chain_amalgamate_def makeSPtr_cap_def contig_new_cap_too_big)

text \<open>
  \<open>amalgamate\<close> flattens a well-formed chain into one buffer with the same bytes exactly when the
  chain is no longer than the allocator's maximum; a longer body, however it was collected, makes it
  throw.
\<close>

theorem chain_amalgamate_correct:
  assumes "chain_inv c"
  shows "if chain_size c \<le> max_size (m_buf_factory c)
         then \<exists>b. chain_amalgamate c = Inr b \<and> contig_inv b \<and> contig_toString b = chain_to_string c
         else chain_amalgamate c = Inl Alloc_Too_Big"
  using chain_amalgamate_ok [OF assms] chain_amalgamate_too_big assms by (auto simp: buffer_simps)

theorem chain_amalgamate_correct_witness:
  "chain_inv sample_chain \<and> (\<exists>b. chain_amalgamate sample_chain = Inr b \<and> contig_inv b \<and>
     contig_toString b = chain_to_string sample_chain)"
proof -
  have "chain_size sample_chain \<le> max_size (m_buf_factory sample_chain)"
    by (simp add: sample_chain_def chain_size_def chain_new_def)
  then show ?thesis using chain_amalgamate_correct [OF sample_chain_inv] sample_chain_inv by simp
qed

lemma chain_copy_ok:
  assumes "chain_inv c" "fits_factory c"
  shows "\<exists>c'. chain_copy c = Inr c' \<and> chain_inv c' \<and> chain_content c' = chain_content c"
proof -
  let ?n = "chain_new (m_buf_factory c)"
  have s: "strategy_ok (m_buf_factory ?n)" "m_buf_factory ?n = m_buf_factory c"
    using assms by (simp_all add: chain_new_def chain_inv_def)
  obtain c' cps where c': "chain_copy c = Inr c'" "m_buf_factory c' = m_buf_factory c"
      "list_all contig_inv cps" "map contig_content cps = map contig_content (m_chain c)"
      "m_chain c' = cps" "m_asio_chain c' = map mb_as_const_buffer cps"
      "bc_size c' = length (chain_content c)"
    using chain_push_copies_ok [of "m_chain c" ?n] assms s
    by (auto simp: chain_copy_def chain_inv_def fits_factory_def chain_content_def chain_new_def)
  then have cc: "chain_content c' = chain_content c" by (simp add: chain_content_def)
  have "chain_inv c'" using c' cc assms by (simp add: chain_inv_def)
  then show ?thesis using c' cc by blast
qed

text \<open>
  The copy constructor of a chain makes a well-formed deep copy: same bytes, same size, and a
  gather-write sequence of its own that spells the same bytes.
\<close>

theorem chain_copy_correct:
  assumes "chain_inv c" "fits_factory c"
  shows "\<exists>c'. chain_copy c = Inr c' \<and> chain_inv c' \<and> chain_to_string c' = chain_to_string c \<and>
              chain_size c' = chain_size c \<and>
              buffersequence_to_string (asio_buffer_sequence c') = chain_to_string c"
  using chain_copy_ok [OF assms] assms by (auto simp: buffer_simps chain_size_def chain_inv_def)

theorem chain_copy_correct_witness:
  "chain_inv sample_chain \<and> fits_factory sample_chain \<and>
   (\<exists>c'. chain_copy sample_chain = Inr c' \<and> chain_inv c' \<and> chain_to_string c' = Some [])"
proof -
  have f: "fits_factory sample_chain" by (simp add: fits_factory_def sample_chain_def chain_new_def)
  have "chain_to_string sample_chain = Some []"
    using sample_chain_inv by (simp add: chain_to_string_content sample_chain_def)
  then show ?thesis using chain_copy_correct [OF sample_chain_inv f] sample_chain_inv f by auto
qed

text \<open>
  Copy assignment does not replace: the target keeps its old blocks and the copied ones are added
  behind them, while the recorded size counts only the new ones.
\<close>

theorem chain_assign_accumulates:
  assumes "chain_inv this" "chain_inv other"
    and "list_all (\<lambda>mb. m_capacity mb \<le> max_size (m_buf_factory this)) (m_chain other)"
  shows "\<exists>c'. chain_assign this other = Inr c' \<and>
              chain_to_string c' = Some (chain_content this @ chain_content other) \<and>
              chain_size c' = chain_size other"
proof -
  let ?t = "this\<lparr>bc_size := 0\<rparr>"
  have p: "list_all contig_inv (m_chain other)" "strategy_ok (m_buf_factory ?t)"
      "list_all (\<lambda>mb. m_capacity mb \<le> max_size (m_buf_factory ?t)) (m_chain other)"
    using assms by (simp_all add: chain_inv_def)
  obtain c' cps where c': "chain_assign this other = Inr c'" "list_all contig_inv cps"
      "map contig_content cps = map contig_content (m_chain other)"
      "m_chain c' = m_chain this @ cps" "bc_size c' = length (chain_content other)"
    using chain_push_copies_ok [OF p] by (auto simp: chain_assign_def chain_content_def)
  have all: "list_all contig_inv (m_chain c')" using c' assms by (simp add: chain_inv_def)
  have "chain_to_string c' = Some (concat (map contig_content (m_chain c')))"
    unfolding chain_to_string_def using all by (rule cat_options_cong) (simp add: buffer_simps)
  then show ?thesis using c' assms by (simp add: chain_content_def chain_size_def chain_inv_def)
qed

theorem chain_assign_accumulates_witness:
  "chain_inv sample_chain \<and>
   (\<exists>c'. chain_assign sample_chain sample_chain = Inr c' \<and> chain_to_string c' = Some [] \<and>
         chain_size c' = chain_size sample_chain)"
proof -
  have "list_all (\<lambda>mb. m_capacity mb \<le> max_size (m_buf_factory sample_chain)) (m_chain sample_chain)"
    by (simp add: sample_chain_def chain_new_def)
  from chain_assign_accumulates [OF sample_chain_inv sample_chain_inv this]
  show ?thesis using sample_chain_inv by (simp add: sample_chain_def)
qed

text \<open>
  Move assignment swaps blocks and sizes but not the gather-write sequences: afterwards the target
  reports the bytes it was given, and writing it to a socket sends the bytes it had before.
\<close>

theorem chain_move_assign_writes_old:
  assumes "chain_inv this" "chain_inv other"
  shows "chain_to_string (fst (chain_move_assign this other)) = Some (chain_content other) \<and>
         buffersequence_to_string (asio_buffer_sequence (fst (chain_move_assign this other))) =
           Some (chain_content this)"
  using assms chain_to_string_content [OF assms(2)] asio_sequence_content [OF assms(1)]
  by (simp add: chain_move_assign_def chain_to_string_def asio_buffer_sequence_def)

theorem chain_move_assign_writes_old_witness:
  "\<exists>c. rfold chain_append [''new''] sample_chain = Inr c \<and>
       chain_to_string (fst (chain_move_assign sample_chain c)) = Some ''new'' \<and>
       buffersequence_to_string (asio_buffer_sequence (fst (chain_move_assign sample_chain c))) = Some []"
proof -
  have a: "list_all (chain_accepts sample_chain) [''new'']"
    by (simp add: chain_accepts_def sample_chain_def chain_new_def)
  obtain c where "rfold chain_append [''new''] sample_chain = Inr c" "chain_inv c"
      "chain_content c = ''new''"
    using chain.append_each [OF sample_chain_inv a] by (auto simp: sample_chain_def)
  then show ?thesis
    using chain_move_assign_writes_old [OF sample_chain_inv, of c] by (auto simp: sample_chain_def)
qed

lemma makeBufferChainSPtr_inv [simp]: "chain_inv makeBufferChainSPtr"
  and makeBufferChainSPtr_content [simp]: "chain_content makeBufferChainSPtr = []"
  by (simp_all add: makeBufferChainSPtr_def)

lemma makeBufferChainSPtr_string_ok:
  assumes "length s \<le> 1048576"
  shows "\<exists>c. makeBufferChainSPtr_string s = Inr c \<and> chain_inv c \<and> chain_content c = s"
proof -
  obtain b where "makeSPtr_string getTestFactory s = Inr b" "contig_inv b" "contig_content b = s"
    using makeSPtr_string_ok [of getTestFactory s] assms by auto
  then show ?thesis
    using chain_push_back_inv [of "chain_new getTestFactory" b]
    by (auto simp: makeBufferChainSPtr_string_def)
qed

lemma makeBufferChainSPtr_string_too_big:
  "length s > 1048576 \<Longrightarrow> makeBufferChainSPtr_string s = Inl Alloc_Too_Big"
  by (simp add: makeBufferChainSPtr_string_def makeSPtr_string_too_big)

end
