(* ===== verification/Std_Regex.thy ===== *)
theory Std_Regex
  imports Marvin_Prelude
begin

text \<open>
  The part of \<open>std::regex\<close> (ECMAScript grammar, no multiline flag) that the sources use: character
  classes, anchors, concatenation, alternation and repetition, with \<open>std::regex_search\<close> and
  \<open>std::regex_match\<close>. \<open>matches\<close> is the declarative reading of a pattern between two positions of a
  subject string, \<open>ends\<close> the executable one; \<open>ends_correct\<close> shows that they agree, so that every
  question about a pattern can be settled on the declarative side and every witness evaluated.
\<close>

datatype regex =
    Cls "char \<Rightarrow> bool"
  | Bol
  | Eol
  | Cat regex regex
  | Or regex regex
  | Rep regex

inductive matches :: "string \<Rightarrow> regex \<Rightarrow> nat \<Rightarrow> nat \<Rightarrow> bool" for s where
  m_cls: "i < length s \<Longrightarrow> p (s ! i) \<Longrightarrow> matches s (Cls p) i (Suc i)"
| m_bol: "matches s Bol 0 0"
| m_eol: "matches s Eol (length s) (length s)"
| m_cat: "matches s r1 i j \<Longrightarrow> matches s r2 j k \<Longrightarrow> matches s (Cat r1 r2) i k"
| m_or1: "matches s r1 i j \<Longrightarrow> matches s (Or r1 r2) i j"
| m_or2: "matches s r2 i j \<Longrightarrow> matches s (Or r1 r2) i j"
| m_rep0: "i \<le> length s \<Longrightarrow> matches s (Rep r) i i"
| m_rep1: "matches s r i j \<Longrightarrow> matches s (Rep r) j k \<Longrightarrow> matches s (Rep r) i k"

fun rep_ends :: "(nat \<Rightarrow> nat list) \<Rightarrow> nat \<Rightarrow> nat \<Rightarrow> nat list" where
  "rep_ends f 0 i = [i]"
| "rep_ends f (Suc fuel) i = i # concat (map (rep_ends f fuel) (filter (\<lambda>j. i < j) (f i)))"

fun ends :: "regex \<Rightarrow> string \<Rightarrow> nat \<Rightarrow> nat list" where
  "ends (Cls p) s i = (if i < length s \<and> p (s ! i) then [Suc i] else [])"
| "ends Bol s i = (if i = 0 then [0] else [])"
| "ends Eol s i = (if i = length s then [i] else [])"
| "ends (Cat r1 r2) s i = concat (map (ends r2 s) (ends r1 s i))"
| "ends (Or r1 r2) s i = ends r1 s i @ ends r2 s i"
| "ends (Rep r) s i = rep_ends (ends r s) (length s - i) i"

definition regex_search :: "string \<Rightarrow> regex \<Rightarrow> bool" where
  "regex_search s r = list_ex (\<lambda>i. ends r s i \<noteq> []) [0..<Suc (length s)]"

definition regex_match :: "string \<Rightarrow> regex \<Rightarrow> bool" where
  "regex_match s r = (length s \<in> set (ends r s 0))"

inductive_simps matches_Cls [simp]: "matches s (Cls p) i j"
inductive_simps matches_Bol [simp]: "matches s Bol i j"
inductive_simps matches_Eol [simp]: "matches s Eol i j"
inductive_simps matches_Cat [simp]: "matches s (Cat r1 r2) i j"
inductive_simps matches_Or [simp]: "matches s (Or r1 r2) i j"

lemma matches_bounds: "matches s r i j \<Longrightarrow> i \<le> j \<and> j \<le> length s"
  by (induction rule: matches.induct) auto

lemma rep_ends_sound:
  assumes "\<And>i j. i \<le> length s \<Longrightarrow> j \<in> set (f i) \<Longrightarrow> matches s r i j"
  shows "i \<le> length s \<Longrightarrow> k \<in> set (rep_ends f fuel i) \<Longrightarrow> matches s (Rep r) i k"
proof (induction fuel arbitrary: i)
  case 0
  then show ?case by (simp add: m_rep0)
next
  case (Suc fuel)
  from Suc.prems consider "k = i" | j where "j \<in> set (f i)" "k \<in> set (rep_ends f fuel j)"
    by auto
  then show ?case
  proof cases
    case 1
    with Suc.prems show ?thesis by (simp add: m_rep0)
  next
    case 2
    then have m: "matches s r i j" using assms Suc.prems by blast
    then have "matches s (Rep r) j k"
      using Suc.IH 2 matches_bounds by blast
    with m show ?thesis by (rule m_rep1)
  qed
qed

lemma rep_ends_complete:
  assumes "matches s (Rep r) i k"
    and "\<And>i j. matches s r i j \<Longrightarrow> j \<in> set (f i)"
  shows "length s - i \<le> fuel \<Longrightarrow> k \<in> set (rep_ends f fuel i)"
  using assms(1)
proof (induction "Rep r" i k arbitrary: fuel rule: matches.induct)
  case (m_rep0 i)
  then show ?case by (cases fuel) auto
next
  case (m_rep1 i j k)
  show ?case
  proof (cases "i = j")
    case True
    with m_rep1 show ?thesis by simp
  next
    case False
    have b: "i \<le> j" "j \<le> length s" using matches_bounds [OF m_rep1(1)] by auto
    with False m_rep1.prems obtain fuel' where f: "fuel = Suc fuel'" by (cases fuel) auto
    have "k \<in> set (rep_ends f fuel' j)"
      using m_rep1(4) False b m_rep1.prems f by simp
    then show ?thesis using assms(2) [OF m_rep1(1)] False b f by auto
  qed
qed

lemma ends_sound: "i \<le> length s \<Longrightarrow> j \<in> set (ends r s i) \<Longrightarrow> matches s r i j"
proof (induction r arbitrary: i j)
  case (Cat r1 r2)
  then obtain m where "matches s r1 i m" and m: "m \<in> set (ends r1 s i)" "j \<in> set (ends r2 s m)"
    by auto
  then have "m \<le> length s" using matches_bounds by blast
  with Cat m \<open>matches s r1 i m\<close> show ?case by (meson m_cat)
next
  case (Rep r)
  then show ?case using rep_ends_sound [of s "ends r s" r i j] by auto
qed (auto split: if_splits)

lemma ends_complete: "matches s r i j \<Longrightarrow> j \<in> set (ends r s i)"
proof (induction r arbitrary: i j)
  case (Rep r)
  then show ?case using rep_ends_complete [of s r i j "ends r s"] by simp
qed fastforce+

lemma ends_correct: "i \<le> length s \<Longrightarrow> set (ends r s i) = {j. matches s r i j}"
  using ends_sound ends_complete by blast

lemma regex_search_iff: "regex_search s r \<longleftrightarrow> (\<exists>i j. matches s r i j)"
proof
  assume "regex_search s r"
  then obtain i where "i \<le> length s" "ends r s i \<noteq> []"
    by (auto simp: regex_search_def list_ex_iff less_Suc_eq_le simp del: upt_Suc)
  then show "\<exists>i j. matches s r i j" using ends_sound by (meson last_in_set)
next
  assume "\<exists>i j. matches s r i j"
  then obtain i j where m: "matches s r i j" by blast
  then have "ends r s i \<noteq> []" using ends_complete by fastforce
  moreover have "i \<le> length s" using matches_bounds [OF m] by simp
  ultimately show "regex_search s r"
    by (auto simp: regex_search_def list_ex_iff less_Suc_eq_le simp del: upt_Suc)
qed

lemma regex_match_iff: "regex_match s r \<longleftrightarrow> matches s r 0 (length s)"
  using ends_correct [of 0 s r] by (auto simp: regex_match_def)

section \<open>Runs of a character class\<close>

lemma matches_Rep_Cls:
  "matches s (Rep (Cls p)) i j \<longleftrightarrow> i \<le> j \<and> j \<le> length s \<and> (\<forall>k. i \<le> k \<and> k < j \<longrightarrow> p (s ! k))"
  (is "?L \<longleftrightarrow> ?R")
proof
  assume ?L
  then show ?R
  proof (induction "Rep (Cls p)" i j rule: matches.induct)
    case (m_rep1 i j k)
    then have "j = Suc i" "p (s ! i)" by auto
    then show ?case using m_rep1(3) by (metis Suc_leD Suc_leI le_neq_implies_less)
  qed auto
next
  assume ?R
  then show ?L
  proof (induction "j - i" arbitrary: i)
    case 0
    then show ?case by (simp add: m_rep0)
  next
    case (Suc n)
    then have "matches s (Rep (Cls p)) (Suc i) j" by simp
    moreover have "i < j" using Suc by linarith
    then have "matches s (Cls p) i (Suc i)" using Suc by simp
    ultimately show ?case by (meson m_rep1)
  qed
qed

fun lit_re :: "(char \<Rightarrow> char \<Rightarrow> bool) \<Rightarrow> string \<Rightarrow> regex \<Rightarrow> regex" where
  "lit_re eq [] k = k"
| "lit_re eq (c # cs) k = Cat (Cls (eq c)) (lit_re eq cs k)"

lemma matches_lit_re:
  "matches s (lit_re eq cs r) i j \<longleftrightarrow>
     matches s r (i + length cs) j \<and> i + length cs \<le> length s \<and>
     (\<forall>k < length cs. eq (cs ! k) (s ! (i + k)))"
proof (induction cs arbitrary: i)
  case Nil
  then show ?case using matches_bounds [of s r i j] by auto
next
  case (Cons c cs)
  have all: "(\<forall>k < length (c # cs). eq ((c # cs) ! k) (s ! (i + k))) \<longleftrightarrow>
      eq c (s ! i) \<and> (\<forall>k < length cs. eq (cs ! k) (s ! (Suc i + k)))"
    by (auto simp: less_Suc_eq_0_disj)
  have "matches s (lit_re eq (c # cs) r) i j \<longleftrightarrow>
      i < length s \<and> eq c (s ! i) \<and> matches s (lit_re eq cs r) (Suc i) j"
    by auto
  then show ?case unfolding all Cons.IH by auto
qed

text \<open>Literal prefixes of a whole match.\<close>

lemma regex_match_lit_iff:
  "regex_match s (lit_re (=) pre r) \<longleftrightarrow> (\<exists>sub. s = pre @ sub \<and> matches s r (length pre) (length s))"
proof -
  have "(length pre \<le> length s \<and> (\<forall>k<length pre. pre ! k = s ! k)) \<longleftrightarrow> (\<exists>sub. s = pre @ sub)"
  proof
    assume a: "length pre \<le> length s \<and> (\<forall>k<length pre. pre ! k = s ! k)"
    then have "take (length pre) s = pre" by (intro nth_equalityI) auto
    then show "\<exists>sub. s = pre @ sub" by (metis append_take_drop_id)
  qed (auto simp: nth_append)
  then show ?thesis by (auto simp: regex_match_iff matches_lit_re simp del: lit_re.simps)
qed

lemma regex_match_prefix:
  "regex_match s (lit_re (=) pre (Rep (Cls p))) \<longleftrightarrow> (\<exists>sub. s = pre @ sub \<and> list_all p sub)"
proof -
  have "matches (pre @ sub) (Rep (Cls p)) (length pre) (length (pre @ sub)) \<longleftrightarrow> list_all p sub" for sub
  proof
    assume m: "matches (pre @ sub) (Rep (Cls p)) (length pre) (length (pre @ sub))"
    have "p (sub ! k)" if "k < length sub" for k
      using m that by (auto simp: matches_Rep_Cls dest!: spec [of _ "length pre + k"])
    then show "list_all p sub" by (simp add: list_all_length)
  qed (auto simp: matches_Rep_Cls list_all_length nth_append)
  then show ?thesis unfolding regex_match_lit_iff by auto
qed

lemma regex_match_word:
  "regex_match s (lit_re (=) pre (Cls (\<lambda>c. c = d))) \<longleftrightarrow> s = pre @ [d]"
proof -
  have "(\<exists>sub. s = pre @ sub \<and> length sub = 1 \<and> sub ! 0 = d) \<longleftrightarrow> s = pre @ [d]"
    by (auto simp: length_Suc_conv)
  moreover have "matches (pre @ sub) (Cls (\<lambda>c. c = d)) (length pre) (length (pre @ sub)) \<longleftrightarrow>
      length sub = 1 \<and> sub ! 0 = d" for sub
    by (auto simp: nth_append)
  ultimately show ?thesis unfolding regex_match_lit_iff by metis
qed

end
