(* ===== verification/Header_Fields.thy ===== *)
theory Header_Fields
  imports Std_Regex
begin

text \<open>
  \<open>marvin/http/header_fields.cpp\<close> and \<open>header_fields.hpp\<close>: the ordered list of header fields of a
  message, its keyed and indexed access, and the tests on the value of the \<open>Connection\<close> header.
  \<open>boost::to_upper\<close> is taken in the classic locale. \<open>erase_at_index\<close> ends in \<open>erase(end())\<close>, which
  \<^const>\<open>vector_erase\<close> reads the way GNU libstdc++ executes it.
\<close>

record hfield =
  fkey :: string
  fvalue :: string

type_synonym headers = "hfield list"

definition AcceptEncoding :: string where "AcceptEncoding = ''ACCEPT-ENCODING''"
definition Authorization :: string where "Authorization = ''AUTHORIZATION''"
definition Connection_key :: string where "Connection_key = ''CONNECTION''"
definition ConnectionHandlerId :: string where "ConnectionHandlerId = ''CONNECT-HANDLER-ID''"
definition ContentLength :: string where "ContentLength = ''CONTENT-LENGTH''"
definition ContentType :: string where "ContentType = ''CONTENT-TYPE''"
definition Date_key :: string where "Date_key = ''DATE''"
definition Host :: string where "Host = ''HOST''"
definition ProxyAuthorization :: string where "ProxyAuthorization = ''PROXY-AUTHORIZATION''"
definition ProxyAuthentication :: string where "ProxyAuthentication = ''PROXY-AUTHENTICATION''"
definition ProxyConnection :: string where "ProxyConnection = ''PROXY-CONNECTION''"
definition TE_key :: string where "TE_key = ''TE''"
definition TransferEncoding :: string where "TransferEncoding = ''TRANSFER-ENCODING''"
definition ETag :: string where "ETag = ''ETAG''"
definition Upgrade :: string where "Upgrade = ''UPGRADE''"
definition Trailer :: string where "Trailer = ''TRAILER''"
definition RequestHandlerId :: string where "RequestHandlerId = ''REQUEST-HANDLER-ID''"
definition ConnectionClose :: string where "ConnectionClose = ''CLOSE''"
definition ConnectionKeepAlive :: string where "ConnectionKeepAlive = ''KEEP-ALIVE''"

lemmas header_names =
  AcceptEncoding_def Authorization_def Connection_key_def ConnectionHandlerId_def ContentLength_def
  ContentType_def Date_key_def Host_def ProxyAuthorization_def ProxyAuthentication_def
  ProxyConnection_def TE_key_def TransferEncoding_def ETag_def Upgrade_def Trailer_def
  RequestHandlerId_def

section \<open>The Connection header\<close>

text \<open>
  The pattern \<open>(\s*)(,|;|\s|^)(\s*)token(\s*)(,|;|\s|$)\<close> with the \<open>icase\<close> flag, for the tokens
  \<open>keep-alive\<close> and \<open>close\<close>.
\<close>

definition sp_re :: regex where
  "sp_re = Cls is_space"

definition icase_eq :: "char \<Rightarrow> char \<Rightarrow> bool" where
  "icase_eq a b = (to_upper_char a = to_upper_char b)"

definition connection_re :: "string \<Rightarrow> regex" where
  "connection_re token =
     Cat (Rep sp_re)
      (Cat (Or (Cls (\<lambda>c. c = CHR '','')) (Or (Cls (\<lambda>c. c = CHR '';'')) (Or sp_re Bol)))
        (Cat (Rep sp_re)
          (lit_re icase_eq token
            (Cat (Rep sp_re)
              (Or (Cls (\<lambda>c. c = CHR '','')) (Or (Cls (\<lambda>c. c = CHR '';'')) (Or sp_re Eol)))))))"

definition is_connection_keep_alive_str :: "string \<Rightarrow> bool" where
  "is_connection_keep_alive_str v = regex_search v (connection_re ''keep-alive'')"

definition is_connection_close_str :: "string \<Rightarrow> bool" where
  "is_connection_close_str v = regex_search v (connection_re ''close'')"

section \<open>Fields\<close>

fun find_loop :: "string \<Rightarrow> headers \<Rightarrow> nat \<Rightarrow> nat option" where
  "find_loop k [] index = None"
| "find_loop k (f # fs) index = (if fkey f = k then Some index else find_loop k fs (Suc index))"

definition find_at_index :: "string \<Rightarrow> headers \<Rightarrow> nat option" where
  "find_at_index key hs = find_loop (to_upper key) hs 0"

text \<open>\<open>find\<close> returns an iterator, an index into the vector; \<open>end()\<close> is its length.\<close>

definition find_field :: "string \<Rightarrow> headers \<Rightarrow> nat" where
  "find_field key hs = (case find_loop (to_upper key) hs 0 of Some i \<Rightarrow> i | None \<Rightarrow> length hs)"

definition at_index :: "nat \<Rightarrow> headers \<Rightarrow> hfield result" where
  "at_index index hs = (if index \<ge> length hs then Inl Index_Out_Of_Range else Inr (hs ! index))"

definition at_key :: "string \<Rightarrow> headers \<Rightarrow> string option" where
  "at_key k hs =
     (case find_at_index k hs of Some index \<Rightarrow> Some (fvalue (hs ! index)) | None \<Rightarrow> None)"

text \<open>The overload on string pointers: it steals the strings and always appends.\<close>

definition set_at_key_ptr :: "string \<Rightarrow> string \<Rightarrow> headers \<Rightarrow> headers" where
  "set_at_key_ptr k v hs = hs @ [\<lparr>fkey = to_upper k, fvalue = v\<rparr>]"

definition set_at_key :: "string \<Rightarrow> string \<Rightarrow> headers \<Rightarrow> headers" where
  "set_at_key k v hs =
     (case find_at_index k hs of
        Some index \<Rightarrow> hs[index := (hs ! index)\<lparr>fvalue := v\<rparr>]
      | None \<Rightarrow> hs @ [\<lparr>fkey = to_upper k, fvalue = v\<rparr>])"

function shift_down :: "nat \<Rightarrow> 'a list \<Rightarrow> 'a list" where
  "shift_down idx xs =
     (if idx < length xs - 1 then shift_down (Suc idx) (xs[idx := xs ! Suc idx]) else xs)"
  by pat_completeness auto
termination
  by (relation "measure (\<lambda>(idx, xs). length xs - idx)") auto

declare shift_down.simps [simp del]

definition erase_at_index :: "nat \<Rightarrow> headers \<Rightarrow> headers" where
  "erase_at_index position hs =
     (if position < length hs then
        (let hs' = shift_down position hs in vector_erase (length hs') hs')
      else hs)"

definition remove_at_key :: "string \<Rightarrow> headers \<Rightarrow> headers" where
  "remove_at_key k hs =
     (case find_at_index k hs of Some index \<Rightarrow> erase_at_index index hs | None \<Rightarrow> hs)"

definition headers_init :: "(string \<times> string) list \<Rightarrow> headers" where
  "headers_init kvs = fold (\<lambda>(k, v). set_at_key (to_upper k) v) kvs []"

definition headers_assign :: "headers \<Rightarrow> headers \<Rightarrow> headers" where
  "headers_assign this other = other"

definition headers_move_assign :: "headers \<Rightarrow> headers \<Rightarrow> headers \<times> headers" where
  "headers_move_assign this other = (other, [])"

definition copy_except :: "headers \<Rightarrow> headers \<Rightarrow> string list \<Rightarrow> headers" where
  "copy_except source dest filterList =
     fold (\<lambda>f d. if fkey f \<notin> set filterList then set_at_key (fkey f) (fvalue f) d else d) source dest"

definition headers_str :: "headers \<Rightarrow> string" where
  "headers_str hs = concat (map (\<lambda>p. '' '' @ fkey p @ '': '' @ fvalue p) hs)"

definition same_values :: "headers \<Rightarrow> headers \<Rightarrow> bool" where
  "same_values this other =
     (if length this \<noteq> length other then False
      else list_all (\<lambda>f. at_key (fkey f) other \<noteq> None) this)"

definition same_order_and_values :: "headers \<Rightarrow> headers \<Rightarrow> bool" where
  "same_order_and_values this other =
     (if length this \<noteq> length other then False
      else list_all (\<lambda>(t, other_element). \<not> (fkey other_element \<noteq> fkey t \<or> fvalue other_element \<noteq> fvalue t))
             (zip this other))"

definition is_connection_keep_alive_hdrs :: "headers \<Rightarrow> bool" where
  "is_connection_keep_alive_hdrs h =
     (case at_key Connection_key h of Some s \<Rightarrow> is_connection_keep_alive_str s | None \<Rightarrow> False)"

definition is_connection_close_hdrs :: "headers \<Rightarrow> bool" where
  "is_connection_close_hdrs h =
     (case at_key Connection_key h of Some s \<Rightarrow> is_connection_close_str s | None \<Rightarrow> False)"

section \<open>Invariant\<close>

text \<open>Every stored key is upper case. Keys are distinct only where no \<open>set_at_key_ptr\<close> was used.\<close>

definition keys_upper :: "headers \<Rightarrow> bool" where
  "keys_upper hs \<longleftrightarrow> list_all (\<lambda>f. to_upper (fkey f) = fkey f) hs"

definition headers_inv :: "headers \<Rightarrow> bool" where
  "headers_inv hs \<longleftrightarrow> keys_upper hs \<and> distinct (map fkey hs)"

lemma find_loop_Some:
  "find_loop k hs n = Some i \<Longrightarrow>
     n \<le> i \<and> i - n < length hs \<and> fkey (hs ! (i - n)) = k \<and> (\<forall>j < i - n. fkey (hs ! j) \<noteq> k)"
proof (induction k hs n rule: find_loop.induct)
  case (2 k f fs index)
  show ?case
  proof (cases "fkey f = k")
    case True
    then show ?thesis using "2.prems" by auto
  next
    case False
    then have ih: "Suc index \<le> i" "i - Suc index < length fs" "fkey (fs ! (i - Suc index)) = k"
        "\<forall>j < i - Suc index. fkey (fs ! j) \<noteq> k"
      using "2" by auto
    then have e: "i - index = Suc (i - Suc index)" by linarith
    show ?thesis using ih False by (auto simp: e less_Suc_eq_0_disj)
  qed
qed simp

lemma find_loop_None: "find_loop k hs n = None \<longleftrightarrow> k \<notin> fkey ` set hs"
  by (induction k hs n rule: find_loop.induct) auto

lemma find_loop_shift: "find_loop k hs (Suc n) = map_option Suc (find_loop k hs n)"
  by (induction k hs n rule: find_loop.induct) auto

lemma at_key_Nil [simp]: "at_key k [] = None"
  by (simp add: at_key_def find_at_index_def)

lemma at_key_Cons [header_simps]:
  "at_key k (f # hs) = (if fkey f = to_upper k then Some (fvalue f) else at_key k hs)"
  by (auto simp: at_key_def find_at_index_def find_loop_shift split: option.splits)

lemma at_key_append [header_simps]:
  "at_key k (hs @ hs') = (case at_key k hs of Some v \<Rightarrow> Some v | None \<Rightarrow> at_key k hs')"
  by (induction hs) (auto simp: header_simps)

lemma at_key_None_iff: "at_key k hs = None \<longleftrightarrow> to_upper k \<notin> fkey ` set hs"
  by (induction hs) (auto simp: header_simps)

lemma at_key_upper [simp]: "at_key (to_upper k) hs = at_key k hs"
  by (simp add: at_key_def find_at_index_def)

lemma set_at_key_Nil [simp]: "set_at_key k v [] = [\<lparr>fkey = to_upper k, fvalue = v\<rparr>]"
  by (simp add: set_at_key_def find_at_index_def)

lemma set_at_key_Cons:
  "set_at_key k v (f # hs) = (if fkey f = to_upper k then f\<lparr>fvalue := v\<rparr> # hs else f # set_at_key k v hs)"
  by (auto simp: set_at_key_def find_at_index_def find_loop_shift split: option.splits)

lemma at_key_set_at_key [header_simps]:
  "at_key k' (set_at_key k v hs) = (if to_upper k' = to_upper k then Some v else at_key k' hs)"
  by (induction hs) (auto simp: header_simps set_at_key_Cons)

lemma map_fkey_set_at_key:
  "map fkey (set_at_key k v hs) =
     (if to_upper k \<in> fkey ` set hs then map fkey hs else map fkey hs @ [to_upper k])"
  by (induction hs) (auto simp: set_at_key_Cons)

lemma shift_down_eq: "Suc idx \<le> length xs \<Longrightarrow> shift_down idx xs = take idx xs @ drop (Suc idx) xs @ [last xs]"
proof (induction idx xs rule: shift_down.induct)
  case (1 idx xs)
  show ?case
  proof (cases "idx < length xs - 1")
    case True
    let ?ys = "xs[idx := xs ! Suc idx]"
    have "shift_down idx xs = take (Suc idx) ?ys @ drop (Suc (Suc idx)) ?ys @ [last ?ys]"
      using "1.IH" True by (simp add: shift_down.simps [of idx xs])
    moreover have "last ?ys = last xs"
      using True by (cases xs rule: rev_cases) (auto simp: last_conv_nth nth_list_update)
    moreover have "take (Suc idx) ?ys = take idx xs @ [xs ! Suc idx]"
      using True by (simp add: take_Suc_conv_app_nth)
    moreover have "drop (Suc idx) xs = xs ! Suc idx # drop (Suc (Suc idx)) xs"
      using True by (intro Cons_nth_drop_Suc [symmetric]) auto
    ultimately show ?thesis by simp
  next
    case False
    then have "Suc idx = length xs" using "1.prems" by simp
    then show ?thesis using False
      by (cases xs rule: rev_cases) (simp_all add: shift_down.simps)
  qed
qed

lemma erase_at_index_eq:
  "position < length hs \<Longrightarrow> erase_at_index position hs = take position hs @ drop (Suc position) hs"
  by (simp add: erase_at_index_def shift_down_eq vector_erase_def Let_def flip: append_assoc)

lemma remove_at_key_Nil [simp]: "remove_at_key k [] = []"
  by (simp add: remove_at_key_def find_at_index_def)

lemma remove_at_key_Cons:
  "remove_at_key k (f # hs) = (if fkey f = to_upper k then hs else f # remove_at_key k hs)"
proof (cases "fkey f = to_upper k")
  case False
  show ?thesis
  proof (cases "find_loop (to_upper k) hs 0")
    case (Some i)
    then have "i < length hs" using find_loop_Some by fastforce
    then show ?thesis using False Some
      by (simp add: remove_at_key_def find_at_index_def find_loop_shift erase_at_index_eq)
  qed (use False in \<open>simp add: remove_at_key_def find_at_index_def find_loop_shift\<close>)
qed (simp add: remove_at_key_def find_at_index_def erase_at_index_eq)

lemma remove_at_key_distinct:
  "distinct (map fkey hs) \<Longrightarrow> remove_at_key k hs = filter (\<lambda>f. fkey f \<noteq> to_upper k) hs"
proof (induction hs)
  case (Cons f hs)
  show ?case
  proof (cases "fkey f = to_upper k")
    case True
    then have "filter (\<lambda>f. fkey f \<noteq> to_upper k) hs = hs"
      using Cons.prems by (simp add: filter_id_conv) (metis image_eqI)
    then show ?thesis using True by (simp add: remove_at_key_Cons)
  qed (use Cons in \<open>simp add: remove_at_key_Cons\<close>)
qed simp

lemma at_key_filter:
  "at_key k' (filter (\<lambda>f. fkey f \<noteq> to_upper k) hs) = (if to_upper k' = to_upper k then None else at_key k' hs)"
  by (induction hs) (auto simp: header_simps)

lemma at_key_remove_at_key [header_simps]:
  "headers_inv hs \<Longrightarrow>
     at_key k' (remove_at_key k hs) = (if to_upper k' = to_upper k then None else at_key k' hs)"
  by (simp add: remove_at_key_distinct headers_inv_def at_key_filter)

lemma set_fkey_set_at_key: "fkey ` set (set_at_key k v hs) = insert (to_upper k) (fkey ` set hs)"
  by (metis insert_absorb list.set_map map_fkey_set_at_key set_append list.set(1) list.set(2)
      Un_insert_right sup_bot_right)

lemma keys_upper_iff: "keys_upper hs \<longleftrightarrow> (\<forall>k \<in> fkey ` set hs. to_upper k = k)"
  by (auto simp: keys_upper_def list_all_iff)

lemma keys_upper_set_at_key: "keys_upper hs \<Longrightarrow> keys_upper (set_at_key k v hs)"
  unfolding keys_upper_iff set_fkey_set_at_key by auto

lemma headers_inv_Nil [simp]: "headers_inv []"
  by (simp add: headers_inv_def keys_upper_def)

lemma headers_inv_set_at_key [intro, simp]: "headers_inv hs \<Longrightarrow> headers_inv (set_at_key k v hs)"
  by (auto simp: headers_inv_def keys_upper_iff set_fkey_set_at_key map_fkey_set_at_key)

lemma headers_inv_remove_at_key [intro, simp]: "headers_inv hs \<Longrightarrow> headers_inv (remove_at_key k hs)"
  by (auto simp: headers_inv_def keys_upper_def list_all_iff remove_at_key_distinct distinct_map_filter)

section \<open>Keyed stores\<close>

text \<open>
  What the message layer and the proxy transformations rely on: a store from keys, compared through a
  canonical form, to values. The client facts are about setting a sequence of pairs and removing a
  sequence of keys.
\<close>

locale keyed_store =
  fixes set_key :: "'k \<Rightarrow> 'v \<Rightarrow> 's \<Rightarrow> 's"
    and remove_key :: "'k \<Rightarrow> 's \<Rightarrow> 's"
    and lookup :: "'k \<Rightarrow> 's \<Rightarrow> 'v option"
    and inv :: "'s \<Rightarrow> bool"
    and canon :: "'k \<Rightarrow> 'c"
  assumes inv_set: "inv s \<Longrightarrow> inv (set_key k v s)"
    and inv_remove: "inv s \<Longrightarrow> inv (remove_key k s)"
    and lookup_set: "inv s \<Longrightarrow> lookup k' (set_key k v s) = (if canon k' = canon k then Some v else lookup k' s)"
    and lookup_remove: "inv s \<Longrightarrow> lookup k' (remove_key k s) = (if canon k' = canon k then None else lookup k' s)"
begin

lemma inv_set_all: "inv s \<Longrightarrow> inv (fold (\<lambda>(k, v). set_key k v) kvs s)"
  by (induction kvs arbitrary: s) (auto intro: inv_set)

lemma lookup_set_all:
  "inv s \<Longrightarrow> lookup k (fold (\<lambda>(k, v). set_key k v) kvs s) =
     (case map_of (rev (map (\<lambda>(k, v). (canon k, v)) kvs)) (canon k) of
        Some v \<Rightarrow> Some v | None \<Rightarrow> lookup k s)"
proof (induction kvs arbitrary: s)
  case (Cons kv kvs)
  obtain k1 v1 where kv: "kv = (k1, v1)" by (cases kv)
  have "inv (set_key k1 v1 s)" using Cons.prems by (rule inv_set)
  then show ?case using Cons kv by (auto simp: lookup_set map_add_def split: option.splits)
qed simp

lemma inv_remove_all: "inv s \<Longrightarrow> inv (fold remove_key ks s)"
  by (induction ks arbitrary: s) (auto intro: inv_remove)

lemma lookup_remove_all:
  "inv s \<Longrightarrow> lookup k (fold remove_key ks s) = (if canon k \<in> canon ` set ks then None else lookup k s)"
proof (induction ks arbitrary: s)
  case (Cons k1 ks)
  have "inv (remove_key k1 s)" using Cons.prems by (rule inv_remove)
  then show ?case using Cons by (auto simp: lookup_remove)
qed simp

end

interpretation hdrs: keyed_store set_at_key remove_at_key at_key headers_inv to_upper
  by unfold_locales (simp_all add: header_simps)

lemma copy_except_fold:
  "copy_except source dest filterList =
     fold (\<lambda>(k, v). set_at_key k v)
       (map (\<lambda>f. (fkey f, fvalue f)) (filter (\<lambda>f. fkey f \<notin> set filterList) source)) dest"
  by (induction source arbitrary: dest) (auto simp: copy_except_def)

lemma headers_inv_copy_except [intro, simp]:
  "headers_inv dest \<Longrightarrow> headers_inv (copy_except source dest filterList)"
  by (simp add: copy_except_fold hdrs.inv_set_all)

lemma map_of_rev_filtered:
  assumes "keys_upper source"
  shows "map_of (rev (map (\<lambda>(k, v). (to_upper k, v))
           (map (\<lambda>f. (fkey f, fvalue f)) (filter (\<lambda>f. fkey f \<notin> set fl) source)))) k =
         (if k \<in> set fl then None else map_option fvalue (find (\<lambda>f. fkey f = k) (rev source)))"
  using assms
proof (induction source rule: rev_induct)
  case (snoc f source)
  then have "to_upper (fkey f) = fkey f" by (simp add: keys_upper_def)
  with snoc show ?case by (auto simp: keys_upper_def)
qed simp

section \<open>Properties\<close>

text \<open>
  \<open>copy_except\<close> into a well-formed header set keeps it well formed (upper-case, pairwise distinct
  keys). A key of the filter list keeps the value the destination had; any other key has the value of
  its last occurrence in the source, or the destination's value when the source lacks it.
\<close>

theorem copy_except_lookup:
  assumes "headers_inv dest" "keys_upper source"
  shows "headers_inv (copy_except source dest fl) \<and>
         at_key k (copy_except source dest fl) =
           (if to_upper k \<in> set fl then at_key k dest
            else case find (\<lambda>f. fkey f = to_upper k) (rev source) of
                   Some f \<Rightarrow> Some (fvalue f) | None \<Rightarrow> at_key k dest)"
  using assms(1)
  unfolding copy_except_fold hdrs.lookup_set_all [OF assms(1)] map_of_rev_filtered [OF assms(2)]
  by (auto intro: hdrs.inv_set_all split: option.splits)

theorem copy_except_lookup_witness:
  "headers_inv (copy_except [\<lparr>fkey = ''A'', fvalue = ''1''\<rparr>, \<lparr>fkey = ''A'', fvalue = ''2''\<rparr>] [] [''B'']) \<and>
   at_key ''a'' (copy_except [\<lparr>fkey = ''A'', fvalue = ''1''\<rparr>, \<lparr>fkey = ''A'', fvalue = ''2''\<rparr>] [] [''B'']) = Some ''2''"
proof -
  let ?src = "[\<lparr>fkey = ''A'', fvalue = ''1''\<rparr>, \<lparr>fkey = ''A'', fvalue = ''2''\<rparr>]"
  have u: "to_upper ''a'' = ''A''" "to_upper ''A'' = ''A''" by code_simp+
  then have "keys_upper ?src" by (simp add: keys_upper_def)
  then show ?thesis using copy_except_lookup [of "[]" ?src "[''B'']" "''a''"] u by simp
qed

text \<open>
  C12. The header set refines a finite map from case-folded names to values: lookups after \<open>set_at_key\<close>
  and after \<open>remove_at_key\<close> are map update and map deletion, whatever the case of the names used.
\<close>

theorem headers_refine_map:
  assumes "headers_inv hs"
  shows "(\<lambda>k'. at_key k' (set_at_key k v hs)) =
           (\<lambda>k'. if to_upper k' = to_upper k then Some v else at_key k' hs) \<and>
         (\<lambda>k'. at_key k' (remove_at_key k hs)) =
           (\<lambda>k'. if to_upper k' = to_upper k then None else at_key k' hs) \<and>
         headers_inv (set_at_key k v hs) \<and> headers_inv (remove_at_key k hs)"
  using assms by (auto simp: header_simps)

theorem headers_refine_map_witness:
  "headers_inv [\<lparr>fkey = ''TE'', fvalue = ''x''\<rparr>] \<and>
   at_key ''te'' (remove_at_key ''Te'' [\<lparr>fkey = ''TE'', fvalue = ''x''\<rparr>]) = None"
proof -
  have u: "to_upper ''te'' = ''TE''" "to_upper ''Te'' = ''TE''" "to_upper ''TE'' = ''TE''" by code_simp+
  then have i: "headers_inv [\<lparr>fkey = ''TE'', fvalue = ''x''\<rparr>]" by (simp add: headers_inv_def keys_upper_def)
  then show ?thesis using headers_refine_map [OF i, of "''Te''" "[]"] u by (auto dest: fun_cong [where x = "''te''"])
qed

text \<open>
  \<open>same_values\<close> compares no values: two header sets of equal length over the same keys are declared
  equal whatever their values are.
\<close>

theorem same_values_ignores_values:
  assumes "keys_upper this" "map fkey this = map fkey other"
  shows "same_values this other"
proof -
  have "length this = length other" using assms(2) by (metis length_map)
  moreover have "at_key (fkey f) other \<noteq> None" if "f \<in> set this" for f
  proof -
    have "to_upper (fkey f) = fkey f" using assms(1) that by (auto simp: keys_upper_def list_all_iff)
    moreover have "fkey f \<in> fkey ` set other" using assms(2) that by (metis image_eqI list.set_map)
    ultimately show ?thesis by (simp add: at_key_None_iff)
  qed
  ultimately show ?thesis by (simp add: same_values_def list_all_iff)
qed

theorem same_values_ignores_values_witness:
  "same_values [\<lparr>fkey = ''A'', fvalue = ''1''\<rparr>] [\<lparr>fkey = ''A'', fvalue = ''2''\<rparr>]"
proof -
  have "to_upper ''A'' = ''A''" by code_simp
  then show ?thesis
    using same_values_ignores_values [of "[\<lparr>fkey = ''A'', fvalue = ''1''\<rparr>]" "[\<lparr>fkey = ''A'', fvalue = ''2''\<rparr>]"]
    by (simp add: keys_upper_def)
qed

section \<open>The Connection header\<close>

definition is_sep :: "char \<Rightarrow> bool" where
  "is_sep c \<longleftrightarrow> c = CHR '','' \<or> c = CHR '';'' \<or> is_space c"

text \<open>A token stands alone in a value: between separators or the ends of the string, in any case.\<close>

definition has_token :: "string \<Rightarrow> string \<Rightarrow> bool" where
  "has_token token v \<longleftrightarrow>
     (\<exists>i. i + length token \<le> length v \<and> (\<forall>k < length token. icase_eq (token ! k) (v ! (i + k))) \<and>
          (i = 0 \<or> is_sep (v ! (i - 1))) \<and>
          (i + length token = length v \<or> is_sep (v ! (i + length token))))"

lemma connection_re_tail:
  "(\<exists>j. matches v (Cat (Rep sp_re) (Or (Cls (\<lambda>c. c = CHR '','')) (Or (Cls (\<lambda>c. c = CHR '';'')) (Or sp_re Eol)))) e j)
     \<longleftrightarrow> e = length v \<or> e < length v \<and> is_sep (v ! e)"
  (is "?L \<longleftrightarrow> ?R")
proof
  assume ?L
  then obtain m j where r: "matches v (Rep sp_re) e m"
    and t: "matches v (Or (Cls (\<lambda>c. c = CHR '','')) (Or (Cls (\<lambda>c. c = CHR '';'')) (Or sp_re Eol))) m j"
    by (auto simp del: matches_Or)
  from r have b: "e \<le> m" "m \<le> length v" "\<forall>k. e \<le> k \<and> k < m \<longrightarrow> is_space (v ! k)"
    by (auto simp: sp_re_def matches_Rep_Cls)
  show ?R
  proof (cases "e < m")
    case True
    then show ?thesis using b by (auto simp: is_sep_def)
  next
    case False
    then show ?thesis using t b by (auto simp: is_sep_def sp_re_def)
  qed
next
  assume R: ?R
  have r: "matches v (Rep sp_re) e e" using R by (intro m_rep0) auto
  have "\<exists>j. matches v (Or (Cls (\<lambda>c. c = CHR '','')) (Or (Cls (\<lambda>c. c = CHR '';'')) (Or sp_re Eol))) e j"
    using R by (auto simp: is_sep_def sp_re_def)
  then show ?L using r by (meson m_cat)
qed

lemma connection_re_head:
  "(\<exists>i m. matches v (Rep sp_re) i m \<and>
     (\<exists>n. matches v (Or (Cls (\<lambda>c. c = CHR '','')) (Or (Cls (\<lambda>c. c = CHR '';'')) (Or sp_re Bol))) m n \<and>
          matches v (Rep sp_re) n b))
     \<longleftrightarrow> b \<le> length v \<and> (b = 0 \<or> is_sep (v ! (b - 1)))"
  (is "?L \<longleftrightarrow> ?R")
proof
  assume ?L
  then obtain m n where
    t: "matches v (Or (Cls (\<lambda>c. c = CHR '','')) (Or (Cls (\<lambda>c. c = CHR '';'')) (Or sp_re Bol))) m n"
    and r: "n \<le> b" "b \<le> length v" "\<forall>k. n \<le> k \<and> k < b \<longrightarrow> is_space (v ! k)"
    by (auto simp: sp_re_def matches_Rep_Cls)
  show ?R
  proof (cases "n < b")
    case True
    then have "is_space (v ! (b - 1))" using r by simp
    then show ?thesis using r by (simp add: is_sep_def)
  next
    case False
    then show ?thesis using t r by (auto simp: is_sep_def sp_re_def)
  qed
next
  assume R: ?R
  have r: "matches v (Rep sp_re) b b" using R by (intro m_rep0) auto
  show ?L
  proof (cases b)
    case 0
    then show ?thesis using r by auto
  next
    case (Suc c)
    then have "matches v (Or (Cls (\<lambda>c. c = CHR '','')) (Or (Cls (\<lambda>c. c = CHR '';'')) (Or sp_re Bol))) c b"
      using R by (auto simp: is_sep_def sp_re_def)
    moreover have "matches v (Rep sp_re) c c" using R Suc by (intro m_rep0) auto
    ultimately show ?thesis using r by blast
  qed
qed

lemma connection_re_iff: "regex_search v (connection_re token) \<longleftrightarrow> has_token token v"
proof -
  have "regex_search v (connection_re token) \<longleftrightarrow>
    (\<exists>b. (\<exists>i m. matches v (Rep sp_re) i m \<and>
         (\<exists>n. matches v (Or (Cls (\<lambda>c. c = CHR '','')) (Or (Cls (\<lambda>c. c = CHR '';'')) (Or sp_re Bol))) m n \<and>
              matches v (Rep sp_re) n b)) \<and>
        (\<exists>j. matches v (lit_re icase_eq token (Cat (Rep sp_re)
              (Or (Cls (\<lambda>c. c = CHR '','')) (Or (Cls (\<lambda>c. c = CHR '';'')) (Or sp_re Eol))))) b j))"
    unfolding regex_search_iff connection_re_def matches_Cat by blast
  also have "\<dots> \<longleftrightarrow>
    (\<exists>b. (b \<le> length v \<and> (b = 0 \<or> is_sep (v ! (b - 1)))) \<and>
         b + length token \<le> length v \<and> (\<forall>k < length token. icase_eq (token ! k) (v ! (b + k))) \<and>
         (b + length token = length v \<or> b + length token < length v \<and> is_sep (v ! (b + length token))))"
    unfolding connection_re_head matches_lit_re connection_re_tail [symmetric]
    by (intro ex_cong1 conj_cong refl) blast
  also have "\<dots> \<longleftrightarrow> has_token token v"
    unfolding has_token_def by (intro ex_cong1) (auto simp: less_le)
  finally show ?thesis .
qed

text \<open>
  C38. The two \<open>Connection\<close> tests decide exactly what their comments promise: the value contains the
  token \<open>keep-alive\<close> (respectively \<open>close\<close>), in any mixture of cases, delimited on both sides by a comma,
  a semicolon, white space or the end of the value.
\<close>

theorem connection_tests_find_tokens:
  "is_connection_keep_alive_str v = has_token ''keep-alive'' v \<and>
   is_connection_close_str v = has_token ''close'' v"
  by (simp add: is_connection_keep_alive_str_def is_connection_close_str_def connection_re_iff)

end
