(* ===== verification/Message.thy ===== *)
theory Message
  imports Buffer_Chain Header_Fields
begin

text \<open>
  \<open>marvin/http/message_base.cpp\<close>, \<open>http_method.cpp\<close> and \<open>message_factory.cpp\<close>: the HTTP message, its
  accessors, copies and the serialisation of its head.

  Methods are the integers of \<open>enum http_method\<close>; their names come from \<open>http_method_str\<close> of the
  \<open>http-parser\<close> library and are an argument of the definitions that print them. The default constructor
  leaves \<open>m_method\<close> and \<open>m_status_code\<close> indeterminate: their initial values are its arguments. The body is
  a shared pointer that may be null. Two messages may share one body chain; no operation of a message
  writes to a chain it has handed out, so a body is a value here.
\<close>

record message =
  m_is_request :: bool
  m_method :: int
  m_method_str :: string
  m_target :: string
  m_status_code :: int
  m_reason :: string
  m_http_major :: int
  m_http_minor :: int
  m_headers :: headers
  m_trailers :: headers
  m_body_chain_sptr :: "buffer_chain option"

section \<open>Construction and accessors\<close>

definition http_method_string :: "(int \<Rightarrow> string) \<Rightarrow> int \<Rightarrow> string" where
  "http_method_string http_method_str m = http_method_str m"

definition method_as_string :: "(int \<Rightarrow> string) \<Rightarrow> int \<Rightarrow> string" where
  "method_as_string http_method_str m = http_method_str m"

definition MessageBase_new :: "int \<Rightarrow> int \<Rightarrow> message" where
  "MessageBase_new junk_method junk_status =
     \<lparr>m_is_request = True, m_method = junk_method, m_method_str = [], m_target = [],
      m_status_code = junk_status, m_reason = [], m_http_major = 1, m_http_minor = 1,
      m_headers = [], m_trailers = [], m_body_chain_sptr = Some makeBufferChainSPtr\<rparr>"

text \<open>Assignments between distinct objects.\<close>

definition MessageBase_assign :: "message \<Rightarrow> message \<Rightarrow> message result" where
  "MessageBase_assign this other =
     (let this' = this\<lparr>m_is_request := m_is_request other, m_method := m_method other,
        m_method_str := m_method_str other, m_target := m_target other,
        m_status_code := m_status_code other, m_reason := m_reason other,
        m_http_major := m_http_major other, m_http_minor := m_http_minor other,
        m_headers := headers_assign (m_headers this) (m_headers other),
        m_trailers := headers_assign (m_trailers this) (m_trailers other)\<rparr> in
      rbind (deref (m_body_chain_sptr other)) (\<lambda>c.
      rbind (chain_copy c) (\<lambda>c'. Inr (this'\<lparr>m_body_chain_sptr := Some c'\<rparr>))))"

definition MessageBase_copy :: "int \<Rightarrow> int \<Rightarrow> message \<Rightarrow> message result" where
  "MessageBase_copy junk_method junk_status other =
     rbind (MessageBase_assign
              ((MessageBase_new junk_method junk_status)\<lparr>m_body_chain_sptr := None\<rparr>) other) (\<lambda>this.
     rbind (deref (m_body_chain_sptr other)) (\<lambda>c.
     rbind (chain_copy c) (\<lambda>c'. Inr (this\<lparr>m_body_chain_sptr := Some c'\<rparr>))))"

definition MessageBase_move_assign :: "message \<Rightarrow> message \<Rightarrow> message \<times> message" where
  "MessageBase_move_assign this other =
     (let (hs, ohs) = headers_move_assign (m_headers this) (m_headers other);
          (ts, ots) = headers_move_assign (m_trailers this) (m_trailers other) in
      (this\<lparr>m_is_request := m_is_request other, m_method := m_method other,
        m_method_str := m_method_str other, m_target := m_target other,
        m_status_code := m_status_code other, m_reason := m_reason other,
        m_http_major := m_http_major other, m_http_minor := m_http_minor other,
        m_headers := hs, m_trailers := ts, m_body_chain_sptr := m_body_chain_sptr other\<rparr>,
       other\<lparr>m_target := [], m_headers := ohs, m_trailers := ots,
        m_body_chain_sptr := Some makeBufferChainSPtr\<rparr>))"

definition msg_status_code :: "int \<Rightarrow> message \<Rightarrow> message" where
  "msg_status_code sc m = m\<lparr>m_status_code := sc, m_is_request := False\<rparr>"

definition msg_reason :: "string \<Rightarrow> message \<Rightarrow> message" where
  "msg_reason st m = m\<lparr>m_reason := st, m_is_request := False\<rparr>"

definition msg_method :: "int \<Rightarrow> message \<Rightarrow> message" where
  "msg_method mth m = m\<lparr>m_method := mth, m_is_request := True\<rparr>"

definition method_string :: "(int \<Rightarrow> string) \<Rightarrow> message \<Rightarrow> string" where
  "method_string http_method_str m = http_method_string http_method_str (m_method m)"

definition msg_target :: "string \<Rightarrow> message \<Rightarrow> message" where
  "msg_target t m = m\<lparr>m_target := t\<rparr>"

definition msg_version :: "int \<Rightarrow> int \<Rightarrow> message \<Rightarrow> message" where
  "msg_version major minor m = m\<lparr>m_http_major := major, m_http_minor := minor\<rparr>"

definition version_major :: "int \<Rightarrow> message \<Rightarrow> message" where
  "version_major major m = m\<lparr>m_http_major := major\<rparr>"

definition version_minor :: "int \<Rightarrow> message \<Rightarrow> message" where
  "version_minor minor m = m\<lparr>m_http_minor := minor\<rparr>"

definition set_header :: "string \<Rightarrow> string \<Rightarrow> message \<Rightarrow> message" where
  "set_header key v m = m\<lparr>m_headers := set_at_key key (trim v) (m_headers m)\<rparr>"

definition set_header_ptr :: "string \<Rightarrow> string \<Rightarrow> message \<Rightarrow> message" where
  "set_header_ptr k v m = m\<lparr>m_headers := set_at_key_ptr k v (m_headers m)\<rparr>"

definition header :: "string \<Rightarrow> message \<Rightarrow> string option" where
  "header key m = at_key key (m_headers m)"

definition set_trailer :: "string \<Rightarrow> string \<Rightarrow> message \<Rightarrow> message" where
  "set_trailer key v m = m\<lparr>m_headers := set_at_key key (trim v) (m_headers m)\<rparr>"

definition trailer :: "string \<Rightarrow> message \<Rightarrow> string option" where
  "trailer key m = at_key key (m_headers m)"

definition set_is_request :: "bool \<Rightarrow> message \<Rightarrow> message" where
  "set_is_request flag m = m\<lparr>m_is_request := flag\<rparr>"

definition remove_header :: "string \<Rightarrow> message \<Rightarrow> message" where
  "remove_header key m = m\<lparr>m_headers := remove_at_key key (m_headers m)\<rparr>"

definition content_length :: "message \<Rightarrow> nat option" where
  "content_length m =
     (case header ContentLength m of Some s \<Rightarrow> Some (size_of_int (atoi s)) | None \<Rightarrow> None)"

definition set_body_buffer_chain :: "buffer_chain option \<Rightarrow> message \<Rightarrow> message" where
  "set_body_buffer_chain b m = m\<lparr>m_body_chain_sptr := b\<rparr>"

definition get_body :: "message \<Rightarrow> buffer_chain option" where
  "get_body m = m_body_chain_sptr m"

definition set_body :: "buffer_chain option \<Rightarrow> message \<Rightarrow> message result" where
  "set_body b m =
     (let m1 = remove_header TransferEncoding (m\<lparr>m_body_chain_sptr := b\<rparr>) in
      rbind (deref b) (\<lambda>c. Inr (set_header ContentLength (nat_to_string (chain_size c)) m1)))"

definition set_body_string :: "string \<Rightarrow> message \<Rightarrow> message result" where
  "set_body_string content m =
     rbind (makeBufferChainSPtr_string content) (\<lambda>c.
       (let m1 = remove_header TransferEncoding (m\<lparr>m_body_chain_sptr := Some c\<rparr>) in
        Inr (set_header ContentLength (nat_to_string (chain_size c)) m1)))"

definition is_connection_keep_alive :: "message \<Rightarrow> bool" where
  "is_connection_keep_alive m =
     (case header Connection_key m of
        Some h \<Rightarrow>
          if is_connection_keep_alive_str h then True
          else if is_connection_close_str h then False
          else m_http_minor m = 1
      | None \<Rightarrow> m_http_minor m = 1)"

section \<open>Serialisation\<close>

definition crlf :: string where
  "crlf = [CHR 0x0D, CHR 0x0A]"

definition trace_message :: "(int \<Rightarrow> string) \<Rightarrow> string \<Rightarrow> message \<Rightarrow> string" where
  "trace_message mstr address msg =
     [CHR 0x0A] @ ''MSG['' @ address @ '']: '' @
     (if m_is_request msg
      then method_string mstr msg @ '' '' @ m_target msg @ '' HTTP/1.'' @ int_to_string (m_http_minor msg)
      else ''HTTP/1.'' @ int_to_string (m_http_minor msg) @ '' '' @ int_to_string (m_status_code msg) @
           '' '' @ m_reason msg @ '' '') @
     headers_str (m_headers msg)"

definition serialize_headers_string :: "(int \<Rightarrow> string) \<Rightarrow> message \<Rightarrow> string" where
  "serialize_headers_string mstr msg =
     (let vers = ''HTTP/'' @ int_to_string (m_http_major msg) @ ''.'' @ int_to_string (m_http_minor msg) in
      (if m_is_request msg then method_string mstr msg @ '' '' @ m_target msg @ '' '' @ vers @ crlf
       else vers @ '' '' @ int_to_string (m_status_code msg) @ '' '' @ m_reason msg @ crlf) @
      concat (map (\<lambda>h. fkey h @ '': '' @ fvalue h @ crlf) (m_headers msg)) @ crlf)"

definition serialize_header_lines :: "headers \<Rightarrow> contig_buffer \<Rightarrow> contig_buffer result" where
  "serialize_header_lines hdrs mb =
     rfold (\<lambda>h mb.
       rbind (contig_append_string (fkey h) mb) (\<lambda>mb.
       rbind (contig_append_string '': '' mb) (\<lambda>mb.
       rbind (contig_append_string (fvalue h) mb) (\<lambda>mb.
         contig_append_string crlf mb)))) hdrs mb"

definition serialize_headers_into :: "(int \<Rightarrow> string) \<Rightarrow> message \<Rightarrow> contig_buffer \<Rightarrow> contig_buffer result" where
  "serialize_headers_into mstr msg mb =
     rbind (if m_is_request msg then
              rbind (contig_append_string (method_string mstr msg) mb) (\<lambda>mb.
              rbind (contig_append_string '' '' mb) (\<lambda>mb.
              rbind (contig_append_string (m_target msg) mb) (\<lambda>mb.
                if m_http_minor msg = 0 then contig_append_string ('' HTTP/1.0'' @ crlf) mb
                else contig_append_string ('' HTTP/1.1'' @ crlf) mb)))
            else
              rbind (if m_http_minor msg = 0 then contig_append_string ''HTTP/1.0 '' mb
                     else contig_append_string ''HTTP/1.1 '' mb) (\<lambda>mb.
                contig_append_string
                  (int_to_string (m_status_code msg) @ '' '' @ m_reason msg @ crlf) mb)) (\<lambda>mb.
     rbind (serialize_header_lines (m_headers msg) mb) (\<lambda>mb.
       contig_append_string crlf mb))"

definition serialize_headers :: "(int \<Rightarrow> string) \<Rightarrow> message \<Rightarrow> contig_buffer result" where
  "serialize_headers mstr msg =
     rbind (makeContigBufferSPtr_cap (256 * 4 * 8)) (serialize_headers_into mstr msg)"

text \<open>\<open>to_string\<close>: an error, the bytes, or \<^term>\<open>Inr None\<close> when unwritten memory would be read.\<close>

definition msg_to_string :: "(int \<Rightarrow> string) \<Rightarrow> message \<Rightarrow> string option result" where
  "msg_to_string mstr msg = rbind (serialize_headers mstr msg) (\<lambda>mb. Inr (contig_toString mb))"

definition dump_headers :: "message \<Rightarrow> string" where
  "dump_headers msg = concat (map (\<lambda>h. fkey h @ '' : '' @ fvalue h @ [CHR 0x0A]) (m_headers msg))"

section \<open>Getters after setters\<close>

lemma header_set_header [msg_simps]:
  "header k' (set_header k v m) = (if to_upper k' = to_upper k then Some (trim v) else header k' m)"
  by (simp add: header_def set_header_def header_simps)

lemma header_remove_header [msg_simps]:
  "headers_inv (m_headers m) \<Longrightarrow>
     header k' (remove_header k m) = (if to_upper k' = to_upper k then None else header k' m)"
  by (simp add: header_def remove_header_def header_simps)

lemma headers_inv_setters [simp, intro]:
  "headers_inv (m_headers m) \<Longrightarrow> headers_inv (m_headers (set_header k v m))"
  "headers_inv (m_headers m) \<Longrightarrow> headers_inv (m_headers (remove_header k m))"
  by (simp_all add: set_header_def remove_header_def)

lemma header_other_setters [msg_simps]:
  "header k (msg_status_code sc m) = header k m" "header k (msg_reason st m) = header k m"
  "header k (msg_method mt m) = header k m" "header k (msg_target t m) = header k m"
  "header k (msg_version ma mi m) = header k m" "header k (version_minor mi m) = header k m"
  "header k (m\<lparr>m_body_chain_sptr := b\<rparr>) = header k m"
  by (simp_all add: header_def msg_status_code_def msg_reason_def msg_method_def msg_target_def
      msg_version_def version_minor_def)

lemma m_headers_other_setters [msg_simps]:
  "m_headers (msg_status_code sc m) = m_headers m" "m_headers (msg_reason st m) = m_headers m"
  "m_headers (msg_method mt m) = m_headers m" "m_headers (msg_target t m) = m_headers m"
  "m_headers (msg_version ma mi m) = m_headers m" "m_headers (version_minor mi m) = m_headers m"
  by (simp_all add: msg_status_code_def msg_reason_def msg_method_def msg_target_def
      msg_version_def version_minor_def)

lemma start_line_set_header [msg_simps]:
  "m_is_request (set_header k v m) = m_is_request m" "m_method (set_header k v m) = m_method m"
  "m_target (set_header k v m) = m_target m" "m_status_code (set_header k v m) = m_status_code m"
  "m_reason (set_header k v m) = m_reason m" "m_http_major (set_header k v m) = m_http_major m"
  "m_http_minor (set_header k v m) = m_http_minor m"
  "m_body_chain_sptr (set_header k v m) = m_body_chain_sptr m"
  "m_is_request (remove_header k m) = m_is_request m" "m_method (remove_header k m) = m_method m"
  "m_target (remove_header k m) = m_target m" "m_status_code (remove_header k m) = m_status_code m"
  "m_reason (remove_header k m) = m_reason m" "m_http_major (remove_header k m) = m_http_major m"
  "m_http_minor (remove_header k m) = m_http_minor m"
  "m_body_chain_sptr (remove_header k m) = m_body_chain_sptr m"
  by (simp_all add: set_header_def remove_header_def)

lemma header_key_upper [simp]:
  "to_upper AcceptEncoding = AcceptEncoding" "to_upper Connection_key = Connection_key"
  "to_upper ContentLength = ContentLength" "to_upper Host = Host"
  "to_upper ProxyAuthorization = ProxyAuthorization"
  "to_upper ProxyAuthentication = ProxyAuthentication" "to_upper ProxyConnection = ProxyConnection"
  "to_upper TE_key = TE_key" "to_upper TransferEncoding = TransferEncoding" "to_upper ETag = ETag"
  "to_upper Upgrade = Upgrade" "to_upper Trailer = Trailer"
  by code_simp+

lemma header_key_neq [simp]:
  "ContentLength \<noteq> TransferEncoding" "TransferEncoding \<noteq> ContentLength"
  "Connection_key \<noteq> ContentLength" "ContentLength \<noteq> Connection_key"
  "Connection_key \<noteq> TransferEncoding" "TransferEncoding \<noteq> Connection_key"
  "TE_key \<noteq> ContentLength" "ContentLength \<noteq> TE_key"
  "TE_key \<noteq> TransferEncoding" "TransferEncoding \<noteq> TE_key"
  "TE_key \<noteq> Connection_key" "Connection_key \<noteq> TE_key"
  "AcceptEncoding \<noteq> ContentLength" "ContentLength \<noteq> AcceptEncoding"
  "AcceptEncoding \<noteq> TransferEncoding" "TransferEncoding \<noteq> AcceptEncoding"
  "AcceptEncoding \<noteq> Connection_key" "Connection_key \<noteq> AcceptEncoding"
  "AcceptEncoding \<noteq> TE_key" "TE_key \<noteq> AcceptEncoding"
  by (simp_all add: header_names)

section \<open>Bodies\<close>

lemma set_body_eq:
  "set_body (Some c) m =
     Inr (set_header ContentLength (nat_to_string (chain_size c))
           (remove_header TransferEncoding (m\<lparr>m_body_chain_sptr := Some c\<rparr>)))"
  by (simp add: set_body_def Let_def)

lemma set_body_string_eq:
  "makeBufferChainSPtr_string s = Inr c \<Longrightarrow> set_body_string s m = set_body (Some c) m"
  by (simp add: set_body_def set_body_string_def Let_def)

text \<open>
  C39. Attaching a body to an outgoing message makes it self-delimiting: the message then holds that
  chain, no \<open>Transfer-Encoding\<close> remains, \<open>Content-Length\<close> is the decimal size of the chain, and for every
  size below \<open>2 ^ 31\<close> the length that \<open>content_length()\<close> reads back is that size.
\<close>

theorem set_body_self_delimiting:
  assumes "headers_inv (m_headers m)" "chain_size c < 2 ^ 31"
  shows "\<exists>m'. set_body (Some c) m = Inr m' \<and> headers_inv (m_headers m') \<and>
              get_body m' = Some c \<and> header TransferEncoding m' = None \<and>
              header ContentLength m' = Some (nat_to_string (chain_size c)) \<and>
              content_length m' = Some (chain_size c)"
  using assms
  by (simp add: set_body_eq get_body_def content_length_def msg_simps atoi_nat_to_string)

theorem set_body_self_delimiting_witness:
  "\<exists>m'. set_body (Some sample_chain) (MessageBase_new 0 0) = Inr m' \<and> content_length m' = Some 0"
  using set_body_self_delimiting [of "MessageBase_new 0 0" sample_chain]
  by (auto simp: MessageBase_new_def sample_chain_def chain_size_def chain_new_def)

lemma int32_of_long_high:
  assumes "2 ^ 31 \<le> n" "n < 2 ^ 32"
  shows "int32_of_long (int n) = int n - 2 ^ 32"
proof -
  have "(int n + 2 ^ 31) mod 2 ^ 32 = int n + 2 ^ 31 - 2 ^ 32"
    using assms by (simp add: mod_pos_pos_trivial minus_mod_self2 [of "int n + 2147483648" 4294967296, symmetric]
        del: minus_mod_self2)
  then show ?thesis by (simp add: int32_of_long_def)
qed

lemma atoi_nat_to_string_gen: "atoi (nat_to_string n) = int32_of_long (long_clamp (int n))"
proof -
  let ?s = "nat_to_string n"
  have h: "is_digit (hd ?s)" by (rule hd_nat_to_string)
  have t: "trim_left ?s = ?s" using h by (simp add: is_digit_not_space)
  have k: "takeWhile is_digit ?s = ?s" by (simp add: takeWhile_eq_all_conv nat_to_string_digits)
  show ?thesis using h by (simp add: atoi_def t k is_digit_not_sign)
qed

text \<open>
  \<open>content_length()\<close> converts through a 32-bit \<open>int\<close>: a body of \<open>2 ^ 31\<close> to \<open>2 ^ 32 - 1\<close> bytes, which
  \<open>set_body\<close> announces correctly in the header text, is read back as \<open>2 ^ 64 - 2 ^ 32\<close> bytes more.
\<close>

theorem content_length_wraps:
  assumes "header ContentLength m = Some (nat_to_string n)" "2 ^ 31 \<le> n" "n < 2 ^ 32"
  shows "content_length m = Some (2 ^ 64 - 2 ^ 32 + n)"
proof -
  have "long_clamp (int n) = int n" using assms(2,3) by (simp add: long_clamp_def)
  then have "atoi (nat_to_string n) = int n - 2 ^ 32"
    using int32_of_long_high [OF assms(2,3)] by (simp add: atoi_nat_to_string_gen)
  moreover have "(int n - 2 ^ 32) mod 2 ^ 64 = int n - 2 ^ 32 + 2 ^ 64"
    using assms(2,3) by (simp add: mod_pos_pos_trivial mod_add_self2 [of "int n - 4294967296" 18446744073709551616, symmetric]
        del: mod_add_self2)
  ultimately show ?thesis using assms by (simp add: content_length_def size_of_int_def)
qed

theorem content_length_wraps_witness:
  "content_length (set_header ContentLength (nat_to_string (2 ^ 31)) (MessageBase_new 0 0)) =
     Some (2 ^ 64 - 2 ^ 32 + 2 ^ 31)"
  by (rule content_length_wraps) (simp_all add: header_set_header)

section \<open>Serialising the head\<close>

definition head_pieces :: "(int \<Rightarrow> string) \<Rightarrow> message \<Rightarrow> string list" where
  "head_pieces mstr msg =
     (if m_is_request msg then
        [method_string mstr msg, '' '', m_target msg,
         (if m_http_minor msg = 0 then '' HTTP/1.0'' else '' HTTP/1.1'') @ crlf]
      else [if m_http_minor msg = 0 then ''HTTP/1.0 '' else ''HTTP/1.1 '',
            int_to_string (m_status_code msg) @ '' '' @ m_reason msg @ crlf]) @
     concat (map (\<lambda>h. [fkey h, '': '', fvalue h, crlf]) (m_headers msg)) @ [crlf]"

lemma serialize_header_lines_pieces:
  "serialize_header_lines hs mb =
     rfold contig_append_string (concat (map (\<lambda>h. [fkey h, '': '', fvalue h, crlf]) hs)) mb"
proof (induction hs arbitrary: mb)
  case (Cons h hs)
  have "(\<lambda>mb. serialize_header_lines hs mb) =
      rfold contig_append_string (concat (map (\<lambda>h. [fkey h, '': '', fvalue h, crlf]) hs))"
    using Cons.IH by (simp add: fun_eq_iff)
  then show ?case unfolding serialize_header_lines_def by (simp add: rbind_assoc rfold_fun)
qed (simp add: serialize_header_lines_def)

lemma serialize_headers_into_pieces:
  "serialize_headers_into mstr msg mb = rfold contig_append_string (head_pieces mstr msg) mb"
  by (cases "m_is_request msg"; cases "m_http_minor msg = 0")
    (simp_all add: serialize_headers_into_def head_pieces_def serialize_header_lines_pieces
      rfold_append_fun rbind_assoc rfold_fun)

lemma int_to_string_digit [simp]: "int_to_string 0 = ''0''" "int_to_string 1 = ''1''"
  by code_simp+

lemma concat_head_pieces:
  assumes "m_http_major msg = 1" "m_http_minor msg \<in> {0, 1}"
  shows "concat (head_pieces mstr msg) = serialize_headers_string mstr msg"
proof -
  have "concat (concat (map (\<lambda>h. [fkey h, '': '', fvalue h, crlf]) hs)) =
        concat (map (\<lambda>h. fkey h @ '': '' @ fvalue h @ crlf) hs)" for hs
    by (induction hs) simp_all
  then show ?thesis
    using assms by (auto simp: head_pieces_def serialize_headers_string_def Let_def)
qed

lemma serialize_headers_fits:
  assumes "length (concat (head_pieces mstr m)) \<le> 1048576"
  shows "\<exists>mb. serialize_headers mstr m = Inr mb \<and> contig_inv mb \<and> contig_content mb = concat (head_pieces mstr m)"
proof -
  obtain mb where mb: "makeContigBufferSPtr_cap (256 * 4 * 8) = Inr mb" "contig_inv mb" "contig_content mb = []"
      "m_strategy mb = getTestFactory"
    using contig_new_cap_ok [of getTestFactory "256 * 4 * 8"]
    by (auto simp: makeContigBufferSPtr_cap_def makeSPtr_cap_def)
  then have "contig_accepts mb (concat (head_pieces mstr m))" using assms by (simp add: contig_accepts_def)
  then show ?thesis
    using contig.append_pieces [OF mb(2)] mb(1,3) by (auto simp: serialize_headers_def serialize_headers_into_pieces)
qed

text \<open>
  C15. The buffer serialiser is equivalent to the string serialiser: for a message of HTTP version 1.0 or
  1.1 it succeeds exactly when the head fits the one megabyte of the allocator, and then the buffer is
  well formed and holds the bytes of the reference serialisation; a longer head throws.
\<close>

theorem serialize_headers_equiv:
  assumes "m_http_major msg = 1" "m_http_minor msg \<in> {0, 1}"
  shows "if length (serialize_headers_string mstr msg) \<le> 1048576
         then \<exists>mb. serialize_headers mstr msg = Inr mb \<and> contig_inv mb \<and>
                   contig_toString mb = Some (serialize_headers_string mstr msg)
         else serialize_headers mstr msg = Inl Alloc_Too_Big"
proof -
  obtain b where b: "makeContigBufferSPtr_cap (256 * 4 * 8) = Inr b" "contig_inv b"
      "contig_content b = []" "m_strategy b = getTestFactory"
    using contig_new_cap_ok [of getTestFactory "256 * 4 * 8"]
    by (auto simp: makeContigBufferSPtr_cap_def makeSPtr_cap_def)
  let ?ps = "head_pieces mstr msg"
  have s: "serialize_headers mstr msg = rfold contig_append_string ?ps b"
    using b by (simp add: serialize_headers_def serialize_headers_into_pieces)
  have a: "contig_accepts b (concat ?ps) \<longleftrightarrow> length (serialize_headers_string mstr msg) \<le> 1048576"
    using b by (simp add: contig_accepts_def concat_head_pieces [OF assms])
  show ?thesis
  proof (cases "contig_accepts b (concat ?ps)")
    case True
    then obtain mb where "rfold contig_append_string ?ps b = Inr mb" "contig_inv mb"
        "contig_content mb = concat ?ps"
      using contig.append_pieces [OF b(2), of ?ps] b(3) by auto
    then show ?thesis using s a True concat_head_pieces [OF assms] by (auto simp: buffer_simps)
  next
    case False
    moreover have "?ps \<noteq> []" by (simp add: head_pieces_def)
    ultimately show ?thesis using contig.append_pieces_refused [OF b(2)] s a by simp
  qed
qed

theorem serialize_headers_equiv_witness:
  "\<exists>mb. serialize_headers (\<lambda>_. ''GET'') (msg_target ''/'' (MessageBase_new 1 0)) = Inr mb \<and>
        contig_toString mb = Some (''GET / HTTP/1.1'' @ crlf @ crlf)"
proof -
  let ?m = "msg_target ''/'' (MessageBase_new 1 0)"
  have "serialize_headers_string (\<lambda>_. ''GET'') ?m = ''GET / HTTP/1.1'' @ crlf @ crlf"
    by (simp add: serialize_headers_string_def msg_target_def MessageBase_new_def method_string_def
        http_method_string_def Let_def)
  then show ?thesis
    using serialize_headers_equiv [of ?m "\<lambda>_. ''GET''"]
    by (auto simp: msg_target_def MessageBase_new_def crlf_def)
qed

section \<open>Copies\<close>

definition msg_inv :: "message \<Rightarrow> bool" where
  "msg_inv m \<longleftrightarrow> headers_inv (m_headers m) \<and>
     (case m_body_chain_sptr m of None \<Rightarrow> False | Some c \<Rightarrow> chain_inv c \<and> fits_factory c)"

lemma msg_inv_new [simp]: "msg_inv (MessageBase_new a b)"
  by (simp add: msg_inv_def MessageBase_new_def)
    (simp add: fits_factory_def makeBufferChainSPtr_def chain_new_def)

text \<open>
  Copying a message copies its start line, headers and trailers field by field and gives it a body
  chain of its own with the same bytes; the copy constructor and the assignment operator agree on this.
\<close>

theorem message_copy_correct:
  assumes "msg_inv m" "m_body_chain_sptr m = Some c"
  shows "\<exists>c'. chain_inv c' \<and> chain_to_string c' = chain_to_string c \<and>
              MessageBase_copy a b m = Inr (m\<lparr>m_body_chain_sptr := Some c'\<rparr>) \<and>
              MessageBase_assign this m = Inr (m\<lparr>m_body_chain_sptr := Some c'\<rparr>)"
proof -
  obtain c' where c': "chain_copy c = Inr c'" "chain_inv c'" "chain_content c' = chain_content c"
    using assms chain_copy_ok [of c] by (auto simp: msg_inv_def)
  moreover have "chain_inv c" using assms by (simp add: msg_inv_def)
  ultimately show ?thesis
    using assms(2) by (auto simp: MessageBase_copy_def MessageBase_assign_def MessageBase_new_def
        headers_assign_def Let_def buffer_simps)
qed

theorem message_copy_correct_witness:
  "\<exists>c'. MessageBase_copy 7 7 (MessageBase_new 1 0) =
          Inr ((MessageBase_new 1 0)\<lparr>m_body_chain_sptr := Some c'\<rparr>)"
proof -
  have "m_body_chain_sptr (MessageBase_new 1 0) = Some makeBufferChainSPtr"
    by (simp add: MessageBase_new_def)
  then show ?thesis using message_copy_correct [OF msg_inv_new, of 1 0 _ 7 7] by blast
qed

text \<open>
  A message stays open for a next one exactly as HTTP prescribes for its version: a \<open>keep-alive\<close> token
  in \<open>Connection\<close> decides first, then a \<open>close\<close> token, and without either the connection persists for
  version 1.1 only.
\<close>

theorem is_connection_keep_alive_iff:
  "is_connection_keep_alive m \<longleftrightarrow>
     (let v = (case header Connection_key m of Some s \<Rightarrow> s | None \<Rightarrow> []) in
      has_token ''keep-alive'' v \<or> \<not> has_token ''close'' v \<and> m_http_minor m = 1)"
proof -
  have "\<not> has_token ''keep-alive'' []" "\<not> has_token ''close'' []" by (simp_all add: has_token_def)
  then show ?thesis
    by (auto simp: is_connection_keep_alive_def is_connection_keep_alive_str_def
        is_connection_close_str_def connection_re_iff Let_def split: option.splits)
qed

end
