(* ===== verification/Uri.thy ===== *)
theory Uri
  imports Message
begin

text \<open>
  \<open>marvin/http/uri.cpp\<close>, \<open>uri_query.cpp\<close> and \<open>message_factory.cpp\<close>: decomposed URIs, query strings and the
  standard requests and responses. \<open>http::ParseHttpUrl\<close> of the \<open>uri-parser\<close> package is the argument
  \<open>parse_url\<close> of the definitions that call it, and the number of the \<open>CONNECT\<close> method of \<open>http-parser\<close> is
  the argument \<open>http_connect\<close>.
\<close>

record url =
  url_protocol :: string
  url_user :: string
  url_password :: string
  url_host :: string
  url_port :: int
  url_path :: string
  url_search :: string

record uri =
  m_scheme :: string
  m_user :: string
  m_password :: string
  m_user_and_password :: string
  m_host :: string
  m_server :: string
  m_port :: int
  m_rel_path :: string
  m_abs_path :: string
  m_search :: string

definition uri_port :: "url \<Rightarrow> int result" where
  "uri_port us =
     (if url_port us = 0 then
        (if url_protocol us = ''https'' then Inr 443
         else if url_protocol us = ''http'' then Inr 80
         else Inl Assert_Failed)
      else Inr (url_port us))"

definition uri_path_value :: "url \<Rightarrow> string" where
  "uri_path_value us =
     (if url_path us = [] \<and> url_search us = [] then ''/''
      else if url_path us = [] \<and> url_search us \<noteq> [] then ''/?'' @ url_search us
      else if url_path us \<noteq> [] \<and> url_search us = [] then url_path us
      else url_path us @ ''?'' @ url_search us)"

definition Uri_new :: "(string \<Rightarrow> url) \<Rightarrow> string \<Rightarrow> uri result" where
  "Uri_new parse_url uri_in =
     (let us = parse_url uri_in in
      rbind (uri_port us) (\<lambda>port_int.
        if port_int = 0 then Inl Assert_Failed else
        (let host_header = url_host us @ '':'' @ int_to_string port_int;
             path_value = uri_path_value us;
             path_abs_value = url_protocol us @ ''://'' @ host_header @ path_value;
             has_user = (url_user us \<noteq> []);
             has_password = (has_user \<and> url_password us \<noteq> []) in
         Inr \<lparr>m_scheme = url_protocol us,
              m_user = (if has_user then url_user us else []),
              m_password = (if has_password then url_password us else []),
              m_user_and_password = (if has_password then url_user us @ '': '' @ url_password us else []),
              m_host = host_header, m_server = url_host us, m_port = port_int,
              m_rel_path = path_value, m_abs_path = path_abs_value, m_search = url_search us\<rparr>)))"

definition uri_host_and_port :: "uri \<Rightarrow> string" where "uri_host_and_port u = m_host u"
definition uri_host_no_port :: "uri \<Rightarrow> string" where "uri_host_no_port u = m_server u"
definition uri_relativePath :: "uri \<Rightarrow> string" where "uri_relativePath u = m_rel_path u"
definition uri_absolutePath :: "uri \<Rightarrow> string" where "uri_absolutePath u = m_abs_path u"

section \<open>Query strings\<close>

text \<open>
  The pattern \<open>([\w+%]+)=([^&]*)\<close>, searched from left to right: at each start position the greedy run of
  key characters must be non-empty and end at an equals sign, which is no key character, so that no
  shorter run can match.
\<close>

definition is_word :: "char \<Rightarrow> bool" where
  "is_word c = (let n = of_char c :: nat in
     48 \<le> n \<and> n \<le> 57 \<or> 65 \<le> n \<and> n \<le> 90 \<or> 97 \<le> n \<and> n \<le> 122 \<or> n = 95)"

definition is_query_key :: "char \<Rightarrow> bool" where
  "is_query_key c \<longleftrightarrow> is_word c \<or> c = CHR ''+'' \<or> c = CHR ''%''"

fun next_match :: "string \<Rightarrow> (string \<times> string \<times> string) option" where
  "next_match [] = None"
| "next_match (c # cs) =
     (let k = takeWhile is_query_key (c # cs); r = dropWhile is_query_key (c # cs) in
      if k \<noteq> [] \<and> r \<noteq> [] \<and> hd r = CHR ''=''
      then Some (k, takeWhile (\<lambda>d. d \<noteq> CHR ''&'') (tl r), dropWhile (\<lambda>d. d \<noteq> CHR ''&'') (tl r))
      else next_match cs)"

lemma next_match_shorter: "next_match s = Some (k, v, rest) \<Longrightarrow> length rest < length s"
proof (induction s rule: next_match.induct)
  case (2 c cs)
  let ?r = "dropWhile is_query_key (c # cs)"
  show ?case
  proof (cases "takeWhile is_query_key (c # cs) \<noteq> [] \<and> ?r \<noteq> [] \<and> hd ?r = CHR ''=''")
    case True
    then have "rest = dropWhile (\<lambda>d. d \<noteq> CHR ''&'') (tl ?r)"
      using "2.prems" by (simp only: next_match.simps Let_def) simp
    then have "length rest \<le> length (tl ?r)" using length_dropWhile_le by metis
    moreover have "length (tl ?r) < length ?r" using True by (cases ?r) auto
    moreover have "length ?r \<le> length (c # cs)" by (rule length_dropWhile_le)
    ultimately show ?thesis by linarith
  next
    case False
    then have "next_match cs = Some (k, v, rest)"
      using "2.prems" by (simp only: next_match.simps Let_def if_False)
    then have "length rest < length cs" using "2.IH" False by blast
    then show ?thesis by simp
  qed
qed simp

function query_matches :: "string \<Rightarrow> (string \<times> string) list" where
  "query_matches s =
     (case next_match s of None \<Rightarrow> [] | Some (k, v, rest) \<Rightarrow> (k, v) # query_matches rest)"
  by pat_completeness auto
termination
  by (relation "measure length") (auto dest: next_match_shorter)

declare query_matches.simps [simp del] next_match.simps [simp del]

record uri_query =
  queryString :: string
  keyValues :: "string \<rightharpoonup> string"

definition query_parse :: "string \<Rightarrow> uri_query \<Rightarrow> uri_query" where
  "query_parse s q = q\<lparr>keyValues := fold (\<lambda>(k, v) m. m(k \<mapsto> v)) (query_matches s) (keyValues q)\<rparr>"

definition UriQuery_new :: "string \<Rightarrow> uri_query" where
  "UriQuery_new q_str = query_parse q_str \<lparr>queryString = q_str, keyValues = Map.empty\<rparr>"

section \<open>Standard messages\<close>

definition applyUri :: "message \<Rightarrow> uri \<Rightarrow> bool \<Rightarrow> message" where
  "applyUri msg u proxy =
     set_header Host (uri_host_and_port u)
       (if proxy then msg_target (uri_absolutePath u) msg else msg_target (uri_relativePath u) msg)"

definition make_request :: "int \<Rightarrow> uri \<Rightarrow> message \<Rightarrow> message" where
  "make_request mth u msg =
     set_header Host (uri_host_and_port u) (msg_target (uri_relativePath u) (msg_method mth msg))"

definition make_proxy_request :: "int \<Rightarrow> uri \<Rightarrow> message \<Rightarrow> message" where
  "make_proxy_request mth u msg =
     set_header Host (uri_host_and_port u) (msg_target (uri_absolutePath u) (msg_method mth msg))"

definition make_proxy_connect_request :: "int \<Rightarrow> string \<Rightarrow> string \<Rightarrow> message \<Rightarrow> message result" where
  "make_proxy_connect_request http_connect server port msg =
     (let host_port = trim_left (trim_right server) @ '':'' @ trim_left (trim_right port) in
      set_body_string [] (set_header Host host_port (msg_target host_port (msg_method http_connect msg))))"

definition make_response_403_forbidden :: "message \<Rightarrow> message result" where
  "make_response_403_forbidden msg = set_body_string [] (msg_status_code 403 (msg_reason ''Forbidden'' msg))"

definition make_response_200_OK_connected :: "message \<Rightarrow> message result" where
  "make_response_200_OK_connected msg = set_body_string [] (msg_status_code 200 (msg_reason ''OK'' msg))"

definition make_response_502_badgateway :: "message \<Rightarrow> message result" where
  "make_response_502_badgateway msg = set_body_string [] (msg_status_code 503 (msg_reason ''BAD GATEWAY'' msg))"

section \<open>Properties\<close>

lemma dropWhile_key_eq:
  assumes "list_all is_query_key k"
  shows "takeWhile is_query_key (k @ CHR ''='' # t) = k \<and>
         dropWhile is_query_key (k @ CHR ''='' # t) = CHR ''='' # t"
proof -
  have e: "\<not> is_query_key (CHR ''='')" by (simp add: is_query_key_def is_word_def)
  show ?thesis using assms e by (induction k) auto
qed

lemma next_match_pair:
  assumes "k \<noteq> []" "list_all is_query_key k"
  shows "next_match (k @ CHR ''='' # t) =
           Some (k, takeWhile (\<lambda>d. d \<noteq> CHR ''&'') t, dropWhile (\<lambda>d. d \<noteq> CHR ''&'') t)"
proof -
  obtain c cs where "k = c # cs" using assms(1) by (cases k) auto
  then have "next_match (k @ CHR ''='' # t) =
    (let kk = takeWhile is_query_key (k @ CHR ''='' # t); r = dropWhile is_query_key (k @ CHR ''='' # t) in
      if kk \<noteq> [] \<and> r \<noteq> [] \<and> hd r = CHR ''=''
      then Some (kk, takeWhile (\<lambda>d. d \<noteq> CHR ''&'') (tl r), dropWhile (\<lambda>d. d \<noteq> CHR ''&'') (tl r))
      else next_match (cs @ CHR ''='' # t))"
    by (simp add: next_match.simps)
  then show ?thesis using assms(1) by (simp add: dropWhile_key_eq [OF assms(2)] Let_def)
qed

lemma next_match_amp: "next_match (CHR ''&'' # t) = next_match t"
  by (simp add: next_match.simps is_query_key_def is_word_def Let_def)

text \<open>The textual form of a list of pairs, as a browser writes it.\<close>

fun render_query :: "(string \<times> string) list \<Rightarrow> string" where
  "render_query [] = []"
| "render_query [(k, v)] = k @ CHR ''='' # v"
| "render_query ((k, v) # kvs) = k @ CHR ''='' # v @ CHR ''&'' # render_query kvs"

definition query_ok :: "string \<times> string \<Rightarrow> bool" where
  "query_ok kv \<longleftrightarrow> fst kv \<noteq> [] \<and> list_all is_query_key (fst kv) \<and> CHR ''&'' \<notin> set (snd kv)"

lemma takeWhile_no_amp:
  assumes "CHR ''&'' \<notin> set v"
  shows "takeWhile (\<lambda>d. d \<noteq> CHR ''&'') v = v" "dropWhile (\<lambda>d. d \<noteq> CHR ''&'') v = []"
    "takeWhile (\<lambda>d. d \<noteq> CHR ''&'') (v @ CHR ''&'' # t) = v"
    "dropWhile (\<lambda>d. d \<noteq> CHR ''&'') (v @ CHR ''&'' # t) = CHR ''&'' # t"
  using assms by (induction v) auto

lemma query_matches_amp: "query_matches (CHR ''&'' # t) = query_matches t"
  by (simp add: query_matches.simps [of "CHR ''&'' # t"] query_matches.simps [of t] next_match_amp)

lemma query_matches_render:
  assumes "list_all query_ok kvs"
  shows "query_matches (render_query kvs) = kvs"
  using assms
proof (induction kvs rule: render_query.induct)
  case 1
  then show ?case by (simp add: query_matches.simps next_match.simps)
next
  case (2 k v)
  then have "next_match (k @ CHR ''='' # v) = Some (k, v, [])"
    using next_match_pair [of k v] takeWhile_no_amp [of v] by (simp add: query_ok_def)
  then show ?case by (simp add: query_matches.simps) (simp add: query_matches.simps next_match.simps)
next
  case (3 k v kv kvs)
  let ?t = "render_query (kv # kvs)"
  have "next_match (k @ CHR ''='' # v @ CHR ''&'' # ?t) = Some (k, v, CHR ''&'' # ?t)"
    using next_match_pair [of k "v @ CHR ''&'' # ?t"] takeWhile_no_amp [of v] "3.prems"
    by (simp add: query_ok_def)
  then show ?case
    using "3" by (simp add: query_matches.simps [of "k @ _"] query_matches_amp)
qed

text \<open>
  C37. Query strings round trip: parsing the text of a list of key-value pairs, the keys non-empty words
  (letters, digits, underscore, plus, percent) and the values free of ampersands, gives the map in which
  each key has the value of its last pair.
\<close>

theorem query_roundtrip:
  assumes "list_all query_ok kvs"
  shows "keyValues (UriQuery_new (render_query kvs)) = map_of (rev kvs)"
proof -
  have "fold (\<lambda>(k, v) m. m(k \<mapsto> v)) xs m = m ++ map_of (rev xs)" for xs and m :: "string \<rightharpoonup> string"
    by (induction xs arbitrary: m) (auto simp: fun_eq_iff map_add_def split: option.splits)
  then show ?thesis
    by (simp add: UriQuery_new_def query_parse_def query_matches_render [OF assms])
qed

theorem query_roundtrip_witness:
  "list_all query_ok [(''a'', ''1''), (''b'', ''x=y''), (''a'', '''')] \<and>
   keyValues (UriQuery_new ''a=1&b=x=y&a='') ''a'' = Some ''''"
proof -
  let ?k = "[(''a'', ''1''), (''b'', ''x=y''), (''a'', '''')]"
  have q: "list_all query_ok ?k" by (simp add: query_ok_def is_query_key_def is_word_def)
  show ?thesis using query_roundtrip [OF q] q by simp
qed

text \<open>
  A \<open>Uri\<close> is built exactly when a port is known, written out or implied by the scheme \<open>http\<close> or
  \<open>https\<close>; otherwise an assertion stops the program. A built one has a non-zero port, the \<open>server:port\<close>
  form as host, and an absolute path that is scheme, host and relative path; the relative path of a URI
  without path starts with a slash.
\<close>

theorem Uri_new_correct:
  "case Uri_new parse_url s of
     Inl e \<Rightarrow> e = Assert_Failed \<and> url_port (parse_url s) = 0 \<and>
              url_protocol (parse_url s) \<noteq> ''http'' \<and> url_protocol (parse_url s) \<noteq> ''https''
   | Inr u \<Rightarrow> m_port u \<noteq> 0 \<and>
       m_port u = (if url_port (parse_url s) \<noteq> 0 then url_port (parse_url s)
                   else if m_scheme u = ''https'' then 443 else 80) \<and>
       uri_host_and_port u = uri_host_no_port u @ '':'' @ int_to_string (m_port u) \<and>
       uri_absolutePath u = m_scheme u @ ''://'' @ uri_host_and_port u @ uri_relativePath u \<and>
       uri_relativePath u =
         (if url_path (parse_url s) = [] then ''/'' else url_path (parse_url s)) @
         (if m_search u = [] then [] else ''?'' @ m_search u)"
  by (auto simp: Uri_new_def uri_port_def uri_path_value_def Let_def uri_host_and_port_def
      uri_host_no_port_def uri_absolutePath_def uri_relativePath_def split: sum.splits)

lemma empty_body_ok:
  assumes "headers_inv (m_headers m)"
  shows "\<exists>m'. set_body_string [] m = Inr m' \<and> headers_inv (m_headers m') \<and>
              header ContentLength m' = Some ''0'' \<and> header TransferEncoding m' = None \<and>
              (\<exists>c. get_body m' = Some c \<and> chain_inv c \<and> chain_content c = []) \<and>
              m_is_request m' = m_is_request m \<and> m_status_code m' = m_status_code m \<and>
              m_reason m' = m_reason m \<and> m_target m' = m_target m \<and> m_method m' = m_method m \<and>
              (\<forall>k. to_upper k \<noteq> ContentLength \<longrightarrow> to_upper k \<noteq> TransferEncoding \<longrightarrow> header k m' = header k m)"
proof -
  obtain c where c: "makeBufferChainSPtr_string [] = Inr c" "chain_inv c" "chain_content c = []"
    using makeBufferChainSPtr_string_ok [of "[]"] by auto
  then have z: "chain_size c = 0" by (simp add: chain_inv_def chain_size_def)
  have "nat_to_string 0 = ''0''" by code_simp
  moreover have "trim ''0'' = ''0''" by code_simp
  ultimately show ?thesis
    using c assms z by (simp add: set_body_string_eq set_body_eq msg_simps get_body_def)
qed

text \<open>
  The prepared responses are complete: each succeeds, is a response with an empty body, an explicit
  \<open>Content-Length\<close> of 0 and no \<open>Transfer-Encoding\<close>. The one named for status 502 carries 503.
\<close>

theorem prepared_responses:
  assumes "headers_inv (m_headers m)"
  shows "list_all (\<lambda>(mk, sc, rs).
           \<exists>m'. mk m = Inr m' \<and> \<not> m_is_request m' \<and> m_status_code m' = sc \<and> m_reason m' = rs \<and>
                header ContentLength m' = Some ''0'' \<and> header TransferEncoding m' = None)
         [(make_response_403_forbidden, 403, ''Forbidden''),
          (make_response_200_OK_connected, 200, ''OK''),
          (make_response_502_badgateway, 503, ''BAD GATEWAY'')]"
proof -
  have s: "headers_inv (m_headers (msg_status_code sc (msg_reason rs m)))" for sc rs
    using assms by (simp add: msg_simps)
  show ?thesis
    using empty_body_ok [OF s, of 403 "''Forbidden''"] empty_body_ok [OF s, of 200 "''OK''"]
      empty_body_ok [OF s, of 503 "''BAD GATEWAY''"]
    by (auto simp: make_response_403_forbidden_def make_response_200_OK_connected_def
        make_response_502_badgateway_def msg_status_code_def msg_reason_def)
qed

theorem prepared_responses_witness:
  "\<exists>m'. make_response_200_OK_connected (MessageBase_new 0 0) = Inr m' \<and> m_status_code m' = 200"
  using prepared_responses [of "MessageBase_new 0 0"] by (auto simp: MessageBase_new_def)

end
