(* ===== verification/Marvin_Error.thy ===== *)
theory Marvin_Error
  imports Marvin_Prelude
begin

text \<open>
  \<open>marvin/error/marvin_error.cpp\<close>: error codes as pairs of a value and a category. The name and the
  messages of categories other than Marvin's own belong to \<open>boost\<close>: they are arguments of the
  definitions that print a code, as is the end-of-file code of \<open>asio\<close>. A code is true in a condition
  when its value is not 0.
\<close>

datatype errc = Errc_ok | Errc_end_of_message | Errc_end_of_body | Errc_parser_error

fun errc_value :: "errc \<Rightarrow> int" where
  "errc_value Errc_ok = 0"
| "errc_value Errc_end_of_message = 21"
| "errc_value Errc_end_of_body = 22"
| "errc_value Errc_parser_error = 23"

datatype category = Marvin_Category | Foreign_Category nat

record error_code =
  ec_value :: int
  ec_category :: category

definition ec_failed :: "error_code \<Rightarrow> bool" where
  "ec_failed ec \<longleftrightarrow> ec_value ec \<noteq> 0"

definition category_name :: string where
  "category_name = ''Marvin error''"

definition category_message :: "int \<Rightarrow> string" where
  "category_message ev =
     (if ev = errc_value Errc_end_of_message then ''end of message''
      else if ev = errc_value Errc_end_of_body then ''end of body''
      else if ev = errc_value Errc_ok then ''success''
      else ''unknow Marvin error'')"

definition make_error_code :: "errc \<Rightarrow> error_code" where
  "make_error_code e = \<lparr>ec_value = errc_value e, ec_category = Marvin_Category\<rparr>"

definition make_error_condition :: "errc \<Rightarrow> error_code" where
  "make_error_condition e = \<lparr>ec_value = errc_value e, ec_category = Marvin_Category\<rparr>"

definition make_error_description :: "(nat \<Rightarrow> string) \<Rightarrow> (nat \<Rightarrow> int \<Rightarrow> string) \<Rightarrow> error_code \<Rightarrow> string" where
  "make_error_description foreign_name foreign_message err =
     ''Error v: '' @ int_to_string (ec_value err) @ '' c: '' @
     (case ec_category err of Marvin_Category \<Rightarrow> category_name | Foreign_Category n \<Rightarrow> foreign_name n) @
     '' m: '' @
     (case ec_category err of Marvin_Category \<Rightarrow> category_message (ec_value err)
      | Foreign_Category n \<Rightarrow> foreign_message n (ec_value err))"

definition make_error_ok :: error_code where "make_error_ok = make_error_code Errc_ok"
definition make_error_eof :: "error_code \<Rightarrow> error_code" where "make_error_eof asio_eof = asio_eof"
definition make_error_eom :: error_code where "make_error_eom = make_error_code Errc_end_of_message"
definition make_error_eob :: error_code where "make_error_eob = make_error_code Errc_end_of_body"
definition make_error_parse :: error_code where "make_error_parse = make_error_code Errc_parser_error"

definition make_ok :: error_code where "make_ok = make_error_ok"
definition make_eof :: "error_code \<Rightarrow> error_code" where "make_eof asio_eof = make_error_eof asio_eof"
definition make_eom :: error_code where "make_eom = make_error_eom"
definition make_eob :: error_code where "make_eob = make_error_eob"
definition make_eparse :: error_code where "make_eparse = make_error_parse"

lemmas make_error_defs =
  make_ok_def make_eof_def make_eom_def make_eob_def make_eparse_def make_error_ok_def
  make_error_eof_def make_error_eom_def make_error_eob_def make_error_parse_def make_error_code_def

lemma make_ok_not_failed [simp]: "\<not> ec_failed make_ok" "\<not> ec_failed make_error_ok"
  by (simp_all add: make_error_defs ec_failed_def)

lemma make_eparse_failed [simp]: "ec_failed make_eparse" "ec_failed make_error_parse"
  by (simp_all add: make_error_defs ec_failed_def)

lemma make_eparse_neq_ok [simp]: "make_eparse \<noteq> make_ok" "make_ok \<noteq> make_eparse"
  by (simp_all add: make_error_defs)

lemma errc_value_inject [simp]: "errc_value a = errc_value b \<longleftrightarrow> a = b"
  by (cases a; cases b) auto

text \<open>Every code of the enumeration but one has a message of its own.\<close>

lemma category_message_unknown_iff:
  "category_message (errc_value e) = ''unknow Marvin error'' \<longleftrightarrow> e = Errc_parser_error"
  by (cases e) (simp_all add: category_message_def)

end
