(* ===== verification/Mitm_Helpers.thy ===== *)
theory Mitm_Helpers
  imports Uri Marvin_Error
begin

text \<open>
  \<open>marvin/helpers/mitm.cpp\<close>: how the proxy turns a client request into the request it sends upstream, and
  an upstream response into the one it sends to the client. The functions fill in a message they are
  given; they return it here.
\<close>

section \<open>Operations\<close>

definition base64Encode :: "string \<Rightarrow> string" where
  "base64Encode source = ''['' @ source @ '']''"

definition decodeUri :: "(string \<Rightarrow> url) \<Rightarrow> message \<Rightarrow> url" where
  "decodeUri parse_url req = parse_url (m_target req)"

definition helpers_applyUri :: "message \<Rightarrow> uri \<Rightarrow> bool \<Rightarrow> message" where
  "helpers_applyUri msg u proxy =
     set_header Host (uri_host_and_port u)
       (if proxy then msg_target (uri_absolutePath u) msg else msg_target (uri_relativePath u) msg)"

definition apply_uri_proxy :: "message \<Rightarrow> uri \<Rightarrow> message" where
  "apply_uri_proxy msg u = helpers_applyUri msg u True"

definition apply_uri_non_proxy :: "message \<Rightarrow> uri \<Rightarrow> message" where
  "apply_uri_non_proxy msg u = helpers_applyUri msg u False"

text \<open>\<open>boost::tokenizer\<close> with \<open>char_separator(",")\<close>: the non-empty pieces between commas.\<close>

fun split_comma :: "string \<Rightarrow> string list" where
  "split_comma [] = [[]]"
| "split_comma (c # cs) =
     (if c = CHR '','' then [] # split_comma cs
      else (case split_comma cs of p # ps \<Rightarrow> (c # p) # ps | [] \<Rightarrow> [[c]]))"

definition comma_tokens :: "string \<Rightarrow> string list" where
  "comma_tokens s = filter (\<lambda>t. t \<noteq> []) (split_comma s)"

definition remove_hop_by_hop :: "string \<Rightarrow> message \<Rightarrow> message" where
  "remove_hop_by_hop connectionValue msg = fold (\<lambda>t. remove_header (trim t)) (comma_tokens connectionValue) msg"

definition request_dontCopyList :: "string list" where
  "request_dontCopyList =
     [Host, ProxyConnection, ProxyAuthorization, ProxyAuthentication, Connection_key, ETag,
      TransferEncoding, TE_key, Trailer, Upgrade]"

definition request_transform_common :: "message \<Rightarrow> message \<Rightarrow> message result" where
  "request_transform_common upstream req =
     (let r1 = upstream\<lparr>m_headers := copy_except (m_headers req) (m_headers upstream) request_dontCopyList\<rparr>;
          r2 = (case header Connection_key req of Some cv \<Rightarrow> remove_hop_by_hop cv r1 | None \<Rightarrow> r1);
          r3 = set_header Connection_key ConnectionClose r2;
          r4 = set_header AcceptEncoding ''identity'' r3;
          r5 = set_header TE_key [] r4;
          r6 = version_minor (m_http_minor req) r5 in
      set_body (m_body_chain_sptr req) r6)"

definition make_upstream_request :: "(string \<Rightarrow> url) \<Rightarrow> message \<Rightarrow> message \<Rightarrow> message result" where
  "make_upstream_request parse_url upstream req =
     rbind (Uri_new parse_url (m_target req)) (\<lambda>tmp_uri.
       (let r1 = apply_uri_non_proxy upstream tmp_uri in
        if header ''Upgrade'' req \<noteq> None then Inl Assert_Failed
        else request_transform_common (msg_method (m_method req) r1) req))"

definition make_upstream_https_request :: "message \<Rightarrow> message \<Rightarrow> message result" where
  "make_upstream_https_request upstream req =
     (let r1 = msg_method (m_method req) (msg_target (m_target req) upstream) in
      rbind (deref (header Host req)) (\<lambda>h.
        request_transform_common (set_header Host h r1) req))"

definition response_dontCopyList :: "string list" where
  "response_dontCopyList = [Host, ProxyConnection, Connection_key, TransferEncoding, ETag]"

definition make_downstream_good_response :: "message \<Rightarrow> message \<Rightarrow> message result" where
  "make_downstream_good_response downstream resp =
     (let r1 = downstream\<lparr>m_headers := copy_except (m_headers resp) (m_headers downstream) response_dontCopyList\<rparr>;
          r2 = msg_status_code (m_status_code resp) (msg_reason (m_reason resp) r1);
          r3 = set_header Connection_key ConnectionClose r2;
          r4 = version_minor (m_http_minor resp) r3 in
      rbind (deref (m_body_chain_sptr resp)) (\<lambda>c.
        if chain_size c > 0 then set_body (get_body resp) r4 else Inr r4))"

definition make_downstream_error_response :: "message \<Rightarrow> message" where
  "make_downstream_error_response msg =
     set_header ContentLength (int_to_string 0) (msg_status_code 501 (msg_reason ''Bad gateway'' msg))"

definition make_downstream_response :: "message \<Rightarrow> message option \<Rightarrow> error_code \<Rightarrow> message result" where
  "make_downstream_response msg resp err =
     (if ec_failed err then Inr (make_downstream_error_response msg)
      else rbind (deref resp) (make_downstream_good_response msg))"

definition apply_connection_close :: "message \<Rightarrow> message \<Rightarrow> bool \<times> message" where
  "apply_connection_close req response = (False, set_header Connection_key ConnectionClose response)"

definition apply_keepalive_rules :: "message \<Rightarrow> message \<Rightarrow> bool \<times> message" where
  "apply_keepalive_rules req response =
     (case header Connection_key req of
        Some h \<Rightarrow>
          if h = ConnectionKeepAlive then (True, set_header Connection_key ConnectionKeepAlive response)
          else (False, set_header Connection_key ConnectionClose response)
      | None \<Rightarrow> (False, set_header Connection_key ConnectionClose response))"

definition response403Forbidden :: "message \<Rightarrow> message result" where
  "response403Forbidden msg = set_body_string [] (msg_status_code 403 (msg_reason ''Forbidden'' msg))"

definition response200OKConnected :: "message \<Rightarrow> message result" where
  "response200OKConnected msg = set_body_string [] (msg_status_code 200 (msg_reason ''OK'' msg))"

definition response502Badgateway :: "message \<Rightarrow> message result" where
  "response502Badgateway msg = set_body_string [] (msg_status_code 503 (msg_reason ''BAD GATEWAY'' msg))"

section \<open>Headers of the results\<close>

text \<open>The names a \<open>Connection\<close> value lists, as header keys.\<close>

definition hop_keys :: "string option \<Rightarrow> string set" where
  "hop_keys cv = (case cv of None \<Rightarrow> {} | Some v \<Rightarrow> (\<lambda>t. to_upper (trim t)) ` set (comma_tokens v))"

text \<open>The value of the last field with a key, in a header list that may hold duplicates.\<close>

definition last_value :: "string \<Rightarrow> headers \<Rightarrow> string option" where
  "last_value k hs = map_option fvalue (find (\<lambda>f. fkey f = k) (rev hs))"

lemma remove_hop_by_hop_headers:
  "m_headers (remove_hop_by_hop cv m) = fold remove_at_key (map trim (comma_tokens cv)) (m_headers m)"
proof -
  have "m_headers (fold (\<lambda>t. remove_header (trim t)) ts m) = fold remove_at_key (map trim ts) (m_headers m)" for ts
    by (induction ts arbitrary: m) (simp_all add: remove_header_def)
  then show ?thesis by (simp add: remove_hop_by_hop_def)
qed

lemma remove_hop_by_hop_fields [msg_simps]:
  "m_is_request (remove_hop_by_hop cv m) = m_is_request m" "m_method (remove_hop_by_hop cv m) = m_method m"
  "m_target (remove_hop_by_hop cv m) = m_target m"
  "m_http_minor (remove_hop_by_hop cv m) = m_http_minor m"
proof -
  have "m_is_request (fold (\<lambda>t. remove_header (trim t)) ts m) = m_is_request m \<and>
        m_method (fold (\<lambda>t. remove_header (trim t)) ts m) = m_method m \<and>
        m_target (fold (\<lambda>t. remove_header (trim t)) ts m) = m_target m \<and>
        m_http_minor (fold (\<lambda>t. remove_header (trim t)) ts m) = m_http_minor m" for ts
    by (induction ts arbitrary: m) (simp_all add: msg_simps)
  then show "m_is_request (remove_hop_by_hop cv m) = m_is_request m" "m_method (remove_hop_by_hop cv m) = m_method m"
    "m_target (remove_hop_by_hop cv m) = m_target m" "m_http_minor (remove_hop_by_hop cv m) = m_http_minor m"
    by (simp_all add: remove_hop_by_hop_def)
qed

lemma hop_removed:
  assumes "headers_inv (m_headers m)"
  shows "headers_inv (m_headers (remove_hop_by_hop cv m))"
    and "header k (remove_hop_by_hop cv m) = (if to_upper k \<in> hop_keys (Some cv) then None else header k m)"
  using assms
  by (simp_all add: remove_hop_by_hop_headers header_def hop_keys_def hdrs.inv_remove_all
      hdrs.lookup_remove_all image_image)

lemma copied_header:
  assumes "headers_inv dest" "keys_upper source"
  shows "at_key k (copy_except source dest fl) =
     (if to_upper k \<in> set fl then at_key k dest
      else case last_value (to_upper k) source of Some v \<Rightarrow> Some v | None \<Rightarrow> at_key k dest)"
  using assms(1)
  unfolding copy_except_fold hdrs.lookup_set_all [OF assms(1)] map_of_rev_filtered [OF assms(2)] last_value_def
  by (auto split: option.splits)

text \<open>The headers after the common transformation, for an arbitrary start and an arbitrary key.\<close>

definition transformed_header :: "message \<Rightarrow> message \<Rightarrow> nat \<Rightarrow> string \<Rightarrow> string option" where
  "transformed_header upstream req n k =
     (if k = ContentLength then Some (nat_to_string n)
      else if k = TransferEncoding then None
      else if k = TE_key then Some []
      else if k = AcceptEncoding then Some ''identity''
      else if k = Connection_key then Some ConnectionClose
      else if k \<in> hop_keys (header Connection_key req) then None
      else if k \<in> set request_dontCopyList then at_key k (m_headers upstream)
      else case last_value k (m_headers req) of Some v \<Rightarrow> Some v | None \<Rightarrow> at_key k (m_headers upstream))"

lemma trim_values [simp]: "trim ConnectionClose = ConnectionClose" "trim ''identity'' = ''identity''"
  "trim ConnectionKeepAlive = ConnectionKeepAlive" "trim ''0'' = ''0''"
  by code_simp+

lemma transform_common_ok:
  assumes up: "headers_inv (m_headers upstream)" and req: "keys_upper (m_headers req)"
    and body: "m_body_chain_sptr req = Some c"
  shows "\<exists>r. request_transform_common upstream req = Inr r \<and> headers_inv (m_headers r) \<and>
             (\<forall>k. header k r = transformed_header upstream req (chain_size c) (to_upper k)) \<and>
             get_body r = Some c \<and> m_http_minor r = m_http_minor req \<and>
             m_is_request r = m_is_request upstream \<and> m_method r = m_method upstream \<and>
             m_target r = m_target upstream"
proof -
  define r1 where
    "r1 = upstream\<lparr>m_headers := copy_except (m_headers req) (m_headers upstream) request_dontCopyList\<rparr>"
  define r2 where "r2 = (case header Connection_key req of Some cv \<Rightarrow> remove_hop_by_hop cv r1 | None \<Rightarrow> r1)"
  define r where "r = set_header ContentLength (nat_to_string (chain_size c)) (remove_header TransferEncoding
     ((version_minor (m_http_minor req) (set_header TE_key [] (set_header AcceptEncoding ''identity''
       (set_header Connection_key ConnectionClose r2))))\<lparr>m_body_chain_sptr := Some c\<rparr>))"
  have res: "request_transform_common upstream req = Inr r"
    unfolding request_transform_common_def Let_def body set_body_eq r_def r2_def r1_def ..
  have i1: "headers_inv (m_headers r1)" using up by (simp add: r1_def)
  have h1: "header k r1 = (if to_upper k \<in> set request_dontCopyList then at_key k (m_headers upstream)
      else case last_value (to_upper k) (m_headers req) of Some v \<Rightarrow> Some v | None \<Rightarrow> at_key k (m_headers upstream))" for k
    using copied_header [OF up req] by (simp add: r1_def header_def)
  have i2: "headers_inv (m_headers r2)" using i1 hop_removed by (auto simp: r2_def split: option.splits)
  have h2: "header k r2 = (if to_upper k \<in> hop_keys (header Connection_key req) then None else header k r1)" for k
    using hop_removed(2) [OF i1] by (auto simp: r2_def hop_keys_def split: option.splits)
  have f2: "m_is_request r2 = m_is_request upstream" "m_method r2 = m_method upstream" "m_target r2 = m_target upstream"
    by (simp_all add: r2_def r1_def msg_simps split: option.splits)
  have "header k r = transformed_header upstream req (chain_size c) (to_upper k)" for k
    using i2 by (auto simp: r_def msg_simps transformed_header_def h2 h1 split: option.splits)
  moreover have "headers_inv (m_headers r)" using i2 by (simp add: r_def msg_simps)
  moreover have "get_body r = Some c" "m_http_minor r = m_http_minor req" "m_is_request r = m_is_request upstream"
    "m_method r = m_method upstream" "m_target r = m_target upstream"
    using f2 by (simp_all add: r_def get_body_def msg_simps version_minor_def)
  ultimately show ?thesis using res by blast
qed

section \<open>Properties\<close>

lemma fresh_message [simp]:
  "m_headers (MessageBase_new a b) = []" "m_http_minor (MessageBase_new a b) = 1"
  "m_is_request (MessageBase_new a b)" "m_target (MessageBase_new a b) = []"
  by (simp_all add: MessageBase_new_def)

lemma header_keys_distinct [simp]:
  "Host \<noteq> ContentLength" "Host \<noteq> TransferEncoding" "Host \<noteq> TE_key" "Host \<noteq> AcceptEncoding"
  "Host \<noteq> Connection_key" "Host \<in> set request_dontCopyList"
  by (simp_all add: header_names request_dontCopyList_def)

text \<open>
  C4. The request sent upstream for a plain HTTP client request. Whatever headers the client sent, duplicates
  included, the call succeeds unless the request asks for an upgrade or its target has no usable port,
  and the result is the sanitised request: method, version and body of the client's, the relative path as
  target; \<open>Connection: close\<close>, \<open>Accept-Encoding: identity\<close>, an empty \<open>TE\<close> and the \<open>Content-Length\<close> of the
  body; no header that the client's \<open>Connection\<close> names; none of the proxy, \<open>Transfer-Encoding\<close>, \<open>ETag\<close>,
  \<open>Trailer\<close> and \<open>Upgrade\<close> headers; the \<open>Host\<close> of the target; every other header with the last value the
  client gave it.
\<close>

theorem upstream_request_sanitised:
  assumes "keys_upper (m_headers req)" "m_body_chain_sptr req = Some c"
    and "Uri_new parse_url (m_target req) = Inr u" "header ''Upgrade'' req = None"
  shows "\<exists>r. make_upstream_request parse_url (MessageBase_new a b) req = Inr r \<and>
             m_is_request r \<and> m_method r = m_method req \<and> m_http_minor r = m_http_minor req \<and>
             m_target r = uri_relativePath u \<and> get_body r = Some c \<and>
             (\<forall>k. header k r =
               (let K = to_upper k in
                if K = ContentLength then Some (nat_to_string (chain_size c))
                else if K = TransferEncoding then None
                else if K = TE_key then Some []
                else if K = AcceptEncoding then Some ''identity''
                else if K = Connection_key then Some ConnectionClose
                else if K \<in> hop_keys (header Connection_key req) then None
                else if K = Host then Some (trim (uri_host_and_port u))
                else if K \<in> set request_dontCopyList then None
                else last_value K (m_headers req)))"
proof -
  let ?up = "msg_method (m_method req) (apply_uri_non_proxy (MessageBase_new a b) u)"
  have hs: "m_headers ?up = set_at_key Host (trim (uri_host_and_port u)) []"
    by (simp add: apply_uri_non_proxy_def helpers_applyUri_def msg_simps set_header_def)
  have inv: "headers_inv (m_headers ?up)" unfolding hs by (rule headers_inv_set_at_key) simp
  have host: "at_key k (m_headers ?up) = (if to_upper k = Host then Some (trim (uri_host_and_port u)) else None)" for k
    unfolding hs by (subst at_key_set_at_key) simp
  obtain r where r: "request_transform_common ?up req = Inr r"
      "\<forall>k. header k r = transformed_header ?up req (chain_size c) (to_upper k)"
      "get_body r = Some c" "m_http_minor r = m_http_minor req" "m_is_request r = m_is_request ?up"
      "m_method r = m_method ?up" "m_target r = m_target ?up"
    using transform_common_ok [OF inv assms(1,2)] by blast
  have "make_upstream_request parse_url (MessageBase_new a b) req = Inr r"
    using r(1) assms(3,4) by (simp add: make_upstream_request_def Let_def)
  moreover have "m_is_request r" "m_method r = m_method req" "m_target r = uri_relativePath u"
    using r by (simp_all add: msg_method_def apply_uri_non_proxy_def helpers_applyUri_def msg_simps)
      (simp add: msg_target_def)
  ultimately show ?thesis
    using r(2,3,4) by (auto simp: transformed_header_def host Let_def split: option.splits)
qed

definition sample_url :: url where
  "sample_url = \<lparr>url_protocol = ''http'', url_user = [], url_password = [], url_host = ''h'', url_port = 0,
                 url_path = ''/p'', url_search = []\<rparr>"

definition sample_request :: message where
  "sample_request = (MessageBase_new 1 0)\<lparr>m_target := ''http://h/p'',
     m_headers := [\<lparr>fkey = Connection_key, fvalue = ''X-A, close''\<rparr>, \<lparr>fkey = ''X-A'', fvalue = ''1''\<rparr>,
                   \<lparr>fkey = ProxyConnection, fvalue = ''keep-alive''\<rparr>]\<rparr>"

theorem upstream_request_sanitised_witness:
  "\<exists>r. make_upstream_request (\<lambda>_. sample_url) (MessageBase_new 0 0) sample_request = Inr r \<and>
       m_target r = ''/p'' \<and> header ''X-a'' r = None \<and> header ''proxy-connection'' r = None \<and>
       header ''Host'' r = Some ''h:80'' \<and> header ''connection'' r = Some ConnectionClose"
proof -
  have up: "to_upper ''X-A'' = ''X-A''" "to_upper ''X-a'' = ''X-A''" "to_upper ''proxy-connection'' = ProxyConnection"
      "to_upper ''Host'' = Host" "to_upper ''connection'' = Connection_key" "to_upper ''Upgrade'' = Upgrade"
      "(\<lambda>t. to_upper (trim t)) ` set (comma_tokens ''X-A, close'') = {''X-A'', ''CLOSE''}"
      "int_to_string 80 = ''80''" "trim ''h:80'' = ''h:80''"
    by code_simp+
  have k: "keys_upper (m_headers sample_request)"
    by (simp add: sample_request_def keys_upper_def up)
  have b: "m_body_chain_sptr sample_request = Some makeBufferChainSPtr"
    by (simp add: sample_request_def MessageBase_new_def)
  have u: "Uri_new (\<lambda>_. sample_url) (m_target sample_request) =
      Inr \<lparr>m_scheme = ''http'', m_user = [], m_password = [], m_user_and_password = [], m_host = ''h:80'',
           m_server = ''h'', m_port = 80, m_rel_path = ''/p'', m_abs_path = ''http://h:80/p'', m_search = []\<rparr>"
    by (simp add: Uri_new_def sample_url_def uri_port_def uri_path_value_def Let_def up)
  have ne: "''X-A'' \<noteq> ContentLength" "''X-A'' \<noteq> TransferEncoding" "''X-A'' \<noteq> TE_key" "''X-A'' \<noteq> AcceptEncoding"
    "''X-A'' \<noteq> Connection_key" "ProxyConnection \<noteq> ContentLength" "ProxyConnection \<noteq> TransferEncoding"
    "ProxyConnection \<noteq> TE_key" "ProxyConnection \<noteq> AcceptEncoding" "ProxyConnection \<noteq> Connection_key"
    "ProxyConnection \<noteq> Host" "ProxyConnection \<in> set request_dontCopyList" "Host \<noteq> ''X-A''" "Host \<noteq> ''CLOSE''"
    "Connection_key \<noteq> Upgrade" "''X-A'' \<noteq> Upgrade" "ProxyConnection \<noteq> Upgrade"
    by (simp_all add: header_names request_dontCopyList_def)
  have g: "header ''Upgrade'' sample_request = None" "header Connection_key sample_request = Some ''X-A, close''"
    using ne by (simp_all add: header_def sample_request_def header_simps up)
  have hk: "hop_keys (header Connection_key sample_request) = {''X-A'', ''CLOSE''}"
    using up(7) by (simp add: hop_keys_def g(2))
  show ?thesis
    using upstream_request_sanitised [OF k b u g(1), of 0 0] ne
    by (auto simp: up hk Let_def uri_relativePath_def uri_host_and_port_def)
qed

text \<open>
  For a request read inside a decrypted tunnel the same sanitising applies, with the client's own target
  and \<open>Host\<close> header; a request without \<open>Host\<close> makes the proxy dereference an empty optional.
\<close>

theorem upstream_https_request_sanitised:
  assumes "keys_upper (m_headers req)" "m_body_chain_sptr req = Some c"
  shows "case header Host req of
           None \<Rightarrow> make_upstream_https_request (MessageBase_new a b) req = Inl Null_Deref
         | Some h \<Rightarrow> \<exists>r. make_upstream_https_request (MessageBase_new a b) req = Inr r \<and>
             m_is_request r \<and> m_method r = m_method req \<and> m_target r = m_target req \<and> get_body r = Some c \<and>
             header ContentLength r = Some (nat_to_string (chain_size c)) \<and>
             header TransferEncoding r = None \<and> header Connection_key r = Some ConnectionClose \<and>
             (Host \<notin> hop_keys (header Connection_key req) \<longrightarrow> header Host r = Some (trim h))"
proof (cases "header Host req")
  case None
  then show ?thesis by (simp add: make_upstream_https_request_def Let_def)
next
  case (Some h)
  let ?up = "set_header Host h (msg_method (m_method req) (msg_target (m_target req) (MessageBase_new a b)))"
  have inv: "headers_inv (m_headers ?up)" by (simp add: msg_simps)
  have host: "at_key Host (m_headers ?up) = Some (trim h)"
    using header_set_header [of Host Host h] by (simp add: header_def)
  obtain r where r: "request_transform_common ?up req = Inr r"
      "\<forall>k. header k r = transformed_header ?up req (chain_size c) (to_upper k)"
      "get_body r = Some c" "m_is_request r = m_is_request ?up" "m_method r = m_method ?up"
      "m_target r = m_target ?up"
    using transform_common_ok [OF inv assms] by blast
  have "m_is_request r" "m_method r = m_method req" "m_target r = m_target req"
    using r by (simp_all add: msg_simps) (simp_all add: msg_method_def msg_target_def)
  then show ?thesis
    using r Some host by (simp add: make_upstream_https_request_def Let_def transformed_header_def)
qed

theorem upstream_https_request_sanitised_witness:
  "keys_upper (m_headers sample_request) \<and> m_body_chain_sptr sample_request = Some makeBufferChainSPtr \<and>
   make_upstream_https_request (MessageBase_new 0 0) sample_request = Inl Null_Deref"
proof -
  have up: "to_upper ''X-A'' = ''X-A''" by code_simp
  have k: "keys_upper (m_headers sample_request)" by (simp add: sample_request_def keys_upper_def up)
  have b: "m_body_chain_sptr sample_request = Some makeBufferChainSPtr"
    by (simp add: sample_request_def MessageBase_new_def)
  have "ProxyConnection \<noteq> Host" "''X-A'' \<noteq> Host" "Connection_key \<noteq> Host" by (simp_all add: header_names)
  then have "header Host sample_request = None" by (simp add: header_def sample_request_def header_simps)
  then show ?thesis using upstream_https_request_sanitised [OF k b, of 0 0] k b by simp
qed

text \<open>
  C32. The response sent to the client. After a failed round trip it is status 501 with reason
  \<open>Bad gateway\<close> and a zero \<open>Content-Length\<close>. After a successful one it has the upstream status, reason
  and version, \<open>Connection: close\<close>, no \<open>Transfer-Encoding\<close>, and, when upstream sent a body, that body
  with its length; without a body the upstream \<open>Content-Length\<close> is passed on as it is.
\<close>

theorem downstream_response:
  assumes "keys_upper (m_headers resp)" "m_body_chain_sptr resp = Some c"
  shows "\<exists>r. make_downstream_response (MessageBase_new a b) (Some resp) err = Inr r \<and> \<not> m_is_request r \<and>
           (if ec_failed err then
              m_status_code r = 501 \<and> m_reason r = ''Bad gateway'' \<and> header ContentLength r = Some ''0''
            else m_status_code r = m_status_code resp \<and> m_reason r = m_reason resp \<and>
              m_http_minor r = m_http_minor resp \<and> header Connection_key r = Some ConnectionClose \<and>
              header TransferEncoding r = None \<and>
              (if chain_size c > 0
               then get_body r = Some c \<and> header ContentLength r = Some (nat_to_string (chain_size c))
               else header ContentLength r = last_value ContentLength (m_headers resp)))"
proof (cases "ec_failed err")
  case True
  then show ?thesis
    by (simp add: make_downstream_response_def make_downstream_error_response_def msg_simps)
      (simp add: msg_status_code_def msg_reason_def)
next
  case False
  define r4 where "r4 = version_minor (m_http_minor resp) (set_header Connection_key ConnectionClose
     (msg_status_code (m_status_code resp) (msg_reason (m_reason resp)
       ((MessageBase_new a b)\<lparr>m_headers := copy_except (m_headers resp) [] response_dontCopyList\<rparr>))))"
  have inv: "headers_inv (m_headers r4)" by (simp add: r4_def msg_simps)
  have keys: "TransferEncoding \<in> set response_dontCopyList" "ContentLength \<notin> set response_dontCopyList"
    by (simp_all add: response_dontCopyList_def header_names)
  have hd: "at_key k (copy_except (m_headers resp) [] response_dontCopyList) =
      (if to_upper k \<in> set response_dontCopyList then None else last_value (to_upper k) (m_headers resp))" for k
    using copied_header [OF _ assms(1), of "[]"] by (simp split: option.splits)
  have h4: "header Connection_key r4 = Some ConnectionClose" "header TransferEncoding r4 = None"
      "header ContentLength r4 = last_value ContentLength (m_headers resp)"
    by (simp_all add: r4_def msg_simps) (simp_all add: header_def hd keys)
  have f4: "\<not> m_is_request r4" "m_status_code r4 = m_status_code resp" "m_reason r4 = m_reason resp"
      "m_http_minor r4 = m_http_minor resp"
    by (simp_all add: r4_def version_minor_def msg_simps) (simp_all add: msg_status_code_def msg_reason_def)
  have "make_downstream_response (MessageBase_new a b) (Some resp) err =
      (if chain_size c > 0 then set_body (Some c) r4 else Inr r4)"
    using False assms(2) by (simp add: make_downstream_response_def make_downstream_good_response_def
        Let_def get_body_def r4_def)
  then show ?thesis
    using False inv h4 f4 by (simp add: set_body_eq msg_simps get_body_def)
qed

theorem downstream_response_witness:
  "\<exists>r. make_downstream_response (MessageBase_new 0 0) (Some (MessageBase_new 1 200)) make_error_parse = Inr r \<and>
       m_status_code r = 501"
proof -
  have "m_body_chain_sptr (MessageBase_new 1 200) = Some makeBufferChainSPtr" by (simp add: MessageBase_new_def)
  then show ?thesis
    using downstream_response [of "MessageBase_new 1 200" makeBufferChainSPtr 0 0 make_error_parse]
    by (auto simp: keys_upper_def)
qed

lemma apply_keepalive_rules_exact:
  "fst (apply_keepalive_rules req resp) \<longleftrightarrow> header Connection_key req = Some ''KEEP-ALIVE''"
  "header Connection_key (snd (apply_keepalive_rules req resp)) =
     Some (if fst (apply_keepalive_rules req resp) then ConnectionKeepAlive else ConnectionClose)"
  by (auto simp: apply_keepalive_rules_def ConnectionKeepAlive_def msg_simps split: option.splits)
    (simp_all add: ConnectionKeepAlive_def [symmetric])

end
