(* ===== verification/Timeout.thy ===== *)
theory Timeout
  imports Marvin_Error
begin

text \<open>
  \<open>marvin/connection/timeout.cpp\<close>: the timer that guards the asynchronous operations of a connection, and
  the protocol in which a connection uses it. The state of the \<open>asio\<close> deadline timer is the list of its
  outstanding waits: \<open>Waiting\<close>, or \<open>Ready\<close> with the code its handler will be called with. \<open>cancel\<close> and
  \<open>expires_from_now\<close> make every waiting entry ready with \<open>operation_aborted\<close> and, as the documentation of
  \<open>asio\<close> says, cannot affect a handler that is already queued. Posted handlers run in the order they were
  posted, on one thread. Handlers are names of a type parameter. The constructor leaves \<open>m_active\<close>
  indeterminate. A failed assertion is the value \<^const>\<open>Assert_Failed\<close>.
\<close>

section \<open>The timer and its operations\<close>

datatype wait_code = W_ok | W_aborted | W_other

datatype wait = Waiting | Ready wait_code

record 'k timeout =
  m_active :: bool
  m_cancel_handler :: "'k option"
  m_expire_handler :: "'k option"
  t_waits :: "wait list"
  t_posted :: "'k list"

definition Timeout_new :: "bool \<Rightarrow> 'k timeout" where
  "Timeout_new junk =
     \<lparr>m_active = junk, m_cancel_handler = None, m_expire_handler = None, t_waits = [], t_posted = []\<rparr>"

fun abort_wait :: "wait \<Rightarrow> wait" where
  "abort_wait Waiting = Ready W_aborted"
| "abort_wait (Ready c) = Ready c"

definition timer_cancel :: "'k timeout \<Rightarrow> 'k timeout" where
  "timer_cancel t = t\<lparr>t_waits := map abort_wait (t_waits t)\<rparr>"

definition io_post :: "'k \<Rightarrow> 'k timeout \<Rightarrow> 'k timeout" where
  "io_post h t = t\<lparr>t_posted := t_posted t @ [h]\<rparr>"

definition set_timeout :: "'k \<Rightarrow> 'k timeout \<Rightarrow> 'k timeout" where
  "set_timeout handler t =
     (let t1 = timer_cancel (t\<lparr>m_expire_handler := Some handler, m_cancel_handler := None, m_active := True\<rparr>) in
      t1\<lparr>t_waits := t_waits t1 @ [Waiting]\<rparr>)"

definition cancel_timeout :: "'k \<Rightarrow> 'k timeout \<Rightarrow> 'k timeout result" where
  "cancel_timeout handler t =
     (let t1 = timer_cancel (t\<lparr>m_cancel_handler := Some handler\<rparr>) in
      if \<not> m_active t1 then
        (if m_expire_handler t1 \<noteq> None then Inl Assert_Failed
         else Inr ((io_post handler t1)\<lparr>m_cancel_handler := None\<rparr>))
      else Inr (timer_cancel (timer_cancel (t1\<lparr>m_expire_handler := None\<rparr>))))"

definition p_handle_timeout :: "wait_code \<Rightarrow> 'k timeout \<Rightarrow> 'k timeout result" where
  "p_handle_timeout err t =
     (case err of
        W_aborted \<Rightarrow>
          if \<not> m_active t then Inl Assert_Failed
          else (case m_cancel_handler t of
                  None \<Rightarrow> Inl Assert_Failed
                | Some h \<Rightarrow> Inr (io_post h (t\<lparr>m_active := False, m_cancel_handler := None\<rparr>)))
      | W_other \<Rightarrow> Inl Assert_Failed
      | W_ok \<Rightarrow>
          if \<not> m_active t then Inl Assert_Failed
          else (case m_expire_handler t of
                  None \<Rightarrow> Inr t
                | Some h \<Rightarrow> Inr (io_post h (t\<lparr>m_active := False, m_expire_handler := None\<rparr>))))"

section \<open>The protocol of a guarded operation\<close>

text \<open>
  A connection sets the timeout with a handler that cancels the socket (\<open>H_Expire\<close>) and starts the
  operation; the completion handler of the operation calls \<open>cancel_timeout\<close> with the continuation
  (\<open>H_Done\<close>); the operation is over when the continuation has run. A step is taken by the connection, by
  the clock or by the event loop. An action that is not enabled gives \<^term>\<open>None\<close>.
\<close>

datatype handler_name = H_Expire | H_Done

datatype phase = Ph_Idle | Ph_Io | Ph_Wait

datatype action = A_Begin | A_Io_Done | A_Clock | A_Fire | A_Run

fun guarded_step :: "action \<Rightarrow> handler_name timeout \<times> phase \<Rightarrow> (handler_name timeout \<times> phase) result option" where
  "guarded_step A_Begin (t, ph) = (if ph = Ph_Idle then Some (Inr (set_timeout H_Expire t, Ph_Io)) else None)"
| "guarded_step A_Io_Done (t, ph) =
     (if ph = Ph_Io then Some (rbind (cancel_timeout H_Done t) (\<lambda>t'. Inr (t', Ph_Wait))) else None)"
| "guarded_step A_Clock (t, ph) =
     (case t_waits t of Waiting # ws \<Rightarrow> Some (Inr (t\<lparr>t_waits := Ready W_ok # ws\<rparr>, ph)) | _ \<Rightarrow> None)"
| "guarded_step A_Fire (t, ph) =
     (case t_waits t of
        Ready c # ws \<Rightarrow> Some (rbind (p_handle_timeout c (t\<lparr>t_waits := ws\<rparr>)) (\<lambda>t'. Inr (t', ph)))
      | _ \<Rightarrow> None)"
| "guarded_step A_Run (t, ph) =
     (case t_posted t of
        [] \<Rightarrow> None
      | H_Expire # hs \<Rightarrow> Some (Inr (t\<lparr>t_posted := hs\<rparr>, ph))
      | H_Done # hs \<Rightarrow> Some (Inr (t\<lparr>t_posted := hs\<rparr>, Ph_Idle)))"

inductive guarded :: "handler_name timeout \<times> phase \<Rightarrow> bool" where
  guarded_init: "guarded (Timeout_new junk, Ph_Idle)"
| guarded_next: "guarded s \<Longrightarrow> guarded_step a s = Some (Inr s') \<Longrightarrow> guarded s'"

text \<open>The states that occur. The last line of the waiting phase is the one with a lost continuation.\<close>

definition lost :: "handler_name timeout \<times> phase \<Rightarrow> bool" where
  "lost s \<longleftrightarrow> snd s = Ph_Wait \<and> t_waits (fst s) = [] \<and> t_posted (fst s) = [] \<and> m_active (fst s) \<and>
     m_cancel_handler (fst s) = Some H_Done \<and> m_expire_handler (fst s) = None"

fun guarded_inv :: "handler_name timeout \<times> phase \<Rightarrow> bool" where
  "guarded_inv (t, Ph_Idle) \<longleftrightarrow>
     t_waits t = [] \<and> t_posted t = [] \<and> m_expire_handler t = None"
| "guarded_inv (t, Ph_Io) \<longleftrightarrow> m_cancel_handler t = None \<and>
     (m_active t \<and> m_expire_handler t = Some H_Expire \<and> t_posted t = [] \<and> t_waits t \<in> {[Waiting], [Ready W_ok]} \<or>
      \<not> m_active t \<and> m_expire_handler t = None \<and> t_waits t = [] \<and> t_posted t \<in> {[H_Expire], []})"
| "guarded_inv (t, Ph_Wait) \<longleftrightarrow> m_expire_handler t = None \<and>
     (m_active t \<and> m_cancel_handler t = Some H_Done \<and> t_posted t = [] \<and>
        t_waits t \<in> {[Ready W_aborted], [Ready W_ok], []} \<or>
      \<not> m_active t \<and> m_cancel_handler t = None \<and> t_waits t = [] \<and> t_posted t \<in> {[H_Expire, H_Done], [H_Done]})"

lemmas timeout_defs =
  set_timeout_def cancel_timeout_def p_handle_timeout_def timer_cancel_def io_post_def Let_def

text \<open>One step from a state of the invariant: it does not fail, and it stays in the invariant.\<close>

lemma guarded_step_inv:
  assumes "guarded_inv s" "guarded_step a s = Some x"
  shows "\<exists>s'. x = Inr s' \<and> guarded_inv s'"
proof -
  obtain t ph where s: "s = (t, ph)" by (cases s)
  show ?thesis
    using assms unfolding s
    by (cases ph; cases a)
      (auto simp: timeout_defs split: if_splits list.splits wait.splits handler_name.splits)
qed

lemma guarded_invariant: "guarded s \<Longrightarrow> guarded_inv s"
proof (induction rule: guarded.induct)
  case (guarded_init junk)
  then show ?case by (simp add: Timeout_new_def)
next
  case (guarded_next s a s')
  then show ?case using guarded_step_inv by blast
qed

section \<open>Properties\<close>





end
