(* ===== verification/Connection.thy ===== *)
theory Connection
  imports Timeout Buffer_Chain
begin

text \<open>
  \<open>marvin/connection/connection.cpp\<close> and \<open>socket_factory.cpp\<close>: one TCP connection, plain or TLS. The member
  functions return the operations they start on the resolver, the socket, the TLS stream, the timer and
  the event loop, in order, as effects; the completion of an operation is a call of its handler. An
  operation guarded by the timer completes in two stages: its handler gives the continuation to
  \<open>cancel_timeout\<close>, and the continuation runs later. Endpoints, certificates and identities are opaque
  types; a resolver iterator is the list of endpoints it still yields.
\<close>

section \<open>State and effects\<close>

datatype conn_mode = NOTSECURE | SECURE_CLIENT | SECURE_SERVER

record conn_config =
  s_connect_timeout_interval_ms :: int
  s_read_timeout_interval_ms :: int
  s_write_timeout_interval_ms :: int

definition default_config :: conn_config where
  "default_config =
     \<lparr>s_connect_timeout_interval_ms = 500000, s_read_timeout_interval_ms = 500000,
      s_write_timeout_interval_ms = 500000\<rparr>"

definition setConfig_connectTimeOut :: "int \<Rightarrow> conn_config \<Rightarrow> conn_config" where
  "setConfig_connectTimeOut millisecs g = g\<lparr>s_connect_timeout_interval_ms := millisecs\<rparr>"

definition setConfig_readTimeOut :: "int \<Rightarrow> conn_config \<Rightarrow> conn_config" where
  "setConfig_readTimeOut millisecs g = g\<lparr>s_read_timeout_interval_ms := millisecs\<rparr>"

definition setConfig_writeTimeOut :: "int \<Rightarrow> conn_config \<Rightarrow> conn_config" where
  "setConfig_writeTimeOut millisecs g = g\<lparr>s_write_timeout_interval_ms := millisecs\<rparr>"

definition fd_inuse :: "int \<Rightarrow> int set \<Rightarrow> int set result" where
  "fd_inuse fd inuse = (if fd \<in> inuse then Inl Assert_Failed else Inr (insert fd inuse))"

definition fd_free :: "int \<Rightarrow> int set \<Rightarrow> int set result" where
  "fd_free fd inuse = (if fd \<notin> inuse then Inl Assert_Failed else Inr (inuse - {fd}))"

text \<open>
  A TLS context: its certificate store, whether the peer is verified, the name the peer's certificate must
  match and whether revocation lists are asked for. A stream inherits the settings its context has when the
  stream is made (documented of \<open>SSL_new\<close>); what is set in the context later is for streams made later. A client
  stream also has the name it sends for SNI; of the server's only the identity matters.
\<close>

record tls_context =
  tc_store :: "nat option"
  tc_verify_peer :: bool
  tc_host :: "string option"
  tc_crl_check :: bool

definition tls_context_new :: tls_context where
  "tls_context_new = \<lparr>tc_store = None, tc_verify_peer = False, tc_host = None, tc_crl_check = False\<rparr>"

datatype 'i tls_stream =
    Client_Stream (stream_settings: tls_context) (stream_sni: "string option")
  | Server_Stream 'i

text \<open>The verification parameters that \<open>SSL_CTX_set1_param\<close> puts into a context.\<close>

definition set1_param :: "string \<Rightarrow> tls_context \<Rightarrow> tls_context" where
  "set1_param host ctx = ctx\<lparr>tc_host := Some host, tc_crl_check := True\<rparr>"

record ('c, 'i) connection =
  c_mode :: conn_mode
  c_scheme :: string
  c_server :: string
  c_port :: string
  m_closed_already :: bool
  m_ssl_ctx_sptr :: "tls_context option"
  m_ssl_stream_sptr :: "'i tls_stream option"
  m_certificate_store_ptr :: "nat option"
  m_server_certificate :: "'c option"
  m_server_identity :: "'i option"
  m_connect_timeout_interval_ms :: int
  m_read_timeout_interval_ms :: int
  m_write_timeout_interval_ms :: int

datatype 'e conn_cont =
    K_Connect error_code "'e list"
  | K_Read error_code nat

datatype 'e conn_effect =
    E_Resolve string string
  | E_Set_Timeout int
  | E_Cancel_Timeout "'e conn_cont"
  | E_Connect 'e
  | E_Accept
  | E_Handshake conn_mode
  | E_Read bool nat
  | E_Write bool "string option"
  | E_Sock_Cancel
  | E_Sock_Close
  | E_Sock_Shutdown
  | E_Post_Accept error_code
  | E_Post_Connect error_code bool
  | E_Post_Read error_code nat
  | E_Post_Write error_code nat

definition Connection_client :: "conn_config \<Rightarrow> string \<Rightarrow> string \<Rightarrow> string \<Rightarrow> ('c, 'i) connection" where
  "Connection_client g scheme server port =
     \<lparr>c_mode = NOTSECURE, c_scheme = scheme, c_server = server, c_port = port, m_closed_already = False,
      m_ssl_ctx_sptr = None, m_ssl_stream_sptr = None, m_certificate_store_ptr = None, m_server_certificate = None, m_server_identity = None,
      m_connect_timeout_interval_ms = s_connect_timeout_interval_ms g,
      m_read_timeout_interval_ms = s_read_timeout_interval_ms g,
      m_write_timeout_interval_ms = s_write_timeout_interval_ms g\<rparr>"

text \<open>The constructor for accepted connections does not initialise \<open>m_closed_already\<close>.\<close>

definition Connection_server :: "conn_config \<Rightarrow> bool \<Rightarrow> ('c, 'i) connection" where
  "Connection_server g junk_closed =
     \<lparr>c_mode = NOTSECURE, c_scheme = [], c_server = [], c_port = [], m_closed_already = junk_closed,
      m_ssl_ctx_sptr = None, m_ssl_stream_sptr = None, m_certificate_store_ptr = None, m_server_certificate = None, m_server_identity = None,
      m_connect_timeout_interval_ms = s_connect_timeout_interval_ms g,
      m_read_timeout_interval_ms = s_read_timeout_interval_ms g,
      m_write_timeout_interval_ms = s_write_timeout_interval_ms g\<rparr>"

definition socket_factory_client :: "conn_config \<Rightarrow> string \<Rightarrow> string \<Rightarrow> string \<Rightarrow> ('c, 'i) connection" where
  "socket_factory_client g scheme server port = Connection_client g scheme server port"

definition socket_factory_server :: "conn_config \<Rightarrow> bool \<Rightarrow> ('c, 'i) connection" where
  "socket_factory_server g junk_closed = Connection_server g junk_closed"

definition Connection_destroy :: "('c, 'i) connection \<Rightarrow> 'e conn_effect list" where
  "Connection_destroy c = (if \<not> m_closed_already c then [E_Sock_Close] else [])"

section \<open>Posting results\<close>

definition p_post_accept_cb :: "error_code \<Rightarrow> 'e conn_effect list" where
  "p_post_accept_cb err = [E_Post_Accept err]"

text \<open>The flag of \<^const>\<open>E_Post_Connect\<close>: the call-back gets the connection, not a null pointer.\<close>

definition p_post_connect_cb :: "error_code \<Rightarrow> 'e conn_effect list" where
  "p_post_connect_cb err = [E_Post_Connect err (\<not> ec_failed err)]"

definition p_post_read_cb :: "error_code \<Rightarrow> nat \<Rightarrow> 'e conn_effect list" where
  "p_post_read_cb err bytes_transfered = [E_Post_Read err bytes_transfered]"

definition p_post_write_cb :: "error_code \<Rightarrow> nat \<Rightarrow> 'e conn_effect list" where
  "p_post_write_cb err bytes_transfered = [E_Post_Write err bytes_transfered]"

definition completeWithError :: "error_code \<Rightarrow> 'e conn_effect list" where
  "completeWithError ec = [E_Post_Connect ec False]"

definition completeWithSuccess :: "'e conn_effect list" where
  "completeWithSuccess = [E_Post_Connect make_error_ok True]"

section \<open>Closing\<close>

definition conn_close :: "('c, 'i) connection \<Rightarrow> (('c, 'i) connection \<times> 'e conn_effect list) result" where
  "conn_close c =
     (if m_closed_already c then Inl Assert_Failed
      else Inr (c\<lparr>m_closed_already := True\<rparr>, [E_Sock_Cancel, E_Sock_Close]))"

definition conn_shutdown :: "('c, 'i) connection \<Rightarrow> 'e conn_effect list result" where
  "conn_shutdown c = (if m_closed_already c then Inl Assert_Failed else Inr [E_Sock_Shutdown])"

definition conn_cancel :: "('c, 'i) connection \<Rightarrow> 'e conn_effect list" where
  "conn_cancel c = [E_Sock_Cancel]"

definition set_read_timeout :: "int \<Rightarrow> ('c, 'i) connection \<Rightarrow> ('c, 'i) connection" where
  "set_read_timeout millisecs c = c\<lparr>m_read_timeout_interval_ms := millisecs\<rparr>"

definition get_read_timeout :: "('c, 'i) connection \<Rightarrow> int" where
  "get_read_timeout c = m_read_timeout_interval_ms c"

section \<open>Accepting, connecting and securing\<close>

definition async_accept :: "'e conn_effect list" where
  "async_accept = [E_Accept]"

definition on_accept :: "error_code \<Rightarrow> 'e conn_effect list" where
  "on_accept err = p_post_accept_cb err"

definition async_connect :: "('c, 'i) connection \<Rightarrow> 'e conn_effect list" where
  "async_connect c = [E_Resolve (c_server c) (c_port c)]"

definition p_start_handshake :: "('c, 'i) connection \<Rightarrow> 'e conn_effect list result" where
  "p_start_handshake c =
     (case c_mode c of
        NOTSECURE \<Rightarrow> Inl Bad_Handshake_Type
      | md \<Rightarrow> if m_ssl_stream_sptr c \<noteq> None then Inr [E_Handshake md] else Inl Null_Deref)"

definition p_handle_resolve ::
    "error_code \<Rightarrow> error_code \<Rightarrow> 'e list \<Rightarrow> ('c, 'i) connection \<Rightarrow> 'e conn_effect list" where
  "p_handle_resolve host_unreachable err endpoints c =
     (if endpoints = [] \<and> \<not> ec_failed err then p_post_connect_cb host_unreachable
      else if ec_failed err then p_post_connect_cb err
      else [E_Set_Timeout (m_connect_timeout_interval_ms c), E_Connect (hd endpoints)])"

definition p_handle_connect ::
    "error_code \<Rightarrow> 'e list \<Rightarrow> ('c, 'i) connection \<Rightarrow> 'e conn_effect list result" where
  "p_handle_connect err endpoints c =
     (if \<not> ec_failed err then
        (if c_mode c = NOTSECURE then Inr (p_post_connect_cb err) else p_start_handshake c)
      else (case endpoints of
              ep # eps \<Rightarrow> Inr [E_Set_Timeout (m_connect_timeout_interval_ms c), E_Connect ep]
            | [] \<Rightarrow> Inr (p_post_connect_cb err)))"

text \<open>The completion of a connect: the continuation is handed to the timer.\<close>

definition on_connect :: "error_code \<Rightarrow> 'e list \<Rightarrow> 'e conn_effect list" where
  "on_connect err next_iter = [E_Cancel_Timeout (K_Connect err next_iter)]"

definition p_handle_handshake ::
    "'c \<Rightarrow> error_code \<Rightarrow> ('c, 'i) connection \<Rightarrow> ('c, 'i) connection \<times> 'e conn_effect list" where
  "p_handle_handshake peer_certificate err c =
     (if \<not> ec_failed err then
        ((if c_mode c = SECURE_CLIENT then c\<lparr>m_server_certificate := Some peer_certificate\<rparr> else c),
         p_post_connect_cb err)
      else (c, p_post_connect_cb err))"

definition become_secure_client :: "nat \<Rightarrow> ('c, 'i) connection \<Rightarrow> ('c, 'i) connection result" where
  "become_secure_client store c =
     (if c_mode c \<noteq> NOTSECURE then Inl Already_Secured
      else
        (let ctx = tls_context_new\<lparr>tc_store := Some store, tc_verify_peer := True\<rparr>;
             stream = Client_Stream ctx (Some (c_server c));
             ctx = set1_param (c_server c) ctx in
         Inr (c\<lparr>c_mode := SECURE_CLIENT, m_certificate_store_ptr := Some store,
                m_ssl_ctx_sptr := Some ctx, m_ssl_stream_sptr := Some stream\<rparr>)))"

definition become_secure_server :: "'i \<Rightarrow> ('c, 'i) connection \<Rightarrow> ('c, 'i) connection result" where
  "become_secure_server identity c =
     (if c_mode c \<noteq> NOTSECURE then Inl Already_Secured
      else Inr (c\<lparr>c_mode := SECURE_SERVER, m_server_identity := Some identity,
                  m_ssl_ctx_sptr := Some tls_context_new, m_ssl_stream_sptr := Some (Server_Stream identity)\<rparr>))"

definition async_handshake :: "('c, 'i) connection \<Rightarrow> 'e conn_effect list result" where
  "async_handshake c = p_start_handshake c"

definition get_server_certificate :: "('c, 'i) connection \<Rightarrow> 'c result" where
  "get_server_certificate c =
     (case m_server_certificate c of None \<Rightarrow> Inl No_Server_Certificate | Some x \<Rightarrow> Inr x)"

section \<open>Reading and writing\<close>

text \<open>The flag of \<^const>\<open>E_Read\<close> and \<^const>\<open>E_Write\<close>: through the TLS stream.\<close>

definition on_stream :: "(bool \<Rightarrow> 'e conn_effect) \<Rightarrow> ('c, 'i) connection \<Rightarrow> 'e conn_effect result" where
  "on_stream f c =
     (if c_mode c = NOTSECURE then Inr (f False) else if m_ssl_stream_sptr c \<noteq> None then Inr (f True) else Inl Null_Deref)"

definition async_read_ptr :: "nat \<Rightarrow> int \<Rightarrow> ('c, 'i) connection \<Rightarrow> 'e conn_effect list result" where
  "async_read_ptr buffer_length timeout_ms c =
     rbind (on_stream (\<lambda>s. E_Read s buffer_length) c) (\<lambda>e. Inr [E_Set_Timeout timeout_ms, e])"

definition async_read_ptr_default :: "nat \<Rightarrow> ('c, 'i) connection \<Rightarrow> 'e conn_effect list result" where
  "async_read_ptr_default len c = async_read_ptr len (m_read_timeout_interval_ms c) c"

definition async_read_contig :: "contig_buffer \<Rightarrow> int \<Rightarrow> ('c, 'i) connection \<Rightarrow> 'e conn_effect list result" where
  "async_read_contig mb timeout_ms c = async_read_ptr (contig_capacity mb) timeout_ms c"

definition async_read_contig_default :: "contig_buffer \<Rightarrow> ('c, 'i) connection \<Rightarrow> 'e conn_effect list result" where
  "async_read_contig_default mb c = async_read_contig mb (m_read_timeout_interval_ms c) c"

definition async_read_mutable :: "nat \<Rightarrow> ('c, 'i) connection \<Rightarrow> 'e conn_effect list result" where
  "async_read_mutable buffer_size c = async_read_ptr_default buffer_size c"

definition async_read_streambuf :: "'e conn_effect list result" where
  "async_read_streambuf = Inl Not_Implemented"

definition on_read_complete :: "error_code \<Rightarrow> nat \<Rightarrow> 'e conn_effect list" where
  "on_read_complete err n = [E_Cancel_Timeout (K_Read err n)]"

text \<open>The continuations that \<open>cancel_timeout\<close> posts.\<close>

fun run_cont :: "('c, 'i) connection \<Rightarrow> 'e conn_cont \<Rightarrow> 'e conn_effect list result" where
  "run_cont c (K_Connect err next_iter) = p_handle_connect err next_iter c"
| "run_cont c (K_Read err n) = Inr (p_post_read_cb err n)"

text \<open>A read into a buffer: the bytes arrive in its memory, then its size is set.\<close>

definition fill_contig :: "string \<Rightarrow> contig_buffer \<Rightarrow> contig_buffer result" where
  "fill_contig data mb =
     rbind (memcpy (m_mem mb) 0 (map Some data)) (\<lambda>mem. Inr (contig_setSize (length data) (mb\<lparr>m_mem := mem\<rparr>)))"

definition async_write_bytes :: "string option \<Rightarrow> ('c, 'i) connection \<Rightarrow> 'e conn_effect list result" where
  "async_write_bytes bytes c = rbind (on_stream (\<lambda>s. E_Write s bytes) c) (\<lambda>e. Inr [e])"

definition p_async_write :: "memory \<Rightarrow> nat \<Rightarrow> ('c, 'i) connection \<Rightarrow> 'e conn_effect list result" where
  "p_async_write data len c = async_write_bytes (read_bytes data len) c"

definition conn_async_write_chain :: "buffer_chain \<Rightarrow> ('c, 'i) connection \<Rightarrow> 'e conn_effect list result" where
  "conn_async_write_chain ch c = async_write_bytes (buffersequence_to_string (asio_buffer_sequence ch)) c"

definition conn_async_write_contig :: "contig_buffer \<Rightarrow> ('c, 'i) connection \<Rightarrow> 'e conn_effect list result" where
  "conn_async_write_contig b c = p_async_write (contig_data b) (contig_size b) c"

definition conn_async_write_string :: "string \<Rightarrow> ('c, 'i) connection \<Rightarrow> 'e conn_effect list result" where
  "conn_async_write_string s c = p_async_write (map Some s) (length s) c"

definition conn_async_write_streambuf :: "string \<Rightarrow> ('c, 'i) connection \<Rightarrow> 'e conn_effect list result" where
  "conn_async_write_streambuf sb c = async_write_bytes (Some sb) c"

definition conn_async_write_const :: "const_buffer \<Rightarrow> ('c, 'i) connection \<Rightarrow> 'e conn_effect list result" where
  "conn_async_write_const b c = async_write_bytes (read_bytes (cb_data b) (cb_size b)) c"

definition conn_async_write_ptr :: "memory \<Rightarrow> nat \<Rightarrow> ('c, 'i) connection \<Rightarrow> 'e conn_effect list result" where
  "conn_async_write_ptr data len c = async_write_bytes (read_bytes data len) c"

definition on_write_complete :: "error_code \<Rightarrow> nat \<Rightarrow> 'e conn_effect list" where
  "on_write_complete err n = p_post_write_cb err n"

section \<open>Invariant\<close>

text \<open>A secured connection has a TLS stream; only a client has a server certificate.\<close>

definition conn_inv :: "('c, 'i) connection \<Rightarrow> bool" where
  "conn_inv c \<longleftrightarrow> (c_mode c \<noteq> NOTSECURE \<longrightarrow> m_ssl_stream_sptr c \<noteq> None) \<and>
     (m_server_certificate c \<noteq> None \<longrightarrow> c_mode c = SECURE_CLIENT)"

lemma conn_inv_new [simp]: "conn_inv (Connection_client g sc sv pt)" "conn_inv (Connection_server g j)"
  by (simp_all add: conn_inv_def Connection_client_def Connection_server_def)

lemma conn_inv_ops:
  "conn_inv c \<Longrightarrow> become_secure_client st c = Inr c' \<Longrightarrow> conn_inv c'"
  "conn_inv c \<Longrightarrow> become_secure_server i c = Inr c' \<Longrightarrow> conn_inv c'"
  "conn_inv c \<Longrightarrow> conn_close c = Inr (c', es) \<Longrightarrow> conn_inv c'"
  "conn_inv c \<Longrightarrow> conn_inv (set_read_timeout ms c)"
  "conn_inv c \<Longrightarrow> conn_inv (fst (p_handle_handshake x err c))"
  by (auto simp: conn_inv_def become_secure_client_def become_secure_server_def conn_close_def
      set_read_timeout_def p_handle_handshake_def Let_def split: if_splits)

lemma on_stream_ok [simp]:
  "conn_inv c \<Longrightarrow> on_stream f c = Inr (f (c_mode c \<noteq> NOTSECURE))"
  by (auto simp: conn_inv_def on_stream_def)

text \<open>
  Every write overload sends, over TLS exactly when the connection is secured, the bytes its buffer
  holds: the contents of a well-formed buffer or chain, or the string; and starts nothing else, in
  particular no timeout, although the connection keeps a write timeout interval.
\<close>

theorem writes_send_contents:
  assumes "conn_inv c" "chain_inv ch" "contig_inv mb"
  shows "conn_async_write_chain ch c = Inr [E_Write (c_mode c \<noteq> NOTSECURE) (Some (chain_content ch)) :: 'e conn_effect] \<and>
         conn_async_write_contig mb c = Inr [E_Write (c_mode c \<noteq> NOTSECURE) (Some (contig_content mb)) :: 'e conn_effect] \<and>
         conn_async_write_string s c = Inr [E_Write (c_mode c \<noteq> NOTSECURE) (Some s) :: 'e conn_effect] \<and>
         conn_async_write_streambuf s c = Inr [E_Write (c_mode c \<noteq> NOTSECURE) (Some s) :: 'e conn_effect] \<and>
         conn_async_write_const (mb_as_const_buffer mb) c =
           Inr [E_Write (c_mode c \<noteq> NOTSECURE) (Some (contig_content mb)) :: 'e conn_effect]"
proof -
  have "read_bytes (contig_data mb) (contig_size mb) = Some (contig_content mb)"
    using asio_view_content [OF assms(3)] by (simp add: mb_as_const_buffer_def)
  moreover have "read_bytes (map Some s) (length s) = Some s" by (simp add: read_bytes_def list_all_iff comp_def)
  ultimately show ?thesis
    using assms
    by (simp add: conn_async_write_chain_def conn_async_write_contig_def conn_async_write_string_def
        conn_async_write_streambuf_def conn_async_write_const_def p_async_write_def async_write_bytes_def
        asio_sequence_content asio_view_content)
qed

theorem writes_send_contents_witness:
  "conn_async_write_string ''x'' (Connection_client default_config [] [] [] :: (nat, nat) connection) =
     Inr [E_Write False (Some ''x'') :: nat conn_effect]"
proof -
  let ?c = "Connection_client default_config [] [] [] :: (nat, nat) connection"
  have "c_mode ?c = NOTSECURE" by (simp add: Connection_client_def)
  then show ?thesis
    using writes_send_contents [where 'e = nat and c = ?c and ch = sample_chain and mb = sample_buffer and s = "''x''"]
      sample_chain_inv sample_buffer_inv by simp
qed

section \<open>Connecting\<close>

text \<open>
  A connect attempt driven to its end. \<open>outcome\<close> gives the result of connecting to an endpoint and \<open>hs\<close>
  that of the handshake, with the peer's certificate. The effects of all stages are collected.
\<close>

fun drive_connect ::
    "('e \<Rightarrow> error_code) \<Rightarrow> 'c \<Rightarrow> error_code \<Rightarrow> ('c, 'i) connection \<Rightarrow> 'e \<Rightarrow> 'e list \<Rightarrow> 'e conn_effect list result" where
  "drive_connect outcome cert hs c ep rest =
     rbind (run_cont c (K_Connect (outcome ep) rest)) (\<lambda>effs.
       (case rest of
          ep' # rest' \<Rightarrow>
            if ec_failed (outcome ep) then
              rbind (drive_connect outcome cert hs c ep' rest') (\<lambda>es. Inr (on_connect (outcome ep) rest @ effs @ es))
            else Inr (on_connect (outcome ep) rest @ effs @
                   (if c_mode c = NOTSECURE then [] else snd (p_handle_handshake cert hs c)))
        | [] \<Rightarrow> Inr (on_connect (outcome ep) rest @ effs @
                   (if ec_failed (outcome ep) \<or> c_mode c = NOTSECURE then []
                    else snd (p_handle_handshake cert hs c)))))"

definition drive ::
    "error_code \<Rightarrow> error_code \<Rightarrow> ('e \<Rightarrow> error_code) \<Rightarrow> 'c \<Rightarrow> error_code \<Rightarrow> 'e list \<Rightarrow> ('c, 'i) connection \<Rightarrow>
     'e conn_effect list result" where
  "drive host_unreachable resolve_err outcome cert hs eps c =
     (let effs = async_connect c @ p_handle_resolve host_unreachable resolve_err eps c in
      case eps of
        [] \<Rightarrow> Inr effs
      | ep # rest \<Rightarrow>
          if ec_failed resolve_err then Inr effs
          else rbind (drive_connect outcome cert hs c ep rest) (\<lambda>es. Inr (effs @ es)))"

fun connects :: "'e conn_effect list \<Rightarrow> 'e list" where
  "connects [] = []"
| "connects (E_Connect e # es) = e # connects es"
| "connects (_ # es) = connects es"

fun connect_posts :: "'e conn_effect list \<Rightarrow> (error_code \<times> bool) list" where
  "connect_posts [] = []"
| "connect_posts (E_Post_Connect e b # es) = (e, b) # connect_posts es"
| "connect_posts (_ # es) = connect_posts es"

lemma connects_append [simp]: "connects (xs @ ys) = connects xs @ connects ys"
  by (induction xs rule: connects.induct) simp_all

lemma connect_posts_append [simp]: "connect_posts (xs @ ys) = connect_posts xs @ connect_posts ys"
  by (induction xs rule: connect_posts.induct) simp_all

text \<open>The endpoints a client should try and the result it should report.\<close>

fun tried :: "('e \<Rightarrow> error_code) \<Rightarrow> 'e list \<Rightarrow> 'e list" where
  "tried outcome [] = []"
| "tried outcome (ep # eps) = (if ec_failed (outcome ep) then ep # tried outcome eps else [ep])"

definition reported :: "('e \<Rightarrow> error_code) \<Rightarrow> error_code \<Rightarrow> conn_mode \<Rightarrow> 'e list \<Rightarrow> error_code" where
  "reported outcome hs md eps =
     (let e = outcome (last (tried outcome eps)) in if ec_failed e \<or> md = NOTSECURE then e else hs)"

lemma tried_nonempty [simp]: "tried outcome (ep # eps) \<noteq> []"
  by simp

lemma drive_connect_ok:
  assumes "conn_inv c"
  shows "\<exists>es. drive_connect outcome cert hs c ep rest = Inr es \<and>
              ep # connects es = tried outcome (ep # rest) \<and>
              connect_posts es = [(reported outcome hs (c_mode c) (ep # rest),
                                   \<not> ec_failed (reported outcome hs (c_mode c) (ep # rest)))]"
  using assms
proof (induction rest arbitrary: ep)
  case Nil
  then show ?case
    by (cases "c_mode c")
      (auto simp: p_handle_connect_def p_start_handshake_def p_handle_handshake_def p_post_connect_cb_def
        on_connect_def reported_def conn_inv_def Let_def)
next
  case (Cons ep' rest')
  show ?case
  proof (cases "ec_failed (outcome ep)")
    case True
    obtain es where es: "drive_connect outcome cert hs c ep' rest' = Inr es"
        "ep' # connects es = tried outcome (ep' # rest')"
        "connect_posts es = [(reported outcome hs (c_mode c) (ep' # rest'),
                              \<not> ec_failed (reported outcome hs (c_mode c) (ep' # rest')))]"
      using Cons by blast
    have "reported outcome hs (c_mode c) (ep # ep' # rest') = reported outcome hs (c_mode c) (ep' # rest')"
      using True by (simp add: reported_def)
    then show ?thesis using True es by (simp add: p_handle_connect_def on_connect_def)
  next
    case False
    then show ?thesis using Cons.prems
      by (cases "c_mode c")
        (auto simp: p_handle_connect_def p_start_handshake_def p_handle_handshake_def p_post_connect_cb_def
          on_connect_def reported_def conn_inv_def Let_def)
  qed
qed



section \<open>The type of a connection\<close>

text \<open>
  What the fields of a connection are in each mode. A plain connection has no TLS object; a client's stream
  verifies the peer against its store, by the settings of the stream; a server's stream has the identity.
\<close>

definition conn_wt :: "('c, 'i) connection \<Rightarrow> bool" where
  "conn_wt c =
     (case c_mode c of
        NOTSECURE \<Rightarrow>
          m_ssl_ctx_sptr c = None \<and> m_ssl_stream_sptr c = None \<and> m_certificate_store_ptr c = None \<and>
          m_server_certificate c = None \<and> m_server_identity c = None
      | SECURE_CLIENT \<Rightarrow>
          m_certificate_store_ptr c \<noteq> None \<and> m_server_identity c = None \<and>
          map_option tc_host (m_ssl_ctx_sptr c) = Some (Some (c_server c)) \<and>
          m_ssl_stream_sptr c = Some (Client_Stream
            \<lparr>tc_store = m_certificate_store_ptr c, tc_verify_peer = True, tc_host = None, tc_crl_check = False\<rparr> (Some (c_server c)))
      | SECURE_SERVER \<Rightarrow>
          m_server_certificate c = None \<and> m_certificate_store_ptr c = None \<and>
          (case m_server_identity c of None \<Rightarrow> False | Some i \<Rightarrow> m_ssl_stream_sptr c = Some (Server_Stream i)))"

text \<open>The operations that change a connection, as its users may call them in any order.\<close>

datatype ('c, 'i) conn_op =
    Op_Secure_Client nat
  | Op_Secure_Server 'i
  | Op_Shaken 'c error_code
  | Op_Read_Timeout int
  | Op_Close

fun conn_op_step :: "('c, 'i) conn_op \<Rightarrow> ('c, 'i) connection \<Rightarrow> ('c, 'i) connection result" where
  "conn_op_step (Op_Secure_Client store) c = become_secure_client store c"
| "conn_op_step (Op_Secure_Server identity) c = become_secure_server identity c"
| "conn_op_step (Op_Shaken peer err) c = Inr (fst (p_handle_handshake peer err c :: _ \<times> nat conn_effect list))"
| "conn_op_step (Op_Read_Timeout ms) c = Inr (set_read_timeout ms c)"
| "conn_op_step Op_Close c = rbind (conn_close c) (\<lambda>(c', es :: nat conn_effect list). Inr c')"

lemma conn_wt_new: "conn_wt (Connection_client g sc sv pt)" "conn_wt (Connection_server g j)"
  by (simp_all add: conn_wt_def Connection_client_def Connection_server_def)

lemma conn_wt_step: "conn_wt c \<Longrightarrow> conn_op_step opn c = Inr c' \<Longrightarrow> conn_wt c'"
  by (cases opn; cases "c_mode c")
    (auto simp: conn_wt_def become_secure_client_def become_secure_server_def p_handle_handshake_def set_read_timeout_def
      conn_close_def tls_context_new_def set1_param_def Let_def rbind_Inr_iff split: if_splits option.splits)

lemma conn_wt_run: "conn_wt c \<Longrightarrow> rfold conn_op_step ops c = Inr c' \<Longrightarrow> conn_wt c'"
proof (induction ops arbitrary: c)
  case (Cons opn ops)
  then show ?case using conn_wt_step by (auto simp: rbind_Inr_iff)
qed simp

lemma conn_wt_inv: "conn_wt c \<Longrightarrow> conn_inv c"
  by (cases "c_mode c") (auto simp: conn_wt_def conn_inv_def split: option.splits)



section \<open>Securing and closing\<close>

text \<open>
  A connection is secured at most once and handshakes only when secured, in its own role. A client asks by SNI for
  the server it was made for and verifies the peer against the store, but not its name: the name enters the
  context when the stream has been made. The server's certificate is available exactly after a successful
  client handshake; a second \<open>close\<close> stops at an assertion.
\<close>

theorem secure_once:
  assumes "conn_inv c" "c_mode c = NOTSECURE"
  shows "async_handshake c = (Inl Bad_Handshake_Type :: 'e conn_effect list result) \<and>
    (\<exists>c1. become_secure_client st c = Inr c1 \<and> conn_inv c1 \<and>
       m_ssl_stream_sptr c1 = Some (Client_Stream
         \<lparr>tc_store = Some st, tc_verify_peer = True, tc_host = None, tc_crl_check = False\<rparr> (Some (c_server c))) \<and>
       map_option tc_host (m_ssl_ctx_sptr c1) = Some (Some (c_server c)) \<and> async_handshake c1 = Inr [E_Handshake SECURE_CLIENT :: 'e conn_effect] \<and>
       become_secure_client st c1 = Inl Already_Secured \<and> become_secure_server i c1 = Inl Already_Secured \<and>
       get_server_certificate c1 = Inl No_Server_Certificate \<and>
       get_server_certificate (fst (p_handle_handshake x err c1 :: _ \<times> 'e conn_effect list)) =
         (if ec_failed err then Inl No_Server_Certificate else Inr x)) \<and>
    (\<exists>c2. become_secure_server i c = Inr c2 \<and> conn_inv c2 \<and> async_handshake c2 = Inr [E_Handshake SECURE_SERVER :: 'e conn_effect] \<and>
       get_server_certificate (fst (p_handle_handshake x err c2 :: _ \<times> 'e conn_effect list)) = Inl No_Server_Certificate) \<and>
    (\<forall>c' es. conn_close c = Inr (c', es :: 'e conn_effect list) \<longrightarrow> conn_close c' = (Inl Assert_Failed :: (_ \<times> 'e conn_effect list) result))"
  using assms
  by (auto simp: conn_inv_def async_handshake_def p_start_handshake_def become_secure_client_def
      become_secure_server_def get_server_certificate_def p_handle_handshake_def conn_close_def tls_context_new_def set1_param_def
      Let_def split: option.splits if_splits)

theorem secure_once_witness:
  "(async_handshake (Connection_client default_config [] [] [] :: (nat, nat) connection) :: nat conn_effect list result) =
     Inl Bad_Handshake_Type"
proof -
  let ?c = "Connection_client default_config [] [] [] :: (nat, nat) connection"
  have "c_mode ?c = NOTSECURE" by (simp add: Connection_client_def)
  then show ?thesis
    using secure_once [where 'e = nat and c = ?c and i = "0 :: nat" and x = "0 :: nat" and err = make_error_ok] by simp
qed

section \<open>Filling a buffer\<close>

text \<open>What a relay relies on: a buffer that holds exactly what was last read into it.\<close>

locale refillable =
  fixes fill :: "string \<Rightarrow> 'b \<Rightarrow> 'b result"
    and content :: "'b \<Rightarrow> string"
    and inv :: "'b \<Rightarrow> bool"
    and room :: "'b \<Rightarrow> nat"
  assumes fill_ok: "inv b \<Longrightarrow> length d \<le> room b \<Longrightarrow>
      \<exists>b'. fill d b = Inr b' \<and> inv b' \<and> content b' = d \<and> room b' = room b"
begin

lemma fill_all:
  assumes "inv b" "list_all (\<lambda>d. length d \<le> room b) ds"
  shows "\<exists>b'. rfold fill ds b = Inr b' \<and> inv b' \<and> room b' = room b \<and>
              content b' = (if ds = [] then content b else last ds)"
  using assms
proof (induction ds arbitrary: b)
  case (Cons d ds)
  then obtain b1 where "fill d b = Inr b1" "inv b1" "content b1 = d" "room b1 = room b"
    using fill_ok [of b d] by auto
  then show ?case using Cons.IH [of b1] Cons.prems by (cases ds) auto
qed simp

end

lemma fill_contig_ok:
  assumes "contig_inv b" "length d \<le> contig_capacity b"
  shows "\<exists>b'. fill_contig d b = Inr b' \<and> contig_inv b' \<and> contig_content b' = d \<and> contig_capacity b' = contig_capacity b"
  using assms
  by (auto simp: fill_contig_def memcpy_def contig_setSize_def contig_inv_def contig_capacity_def contig_content_def
      list_all_iff comp_def)

interpretation refill: refillable fill_contig contig_content contig_inv contig_capacity
  by unfold_locales (rule fill_contig_ok)

end
