(* ===== verification/Parser.thy ===== *)
theory Parser
  imports Message
begin

text \<open>
  \<open>marvin/http/parser.cpp\<close>: the wrapper that turns the call-backs of the \<open>http-parser\<close> library into a
  message. The library is not part of the sources: it is the argument \<open>lib\<close>, a record of the functions
  the wrapper calls, over an abstract state. \<open>lib_execute\<close> returns the call-backs that one call of
  \<open>http_parser_execute\<close> makes, in order and with the fields of the C structure that they read, the number
  of bytes parsed and the state after it. The wrapper's call-backs all return 0 and the last one pauses
  the library, so the reaction of the library to them is fixed and part of \<open>lib_execute\<close>.

  Lengths are lengths of buffers in memory; the conversions to \<open>unsigned\<close> and \<open>int\<close> lose nothing below
  \<open>2 ^ 31\<close>. The current message is a shared pointer, null before \<open>begin\<close>.
\<close>

section \<open>The library\<close>

datatype cb_event =
    On_Message_Begin
  | On_Url string
  | On_Status int string
  | On_Header_Field string
  | On_Header_Value string
  | On_Headers_Complete int int int
  | On_Body string
  | On_Chunk_Header
  | On_Chunk_Complete
  | On_Message_Complete

record 'h http_parser_lib =
  lib_init :: 'h
  lib_execute :: "'h \<Rightarrow> string \<Rightarrow> cb_event list \<times> nat \<times> 'h"
  lib_errno :: "'h \<Rightarrow> int"
  lib_HPE_PAUSED :: int
  lib_errno_name :: "int \<Rightarrow> string"
  lib_errno_description :: "int \<Rightarrow> string"

section \<open>State\<close>

definition kHEADER_STATE_NOTHING :: int where "kHEADER_STATE_NOTHING = 10"
definition kHEADER_STATE_FIELD :: int where "kHEADER_STATE_FIELD = 11"
definition kHEADER_STATE_VALUE :: int where "kHEADER_STATE_VALUE = 12"

lemmas header_state_defs = kHEADER_STATE_NOTHING_def kHEADER_STATE_FIELD_def kHEADER_STATE_VALUE_def

datatype return_code = RC_error | RC_end_of_header | RC_end_of_message | RC_end_of_data

record return_value =
  return_code :: return_code
  bytes_remaining :: nat

record parser_error =
  pe_name :: string
  pe_description :: string
  pe_err_number :: int

record 'h parser =
  started :: bool
  header_done :: bool
  message_done :: bool
  header_state :: int
  m_http_parser_ptr :: "'h option"
  m_current_message_sptr :: "message option"
  url_stringbuf :: string
  status_stringbuf :: string
  name_stringbuf :: string
  value_stringbuf :: string

text \<open>The constructor leaves \<open>started\<close> indeterminate.\<close>

definition Parser_new :: "bool \<Rightarrow> 'h parser" where
  "Parser_new junk =
     \<lparr>started = junk, header_done = False, message_done = False, header_state = kHEADER_STATE_NOTHING,
      m_http_parser_ptr = None, m_current_message_sptr = None,
      url_stringbuf = [], status_stringbuf = [], name_stringbuf = [], value_stringbuf = []\<rparr>"

definition p_initialize :: "'h http_parser_lib \<Rightarrow> 'h parser \<Rightarrow> 'h parser" where
  "p_initialize lib p =
     p\<lparr>header_state := kHEADER_STATE_NOTHING, started := False, message_done := False, header_done := False,
       m_current_message_sptr := None, m_http_parser_ptr := Some (lib_init lib),
       status_stringbuf := [], url_stringbuf := [], name_stringbuf := [], value_stringbuf := []\<rparr>"

definition parser_begin :: "'h http_parser_lib \<Rightarrow> message option \<Rightarrow> 'h parser \<Rightarrow> 'h parser" where
  "parser_begin lib msg p = (p_initialize lib p)\<lparr>m_current_message_sptr := msg\<rparr>"

section \<open>Call-backs\<close>

text \<open>A member call through \<open>current_message()\<close>.\<close>

definition on_message :: "(message \<Rightarrow> message) \<Rightarrow> 'h parser \<Rightarrow> 'h parser result" where
  "on_message f p =
     rbind (deref (m_current_message_sptr p)) (\<lambda>m. Inr (p\<lparr>m_current_message_sptr := Some (f m)\<rparr>))"

definition p_on_message_begin :: "'h parser \<Rightarrow> 'h parser result" where
  "p_on_message_begin p =
     Inr (p\<lparr>status_stringbuf := [], url_stringbuf := [], name_stringbuf := [], value_stringbuf := []\<rparr>)"

definition p_on_url_data :: "string \<Rightarrow> 'h parser \<Rightarrow> 'h parser result" where
  "p_on_url_data s p =
     rbind (on_message (set_is_request True) p) (\<lambda>p. Inr (p\<lparr>url_stringbuf := url_stringbuf p @ s\<rparr>))"

definition p_on_status_data :: "int \<Rightarrow> string \<Rightarrow> 'h parser \<Rightarrow> 'h parser result" where
  "p_on_status_data sc s p =
     rbind (on_message (\<lambda>m. msg_status_code sc (set_is_request False m)) p) (\<lambda>p.
       Inr (p\<lparr>status_stringbuf := status_stringbuf p @ s\<rparr>))"

definition p_on_header_field_data :: "string \<Rightarrow> 'h parser \<Rightarrow> 'h parser result" where
  "p_on_header_field_data s p =
     (let state = header_state p in
      rbind (if state = 0 \<or> state = kHEADER_STATE_NOTHING \<or> state = kHEADER_STATE_VALUE then
               rbind (if name_stringbuf p \<noteq> [] then
                        rbind (on_message (set_header_ptr (name_stringbuf p) (value_stringbuf p)) p) (\<lambda>p.
                          Inr (p\<lparr>name_stringbuf := [], value_stringbuf := []\<rparr>))
                      else Inr p) (\<lambda>p.
                 Inr (p\<lparr>name_stringbuf := name_stringbuf p @ s\<rparr>))
             else if state = kHEADER_STATE_FIELD then Inr (p\<lparr>name_stringbuf := name_stringbuf p @ s\<rparr>)
             else Inl Assert_Failed) (\<lambda>p.
        Inr (p\<lparr>header_state := kHEADER_STATE_FIELD\<rparr>)))"

definition p_on_header_value_data :: "string \<Rightarrow> 'h parser \<Rightarrow> 'h parser result" where
  "p_on_header_value_data s p =
     (let state = header_state p in
      rbind (if state = kHEADER_STATE_FIELD then Inr (p\<lparr>value_stringbuf := s\<rparr>)
             else if state = kHEADER_STATE_VALUE then Inr (p\<lparr>value_stringbuf := value_stringbuf p @ s\<rparr>)
             else Inl Assert_Failed) (\<lambda>p.
        Inr (p\<lparr>header_state := kHEADER_STATE_VALUE\<rparr>)))"

definition p_on_headers_complete :: "int \<Rightarrow> int \<Rightarrow> int \<Rightarrow> 'h parser \<Rightarrow> 'h parser result" where
  "p_on_headers_complete http_major http_minor mth p =
     rbind (if name_stringbuf p \<noteq> [] then
              rbind (on_message (set_header (name_stringbuf p) (value_stringbuf p)) p) (\<lambda>p.
                Inr (p\<lparr>name_stringbuf := [], value_stringbuf := []\<rparr>))
            else Inr p) (\<lambda>p.
     rbind (on_message (msg_version http_major http_minor) p) (\<lambda>p.
     rbind (if url_stringbuf p = [] then Inr p
            else on_message (\<lambda>m. msg_target (url_stringbuf p) (msg_method mth m)) p) (\<lambda>p.
     rbind (if status_stringbuf p = [] then Inr p
            else on_message (msg_reason (status_stringbuf p)) p) (\<lambda>p.
       Inr (p\<lparr>header_done := True\<rparr>)))))"

definition p_on_body_data :: "string \<Rightarrow> 'h parser \<Rightarrow> 'h parser result" where
  "p_on_body_data s p =
     rbind (deref (m_current_message_sptr p)) (\<lambda>m.
     rbind (case m_body_chain_sptr m of
              None \<Rightarrow> rbind (makeSPtr BodyAllocator) (\<lambda>mb. Inr (makeBufferChainSPtr_contig mb))
            | Some c \<Rightarrow> Inr c) (\<lambda>chain.
     rbind (chain_append s chain) (\<lambda>chain'.
       Inr (p\<lparr>m_current_message_sptr := Some (set_body_buffer_chain (Some chain') m)\<rparr>))))"

definition p_on_chunk_header :: "'h parser \<Rightarrow> 'h parser result" where
  "p_on_chunk_header p = Inr p"

definition p_on_chunk_complete :: "'h parser \<Rightarrow> 'h parser result" where
  "p_on_chunk_complete p = Inr p"

definition p_on_message_complete :: "'h parser \<Rightarrow> 'h parser result" where
  "p_on_message_complete p = Inr (p\<lparr>message_done := True\<rparr>)"

text \<open>The C call-backs, one per event, forward to the member functions.\<close>

fun on_event :: "cb_event \<Rightarrow> 'h parser \<Rightarrow> 'h parser result" where
  "on_event On_Message_Begin p = p_on_message_begin p"
| "on_event (On_Url s) p = p_on_url_data s p"
| "on_event (On_Status sc s) p = p_on_status_data sc s p"
| "on_event (On_Header_Field s) p = p_on_header_field_data s p"
| "on_event (On_Header_Value s) p = p_on_header_value_data s p"
| "on_event (On_Headers_Complete ma mi mth) p = p_on_headers_complete ma mi mth p"
| "on_event (On_Body s) p = p_on_body_data s p"
| "on_event On_Chunk_Header p = p_on_chunk_header p"
| "on_event On_Chunk_Complete p = p_on_chunk_complete p"
| "on_event On_Message_Complete p = p_on_message_complete p"

section \<open>Feeding bytes\<close>

definition http_parser_execute :: "'h http_parser_lib \<Rightarrow> string \<Rightarrow> 'h parser \<Rightarrow> (nat \<times> 'h parser) result" where
  "http_parser_execute lib buf p =
     rbind (deref (m_http_parser_ptr p)) (\<lambda>h.
       case lib_execute lib h buf of (evs, nparsed, h') \<Rightarrow>
         rbind (rfold on_event evs p) (\<lambda>p'. Inr (nparsed, p'\<lparr>m_http_parser_ptr := Some h'\<rparr>)))"

definition appendBytes :: "'h http_parser_lib \<Rightarrow> string \<Rightarrow> 'h parser \<Rightarrow> (nat \<times> 'h parser) result" where
  "appendBytes lib buffer p = http_parser_execute lib buffer p"

definition get_errno :: "'h http_parser_lib \<Rightarrow> 'h parser \<Rightarrow> int result" where
  "get_errno lib p = rbind (deref (m_http_parser_ptr p)) (\<lambda>h. Inr (lib_errno lib h))"

definition get_error :: "'h http_parser_lib \<Rightarrow> 'h parser \<Rightarrow> parser_error result" where
  "get_error lib p =
     rbind (deref (m_http_parser_ptr p)) (\<lambda>h.
       (let x = lib_errno lib h in
        Inr \<lparr>pe_name = lib_errno_name lib x, pe_description = lib_errno_description lib x, pe_err_number = x\<rparr>))"

definition is_error :: "'h http_parser_lib \<Rightarrow> 'h parser \<Rightarrow> bool result" where
  "is_error lib p =
     rbind (deref (m_http_parser_ptr p)) (\<lambda>h.
       Inr (lib_errno lib h \<noteq> 0 \<and> lib_errno lib h \<noteq> lib_HPE_PAUSED lib))"

text \<open>
  The loop of \<open>consume\<close> on a buffer. It ends when all bytes are parsed or by an early return; \<open>fuel\<close>
  bounds its iterations and \<^term>\<open>None\<close> is a loop still running.
\<close>

fun consume_loop ::
    "nat \<Rightarrow> 'h http_parser_lib \<Rightarrow> string \<Rightarrow> bool \<Rightarrow> nat \<Rightarrow> return_value \<Rightarrow> 'h parser \<Rightarrow>
     (return_value \<times> 'h parser) result option" where
  "consume_loop 0 lib buf only_header total_parsed rv p = None"
| "consume_loop (Suc fuel) lib buf only_header total_parsed rv p =
     (if total_parsed < length buf then
        (case rbind (appendBytes lib (drop total_parsed buf) p) (\<lambda>(nparsed, p).
                rbind (is_error lib p) (\<lambda>e. Inr (nparsed, p, e))) of
           Inl x \<Rightarrow> Some (Inl x)
         | Inr (nparsed, p, e) \<Rightarrow>
             (let rv = rv\<lparr>bytes_remaining := size_sub (length buf) nparsed\<rparr> in
              if e then Some (Inr (rv\<lparr>return_code := RC_error\<rparr>, p))
              else if message_done p then Some (Inr (rv\<lparr>return_code := RC_end_of_message\<rparr>, p))
              else if header_done p then
                (if only_header then Some (Inr (rv\<lparr>return_code := RC_end_of_header\<rparr>, p))
                 else consume_loop fuel lib buf only_header (total_parsed + nparsed)
                        (rv\<lparr>return_code := RC_end_of_header\<rparr>) p)
              else consume_loop fuel lib buf only_header (total_parsed + nparsed) rv p))
      else Some (Inr (rv, p)))"

definition consume_buf ::
    "nat \<Rightarrow> 'h http_parser_lib \<Rightarrow> string \<Rightarrow> bool \<Rightarrow> 'h parser \<Rightarrow> (return_value \<times> 'h parser) result option" where
  "consume_buf fuel lib buf only_header p =
     consume_loop fuel lib buf only_header 0
       \<lparr>return_code = RC_end_of_data, bytes_remaining = length buf\<rparr> (p\<lparr>started := True\<rparr>)"

text \<open>
  \<open>consume\<close> on a \<open>streambuf\<close>, whose readable bytes are a string; \<open>streambuf.consume\<close> drops at most what
  is there. A value-initialised \<open>ReturnValue\<close> has the first enumerator, \<open>error\<close>.
\<close>

fun consume_stream_loop ::
    "nat \<Rightarrow> 'h http_parser_lib \<Rightarrow> bool \<Rightarrow> return_value \<Rightarrow> string \<Rightarrow> 'h parser \<Rightarrow>
     (return_value \<times> string \<times> 'h parser) result option" where
  "consume_stream_loop 0 lib only_header rv sb p = None"
| "consume_stream_loop (Suc fuel) lib only_header rv sb p =
     (if sb \<noteq> [] then
        (case consume_buf fuel lib sb only_header p of
           None \<Rightarrow> None
         | Some (Inl e) \<Rightarrow> Some (Inl e)
         | Some (Inr (rv, p)) \<Rightarrow>
             (let sb = drop (size_sub (length sb) (bytes_remaining rv)) sb in
              (case return_code rv of
                 RC_error \<Rightarrow> Some (Inr (rv, sb, p))
               | RC_end_of_message \<Rightarrow> Some (Inr (rv, sb, p))
               | RC_end_of_header \<Rightarrow>
                   if only_header then Some (Inr (rv, sb, p))
                   else consume_stream_loop fuel lib only_header rv sb p
               | RC_end_of_data \<Rightarrow> consume_stream_loop fuel lib only_header rv sb p)))
      else Some (Inr (rv, sb, p)))"

definition consume_stream ::
    "nat \<Rightarrow> 'h http_parser_lib \<Rightarrow> string \<Rightarrow> bool \<Rightarrow> 'h parser \<Rightarrow>
     (return_value \<times> string \<times> 'h parser) result option" where
  "consume_stream fuel lib sb only_header p =
     consume_stream_loop fuel lib only_header \<lparr>return_code = RC_error, bytes_remaining = 0\<rparr> sb
       (p\<lparr>started := True\<rparr>)"

definition parser_end :: "'h http_parser_lib \<Rightarrow> 'h parser \<Rightarrow> (return_value \<times> 'h parser) result" where
  "parser_end lib p =
     (let rv = \<lparr>return_code = RC_end_of_data, bytes_remaining = 0\<rparr> in
      if \<not> message_done p then
        rbind (if started p then rbind (http_parser_execute lib [] p) (\<lambda>(nparsed, p). Inr p) else Inr p) (\<lambda>p.
        rbind (is_error lib p) (\<lambda>e.
          if e then Inr (rv\<lparr>return_code := RC_error\<rparr>, p)
          else if message_done p then Inr (rv\<lparr>return_code := RC_end_of_message\<rparr>, p)
          else if header_done p then Inr (rv\<lparr>return_code := RC_end_of_header\<rparr>, p)
          else Inr (rv, p)))
      else Inr (rv, p))"

definition append_eof :: "'h http_parser_lib \<Rightarrow> 'h parser \<Rightarrow> 'h parser result" where
  "append_eof lib p =
     (if \<not> message_done p then rbind (http_parser_execute lib [] p) (\<lambda>(nparsed, p). Inr p) else Inr p)"

lemmas callback_defs =
  p_on_message_begin_def p_on_url_data_def p_on_status_data_def p_on_header_field_data_def
  p_on_header_value_data_def p_on_headers_complete_def p_on_body_data_def p_on_chunk_header_def
  p_on_chunk_complete_def p_on_message_complete_def on_message_def

section \<open>Assembling a message from fragments\<close>

text \<open>
  The library may deliver every element in any number of fragments. A header is a non-empty list of name
  fragments and a non-empty list of value fragments.
\<close>

type_synonym hdr_fragments = "string list \<times> string list"

fun header_events :: "hdr_fragments \<Rightarrow> cb_event list" where
  "header_events (fs, vs) = map On_Header_Field fs @ map On_Header_Value vs"

fun fragments_ok :: "hdr_fragments \<Rightarrow> bool" where
  "fragments_ok (fs, vs) \<longleftrightarrow> fs \<noteq> [] \<and> vs \<noteq> [] \<and> concat fs \<noteq> []"

fun joined :: "hdr_fragments \<Rightarrow> string \<times> string" where
  "joined (fs, vs) = (concat fs, concat vs)"

text \<open>What the wrapper makes of the headers of a message, given as joined pairs.\<close>

definition assembled :: "(string \<times> string) list \<Rightarrow> headers" where
  "assembled kvs =
     (if kvs = [] then []
      else set_at_key (fst (last kvs)) (trim (snd (last kvs)))
             (map (\<lambda>(k, v). \<lparr>fkey = to_upper k, fvalue = v\<rparr>) (butlast kvs)))"

definition flushed :: "'h parser \<Rightarrow> message \<Rightarrow> message" where
  "flushed p m = (if name_stringbuf p \<noteq> [] then set_header_ptr (name_stringbuf p) (value_stringbuf p) m else m)"

lemma run_more_fields:
  "header_state p = kHEADER_STATE_FIELD \<Longrightarrow>
   rfold on_event (map On_Header_Field fs) p = Inr (p\<lparr>name_stringbuf := name_stringbuf p @ concat fs\<rparr>)"
proof (induction fs arbitrary: p)
  case (Cons f fs)
  have "p_on_header_field_data f p = Inr (p\<lparr>name_stringbuf := name_stringbuf p @ f\<rparr>)"
    using Cons.prems by (simp add: p_on_header_field_data_def header_state_defs)
  then show ?case using Cons by simp
qed simp

lemma run_more_values:
  "header_state p = kHEADER_STATE_VALUE \<Longrightarrow>
   rfold on_event (map On_Header_Value vs) p = Inr (p\<lparr>value_stringbuf := value_stringbuf p @ concat vs\<rparr>)"
proof (induction vs arbitrary: p)
  case (Cons v vs)
  have "p_on_header_value_data v p = Inr (p\<lparr>value_stringbuf := value_stringbuf p @ v\<rparr>)"
    using Cons.prems by (simp add: p_on_header_value_data_def header_state_defs)
  then show ?case using Cons by simp
qed simp

lemma run_header:
  assumes "m_current_message_sptr p = Some m"
    and "header_state p = kHEADER_STATE_NOTHING \<or> header_state p = kHEADER_STATE_VALUE"
    and "fragments_ok fr"
  shows "rfold on_event (header_events fr) p =
     Inr (p\<lparr>m_current_message_sptr := Some (flushed p m), name_stringbuf := fst (joined fr),
            value_stringbuf := snd (joined fr), header_state := kHEADER_STATE_VALUE\<rparr>)"
proof -
  obtain f fs v vs where fr: "fr = (f # fs, v # vs)"
    using assms(3) by (cases fr) (metis fragments_ok.simps neq_Nil_conv)
  have f: "p_on_header_field_data f p =
      Inr (p\<lparr>m_current_message_sptr := Some (flushed p m), name_stringbuf := f,
             value_stringbuf := (if name_stringbuf p \<noteq> [] then [] else value_stringbuf p),
             header_state := kHEADER_STATE_FIELD\<rparr>)"
    using assms(1,2) by (auto simp: p_on_header_field_data_def on_message_def flushed_def header_state_defs)
  have v: "header_state q = kHEADER_STATE_FIELD \<Longrightarrow>
      p_on_header_value_data v q = Inr (q\<lparr>value_stringbuf := v, header_state := kHEADER_STATE_VALUE\<rparr>)" for q :: "'a parser"
    by (simp add: p_on_header_value_data_def)
  show ?thesis by (simp add: fr rfold_append f run_more_fields v run_more_values)
qed

lemma run_headers:
  assumes "m_current_message_sptr p = Some m"
    and "header_state p = kHEADER_STATE_VALUE" "name_stringbuf p \<noteq> []" "list_all fragments_ok frs"
  shows "\<exists>p' m'. rfold on_event (concat (map header_events frs)) p = Inr p' \<and>
           m_current_message_sptr p' = Some m' \<and>
           m' = m\<lparr>m_headers := m_headers m @ map (\<lambda>(k, v). \<lparr>fkey = to_upper k, fvalue = v\<rparr>)
                    (butlast ((name_stringbuf p, value_stringbuf p) # map joined frs))\<rparr> \<and>
           (name_stringbuf p', value_stringbuf p') = last ((name_stringbuf p, value_stringbuf p) # map joined frs) \<and>
           name_stringbuf p' \<noteq> [] \<and> url_stringbuf p' = url_stringbuf p \<and> status_stringbuf p' = status_stringbuf p \<and>
           started p' = started p \<and> message_done p' = message_done p"
  using assms
proof (induction frs arbitrary: p m)
  case (Cons fr frs)
  let ?m = "flushed p m"
  let ?p = "p\<lparr>m_current_message_sptr := Some ?m, name_stringbuf := fst (joined fr),
            value_stringbuf := snd (joined fr), header_state := kHEADER_STATE_VALUE\<rparr>"
  have r: "rfold on_event (header_events fr) p = Inr ?p" using run_header [of p m fr] Cons.prems by simp
  have ne: "fst (joined fr) \<noteq> []" using Cons.prems(4) by (cases fr) simp
  have h: "?m = m\<lparr>m_headers := m_headers m @ [\<lparr>fkey = to_upper (name_stringbuf p), fvalue = value_stringbuf p\<rparr>]\<rparr>"
    using Cons.prems(3) by (simp add: flushed_def set_header_ptr_def set_at_key_ptr_def)
  from Cons.IH [of ?p ?m] Cons.prems(4) ne
  obtain p' where "rfold on_event (concat (map header_events frs)) ?p = Inr p'"
      "m_current_message_sptr p' = Some (?m\<lparr>m_headers := m_headers ?m @ map (\<lambda>(k, v). \<lparr>fkey = to_upper k, fvalue = v\<rparr>)
                    (butlast (joined fr # map joined frs))\<rparr>)"
      "(name_stringbuf p', value_stringbuf p') = last (joined fr # map joined frs)"
      "name_stringbuf p' \<noteq> []" "url_stringbuf p' = url_stringbuf p" "status_stringbuf p' = status_stringbuf p"
      "started p' = started p" "message_done p' = message_done p"
    by auto
  then show ?case by (simp add: rfold_append r h)
qed simp

text \<open>The message at the end of its head, from the joined headers and the two start line buffers.\<close>

definition head_result :: "int \<Rightarrow> int \<Rightarrow> int \<Rightarrow> string \<Rightarrow> string \<Rightarrow> headers \<Rightarrow> message \<Rightarrow> message" where
  "head_result ma mi mth url status hs m =
     (let m1 = msg_version ma mi (m\<lparr>m_headers := hs\<rparr>);
          m2 = (if url = [] then m1 else msg_target url (msg_method mth m1)) in
      if status = [] then m2 else msg_reason status m2)"

text \<open>All headers of a message, up to and including the flush of the last one at the end of the head.\<close>

lemma run_head:
  assumes m: "m_current_message_sptr p = Some m" and st: "header_state p = kHEADER_STATE_NOTHING"
    and nm: "name_stringbuf p = []" and ok: "list_all fragments_ok frs" and hs: "m_headers m = []"
  shows "\<exists>p'. rfold on_event (concat (map header_events frs) @ [On_Headers_Complete ma mi mth]) p = Inr p' \<and>
     header_done p' \<and> started p' = started p \<and> message_done p' = message_done p \<and>
     m_current_message_sptr p' = Some
       (head_result ma mi mth (url_stringbuf p) (status_stringbuf p) (assembled (map joined frs)) m)"
proof (cases frs)
  case Nil
  have "m\<lparr>m_headers := []\<rparr> = m" using hs by (cases m) simp
  then show ?thesis using m nm Nil
    by (simp add: p_on_headers_complete_def on_message_def assembled_def head_result_def Let_def)
next
  case (Cons fr frs')
  let ?p = "p\<lparr>name_stringbuf := fst (joined fr), value_stringbuf := snd (joined fr),
              header_state := kHEADER_STATE_VALUE\<rparr>"
  have r: "rfold on_event (header_events fr) p = Inr ?p"
    using run_header [OF m, of fr] st ok Cons nm m by (simp add: flushed_def)
  have "fst (joined fr) \<noteq> []" using ok Cons by (cases fr) simp
  then obtain p' where p': "rfold on_event (concat (map header_events frs')) ?p = Inr p'"
      "m_current_message_sptr p' = Some (m\<lparr>m_headers := m_headers m @
          map (\<lambda>(k, v). \<lparr>fkey = to_upper k, fvalue = v\<rparr>) (butlast (map joined frs))\<rparr>)"
      "(name_stringbuf p', value_stringbuf p') = last (map joined frs)"
      "name_stringbuf p' \<noteq> []" "url_stringbuf p' = url_stringbuf p" "status_stringbuf p' = status_stringbuf p"
      "started p' = started p" "message_done p' = message_done p"
    using run_headers [of ?p m frs'] m ok Cons by auto
  have l: "name_stringbuf p' = fst (last (map joined frs))" "value_stringbuf p' = snd (last (map joined frs))"
    using p'(3) by (metis fst_conv, metis snd_conv)
  have a: "set_header (name_stringbuf p') (value_stringbuf p') (m\<lparr>m_headers := m_headers m @
          map (\<lambda>(k, v). \<lparr>fkey = to_upper k, fvalue = v\<rparr>) (butlast (map joined frs))\<rparr>) =
        m\<lparr>m_headers := assembled (map joined frs)\<rparr>"
    using hs Cons by (simp add: set_header_def assembled_def l)
  have "rfold on_event (concat (map header_events frs)) p = Inr p'" using Cons r p'(1) by (simp add: rfold_append)
  then show ?thesis using p' a
    by (simp add: rfold_append p_on_headers_complete_def on_message_def head_result_def Let_def)
qed

lemma run_urls:
  "m_current_message_sptr p = Some m \<Longrightarrow> us \<noteq> [] \<Longrightarrow>
   rfold on_event (map On_Url us) p =
     Inr (p\<lparr>m_current_message_sptr := Some (set_is_request True m), url_stringbuf := url_stringbuf p @ concat us\<rparr>)"
proof (induction us arbitrary: p m)
  case (Cons u us)
  have "p_on_url_data u p = Inr (p\<lparr>m_current_message_sptr := Some (set_is_request True m),
      url_stringbuf := url_stringbuf p @ u\<rparr>)"
    using Cons.prems by (simp add: p_on_url_data_def on_message_def)
  then show ?case using Cons.IH by (cases us) (simp_all add: set_is_request_def)
qed simp

lemma run_statuses:
  "m_current_message_sptr p = Some m \<Longrightarrow> ss \<noteq> [] \<Longrightarrow>
   rfold on_event (map (On_Status sc) ss) p =
     Inr (p\<lparr>m_current_message_sptr := Some (msg_status_code sc m), status_stringbuf := status_stringbuf p @ concat ss\<rparr>)"
proof (induction ss arbitrary: p m)
  case (Cons u us)
  have "p_on_status_data sc u p = Inr (p\<lparr>m_current_message_sptr := Some (msg_status_code sc m),
      status_stringbuf := status_stringbuf p @ u\<rparr>)"
    using Cons.prems by (simp add: p_on_status_data_def on_message_def msg_status_code_def set_is_request_def)
  then show ?case using Cons.IH by (cases us) (simp_all add: msg_status_code_def)
qed simp

text \<open>Body call-backs, with the chunk markers between them.\<close>

fun body_payload :: "cb_event \<Rightarrow> string option" where
  "body_payload (On_Body s) = Some s"
| "body_payload On_Chunk_Header = Some []"
| "body_payload On_Chunk_Complete = Some []"
| "body_payload _ = None"

definition is_body_event :: "cb_event \<Rightarrow> bool" where
  "is_body_event e \<longleftrightarrow> (case body_payload e of None \<Rightarrow> False | Some s \<Rightarrow> length s + 100 \<le> 1048576)"

definition payload :: "cb_event list \<Rightarrow> string" where
  "payload evs = concat (map (\<lambda>e. the (body_payload e)) evs)"

lemma run_body:
  assumes "m_current_message_sptr p = Some m" "m_body_chain_sptr m = Some c" "chain_inv c"
    and "m_buf_factory c = getTestFactory" "list_all is_body_event evs"
  shows "\<exists>c'. rfold on_event evs p =
            Inr (p\<lparr>m_current_message_sptr := Some (m\<lparr>m_body_chain_sptr := Some c'\<rparr>)\<rparr>) \<and>
          chain_inv c' \<and> chain_content c' = chain_content c @ payload evs"
  using assms
proof (induction evs arbitrary: p m c)
  case Nil
  moreover have "m\<lparr>m_body_chain_sptr := Some c\<rparr> = m" using Nil by (cases m) simp
  moreover have "p\<lparr>m_current_message_sptr := Some m\<rparr> = p" using Nil by (cases p) simp
  ultimately show ?case by (intro exI [of _ c]) (simp add: payload_def)
next
  case (Cons e evs)
  show ?case
  proof (cases "\<exists>s. e = On_Body s")
    case True
    then obtain s where e: "e = On_Body s" by blast
    have "chain_accepts c s"
      using Cons.prems(4,5) by (simp add: e is_body_event_def chain_accepts_def)
    then obtain c1 where c1: "chain_append s c = Inr c1" "chain_inv c1" "chain_content c1 = chain_content c @ s"
        "m_buf_factory c1 = getTestFactory"
      using chain_append_ok [of c s] Cons.prems by auto
    let ?m = "m\<lparr>m_body_chain_sptr := Some c1\<rparr>"
    have "on_event e p = Inr (p\<lparr>m_current_message_sptr := Some ?m\<rparr>)"
      using Cons.prems c1 by (simp add: e p_on_body_data_def set_body_buffer_chain_def)
    then show ?thesis
      using Cons.IH [of "p\<lparr>m_current_message_sptr := Some ?m\<rparr>" ?m c1] Cons.prems(5) c1
      by (auto simp: payload_def e)
  next
    case False
    then have "on_event e p = Inr p" "the (body_payload e) = []"
      using Cons.prems(5) by (cases e; simp add: is_body_event_def p_on_chunk_header_def p_on_chunk_complete_def)+
    then show ?thesis using Cons.IH [OF Cons.prems(1-4)] Cons.prems(5) by (auto simp: payload_def)
  qed
qed

text \<open>A whole message, whatever the call-backs of its start line.\<close>

lemma run_message:
  assumes st: "rfold on_event start p0 = Inr p"
    and m: "m_current_message_sptr p = Some m" "header_state p = kHEADER_STATE_NOTHING" "name_stringbuf p = []"
    and f: "m_headers m = []" "m_body_chain_sptr m = Some makeBufferChainSPtr"
    and ok: "list_all fragments_ok frs" "list_all is_body_event body"
  shows "\<exists>p' c'. rfold on_event (start @ concat (map header_events frs) @ [On_Headers_Complete ma mi mth] @
             body @ [On_Message_Complete]) p0 = Inr p' \<and> header_done p' \<and> message_done p' \<and>
           m_current_message_sptr p' = Some ((head_result ma mi mth (url_stringbuf p) (status_stringbuf p)
             (assembled (map joined frs)) m)\<lparr>m_body_chain_sptr := Some c'\<rparr>) \<and>
           chain_inv c' \<and> chain_to_string c' = Some (payload body)"
proof -
  let ?hd = "concat (map header_events frs) @ [On_Headers_Complete ma mi mth]"
  let ?m3 = "head_result ma mi mth (url_stringbuf p) (status_stringbuf p) (assembled (map joined frs)) m"
  obtain p1 where h: "rfold on_event ?hd p = Inr p1" "header_done p1" "m_current_message_sptr p1 = Some ?m3"
    using run_head [OF m ok(1) f(1), of ma mi mth] by blast
  have m3: "m_body_chain_sptr ?m3 = Some makeBufferChainSPtr"
    using f(2) by (simp add: head_result_def msg_target_def msg_method_def msg_version_def msg_reason_def Let_def)
  have z: "chain_content makeBufferChainSPtr = []" "m_buf_factory makeBufferChainSPtr = getTestFactory"
    by (simp_all add: makeBufferChainSPtr_def chain_new_def chain_content_def)
  obtain c' where c': "rfold on_event body p1 =
        Inr (p1\<lparr>m_current_message_sptr := Some (?m3\<lparr>m_body_chain_sptr := Some c'\<rparr>)\<rparr>)"
      "chain_inv c'" "chain_content c' = payload body"
    using run_body [OF h(3) m3 makeBufferChainSPtr_inv z(2) ok(2)] z by auto
  have "rfold on_event (start @ ?hd @ body @ [On_Message_Complete]) p0 =
      rfold on_event (?hd @ body @ [On_Message_Complete]) p"
    using rfold_append [of on_event start _ p0] st by simp
  also have "\<dots> = rfold on_event (body @ [On_Message_Complete]) p1"
    using rfold_append [of on_event ?hd _ p] h(1) by simp
  also have "\<dots> = Inr (p1\<lparr>m_current_message_sptr := Some (?m3\<lparr>m_body_chain_sptr := Some c'\<rparr>), message_done := True\<rparr>)"
    by (simp add: rfold_append c' p_on_message_complete_def)
  finally show ?thesis using h(2) c' by (auto simp: chain_to_string_content)
qed

text \<open>A library that takes every byte as part of a target, and a newline as the end of a request.\<close>

definition line_execute :: "int \<Rightarrow> string \<Rightarrow> cb_event list \<times> nat \<times> int" where
  "line_execute h buf =
     (if h \<noteq> 0 then ([], 0, h)
      else let u = takeWhile (\<lambda>c. c \<noteq> CHR 0x0A) buf in
        if u = buf then ([On_Url buf], length buf, 0)
        else ([On_Url u, On_Headers_Complete 1 1 1, On_Message_Complete], Suc (length u), 31))"

definition line_lib :: "int http_parser_lib" where
  "line_lib = \<lparr>lib_init = 0, lib_execute = line_execute, lib_errno = (\<lambda>h. h), lib_HPE_PAUSED = 31,
               lib_errno_name = (\<lambda>_. []), lib_errno_description = (\<lambda>_. [])\<rparr>"

section \<open>Properties\<close>

text \<open>
  C9. Parsing is independent of fragmentation. However the library splits the call-backs of a request, a
  parser that has begun a fresh message ends with the request itself: method, target, version, the
  headers that \<open>assembled\<close> gives for the joined names and values, and a body chain with the joined body
  bytes, its chunk framing removed; the head and message flags are set and nothing throws.
\<close>

theorem parser_builds_request:
  assumes "us \<noteq> []" "concat us \<noteq> []" "list_all fragments_ok frs" "list_all is_body_event body"
  shows "\<exists>p' m' c'.
     rfold on_event ([On_Message_Begin] @ map On_Url us @ concat (map header_events frs) @
         [On_Headers_Complete ma mi mth] @ body @ [On_Message_Complete])
       (parser_begin lib (Some (MessageBase_new a b)) p) = Inr p' \<and>
     m_current_message_sptr p' = Some m' \<and> header_done p' \<and> message_done p' \<and>
     m_is_request m' \<and> m_method m' = mth \<and> m_target m' = concat us \<and>
     m_http_major m' = ma \<and> m_http_minor m' = mi \<and> m_headers m' = assembled (map joined frs) \<and>
     get_body m' = Some c' \<and> chain_inv c' \<and> chain_to_string c' = Some (payload body)"
proof -
  let ?m = "set_is_request True (MessageBase_new a b)"
  let ?p = "(parser_begin lib (Some (MessageBase_new a b)) p)\<lparr>m_current_message_sptr := Some ?m, url_stringbuf := concat us\<rparr>"
  have b: "on_event On_Message_Begin (parser_begin lib (Some (MessageBase_new a b)) p) =
      Inr (parser_begin lib (Some (MessageBase_new a b)) p)"
    by (simp add: p_on_message_begin_def parser_begin_def p_initialize_def)
  have u: "rfold on_event (map On_Url us) (parser_begin lib (Some (MessageBase_new a b)) p) = Inr ?p"
    using run_urls [of "parser_begin lib (Some (MessageBase_new a b)) p" "MessageBase_new a b" us] assms(1)
    by (simp add: parser_begin_def p_initialize_def)
  have s: "m_current_message_sptr ?p = Some ?m" "header_state ?p = kHEADER_STATE_NOTHING" "name_stringbuf ?p = []"
      "m_headers ?m = []" "m_body_chain_sptr ?m = Some makeBufferChainSPtr" "url_stringbuf ?p = concat us" "status_stringbuf ?p = []"
    by (simp_all add: parser_begin_def p_initialize_def set_is_request_def MessageBase_new_def)
  have st: "rfold on_event ([On_Message_Begin] @ map On_Url us) (parser_begin lib (Some (MessageBase_new a b)) p) = Inr ?p"
    using b u by simp
  obtain p' c' where r: "rfold on_event (([On_Message_Begin] @ map On_Url us) @ concat (map header_events frs) @
         [On_Headers_Complete ma mi mth] @ body @ [On_Message_Complete])
       (parser_begin lib (Some (MessageBase_new a b)) p) = Inr p'" "header_done p'" "message_done p'"
      "m_current_message_sptr p' = Some ((head_result ma mi mth (concat us) []
             (assembled (map joined frs)) ?m)\<lparr>m_body_chain_sptr := Some c'\<rparr>)"
      "chain_inv c'" "chain_to_string c' = Some (payload body)"
    using run_message [OF st s(1-5) assms(3,4), of ma mi mth] unfolding s(6,7) by blast
  let ?r = "head_result ma mi mth (concat us) [] (assembled (map joined frs)) ?m"
  have "m_is_request ?r" "m_method ?r = mth" "m_target ?r = concat us" "m_http_major ?r = ma" "m_http_minor ?r = mi"
      "m_headers ?r = assembled (map joined frs)"
    unfolding head_result_def Let_def if_not_P [OF assms(2)]
    by (simp_all add: msg_target_def msg_method_def msg_version_def)
  with r show ?thesis
    by (intro exI [of _ p'] exI [of _ "?r\<lparr>m_body_chain_sptr := Some c'\<rparr>"] exI [of _ c']) (simp add: get_body_def)
qed

theorem parser_builds_request_witness:
  "\<exists>p' m' c'. rfold on_event [On_Message_Begin, On_Url ''/a'', On_Url ''b'', On_Header_Field ''Ho'',
       On_Header_Field ''st'', On_Header_Value ''h'', On_Headers_Complete 1 1 3, On_Body ''xy'', On_Message_Complete]
     (parser_begin line_lib (Some (MessageBase_new 0 0)) (Parser_new False)) = Inr p' \<and>
   m_current_message_sptr p' = Some m' \<and> m_target m' = ''/ab'' \<and>
   m_headers m' = assembled [(''Host'', ''h'')] \<and> get_body m' = Some c' \<and> chain_to_string c' = Some ''xy''"
proof -
  have "[''/a'', ''b''] \<noteq> []" "concat [''/a'', ''b''] \<noteq> []" "list_all fragments_ok [([''Ho'', ''st''], [''h''])]"
    "list_all is_body_event [On_Body ''xy'']"
    by (simp_all add: is_body_event_def)
  note p = parser_builds_request [OF this, of 1 1 3 line_lib 0 0 "Parser_new False"]
  then show ?thesis by (simp add: payload_def) blast
qed

text \<open>
  The same for a response: status code, reason, version, headers and body, however fragmented.
\<close>

theorem parser_builds_response:
  assumes "ss \<noteq> []" "list_all fragments_ok frs" "list_all is_body_event body"
  shows "\<exists>p' m' c'.
     rfold on_event ([On_Message_Begin] @ map (On_Status sc) ss @ concat (map header_events frs) @
         [On_Headers_Complete ma mi mth] @ body @ [On_Message_Complete])
       (parser_begin lib (Some (MessageBase_new a b)) p) = Inr p' \<and>
     m_current_message_sptr p' = Some m' \<and> header_done p' \<and> message_done p' \<and>
     \<not> m_is_request m' \<and> m_status_code m' = sc \<and> m_reason m' = concat ss \<and>
     m_http_major m' = ma \<and> m_http_minor m' = mi \<and> m_headers m' = assembled (map joined frs) \<and>
     get_body m' = Some c' \<and> chain_inv c' \<and> chain_to_string c' = Some (payload body)"
proof -
  let ?m = "msg_status_code sc (MessageBase_new a b)"
  let ?p = "(parser_begin lib (Some (MessageBase_new a b)) p)\<lparr>m_current_message_sptr := Some ?m, status_stringbuf := concat ss\<rparr>"
  have b: "on_event On_Message_Begin (parser_begin lib (Some (MessageBase_new a b)) p) =
      Inr (parser_begin lib (Some (MessageBase_new a b)) p)"
    by (simp add: p_on_message_begin_def parser_begin_def p_initialize_def)
  have u: "rfold on_event (map (On_Status sc) ss) (parser_begin lib (Some (MessageBase_new a b)) p) = Inr ?p"
    using run_statuses [of "parser_begin lib (Some (MessageBase_new a b)) p" "MessageBase_new a b" ss] assms(1)
    by (simp add: parser_begin_def p_initialize_def)
  have s: "m_current_message_sptr ?p = Some ?m" "header_state ?p = kHEADER_STATE_NOTHING" "name_stringbuf ?p = []"
      "m_headers ?m = []" "m_body_chain_sptr ?m = Some makeBufferChainSPtr" "url_stringbuf ?p = []" "status_stringbuf ?p = concat ss"
    by (simp_all add: parser_begin_def p_initialize_def msg_status_code_def MessageBase_new_def)
  have st: "rfold on_event ([On_Message_Begin] @ map (On_Status sc) ss) (parser_begin lib (Some (MessageBase_new a b)) p) = Inr ?p"
    using b u by simp
  obtain p' c' where r: "rfold on_event (([On_Message_Begin] @ map (On_Status sc) ss) @ concat (map header_events frs) @
         [On_Headers_Complete ma mi mth] @ body @ [On_Message_Complete])
       (parser_begin lib (Some (MessageBase_new a b)) p) = Inr p'" "header_done p'" "message_done p'"
      "m_current_message_sptr p' = Some ((head_result ma mi mth [] (concat ss)
             (assembled (map joined frs)) ?m)\<lparr>m_body_chain_sptr := Some c'\<rparr>)"
      "chain_inv c'" "chain_to_string c' = Some (payload body)"
    using run_message [OF st s(1-5) assms(2,3), of ma mi mth] unfolding s(6,7) by blast
  let ?r = "head_result ma mi mth [] (concat ss) (assembled (map joined frs)) ?m"
  have "\<not> m_is_request ?r" "m_status_code ?r = sc" "m_reason ?r = concat ss" "m_http_major ?r = ma" "m_http_minor ?r = mi"
      "m_headers ?r = assembled (map joined frs)"
    by (simp_all add: head_result_def Let_def msg_reason_def msg_version_def msg_status_code_def MessageBase_new_def)
  with r show ?thesis
    by (intro exI [of _ p'] exI [of _ "?r\<lparr>m_body_chain_sptr := Some c'\<rparr>"] exI [of _ c']) (simp add: get_body_def)
qed

theorem parser_builds_response_witness:
  "\<exists>p' m' c'. rfold on_event [On_Message_Begin, On_Status 200 ''O'', On_Status 200 ''K'',
       On_Headers_Complete 1 0 0, On_Message_Complete]
     (parser_begin line_lib (Some (MessageBase_new 0 0)) (Parser_new False)) = Inr p' \<and>
   m_current_message_sptr p' = Some m' \<and> m_status_code m' = 200 \<and> m_reason m' = ''OK'' \<and>
   get_body m' = Some c' \<and> chain_to_string c' = Some []"
proof -
  have "[''O'', ''K''] \<noteq> []" "list_all fragments_ok []" "list_all is_body_event []" by simp_all
  note p = parser_builds_response [OF this, of 200 1 0 0 line_lib 0 0 "Parser_new False"]
  then show ?thesis by (simp add: payload_def) blast
qed

text \<open>
  The last header of a head goes through a different path than the others. If its name is new, all
  headers are kept in order and only the last value is trimmed. If its name repeats an earlier one, the
  field count is one short: the first field of that name loses its value to the last one and keeps its
  place, so that for instance two \<open>Set-Cookie\<close> headers at the end of a head are reduced to one, while
  repeats before the last header are all kept.
\<close>

theorem last_header_overwrites_repeat:
  "assembled (kvs @ [(k, v)]) =
     (let fs = map (\<lambda>(k, v). \<lparr>fkey = to_upper k, fvalue = v\<rparr>) kvs in
      case find_at_index k fs of
        None \<Rightarrow> fs @ [\<lparr>fkey = to_upper k, fvalue = trim v\<rparr>]
      | Some i \<Rightarrow> fs[i := \<lparr>fkey = to_upper k, fvalue = trim v\<rparr>]) \<and>
   length (assembled (kvs @ [(k, v)])) = length kvs + (if to_upper k \<in> to_upper ` fst ` set kvs then 0 else 1)"
proof -
  let ?fs = "map (\<lambda>(k, v). \<lparr>fkey = to_upper k, fvalue = v\<rparr>) kvs"
  have i: "i < length kvs \<and> fkey (?fs ! i) = to_upper k" if "find_at_index k ?fs = Some i" for i
    using find_loop_Some [of "to_upper k" ?fs 0 i] that by (auto simp: find_at_index_def)
  have n: "find_at_index k ?fs = None \<longleftrightarrow> to_upper k \<notin> to_upper ` fst ` set kvs"
    by (force simp: find_at_index_def find_loop_None)
  have upd: "(f :: hfield)\<lparr>fvalue := w\<rparr> = \<lparr>fkey = fkey f, fvalue = w\<rparr>" for f w by (cases f) simp
  show ?thesis
    using i n by (auto simp: assembled_def set_at_key_def Let_def upd split: option.splits)
qed

lemma keys_upper_assembled: "keys_upper (assembled kvs)"
proof -
  have "keys_upper (map (\<lambda>(k, v). \<lparr>fkey = to_upper k, fvalue = v\<rparr>) xs)" for xs
    by (auto simp: keys_upper_def list_all_iff)
  then show ?thesis by (simp add: assembled_def keys_upper_set_at_key) (simp add: keys_upper_def)
qed

text \<open>
  Trailers of a chunked message: every trailer field but the last is appended to the headers of the
  message, and the last one is dropped.
\<close>

theorem trailers_join_headers_last_lost:
  assumes "m_current_message_sptr p = Some m" "name_stringbuf p = []"
    and "header_state p = kHEADER_STATE_VALUE" "list_all fragments_ok frs"
  shows "\<exists>p'. rfold on_event (concat (map header_events frs) @ [On_Message_Complete]) p = Inr p' \<and>
     message_done p' \<and>
     m_current_message_sptr p' = Some (m\<lparr>m_headers := m_headers m @
       map (\<lambda>(k, v). \<lparr>fkey = to_upper k, fvalue = v\<rparr>) (butlast (map joined frs))\<rparr>)"
proof (cases frs)
  case Nil
  have "m\<lparr>m_headers := m_headers m\<rparr> = m" by simp
  then show ?thesis using assms Nil by (simp add: p_on_message_complete_def)
next
  case (Cons fr frs')
  let ?p = "p\<lparr>name_stringbuf := fst (joined fr), value_stringbuf := snd (joined fr)\<rparr>"
  have r: "rfold on_event (header_events fr) p = Inr ?p"
    using run_header [OF assms(1), of fr] assms Cons by (simp add: flushed_def)
  have "fst (joined fr) \<noteq> []" using assms(4) Cons by (cases fr) simp
  then obtain p' where "rfold on_event (concat (map header_events frs')) ?p = Inr p'"
      "m_current_message_sptr p' = Some (m\<lparr>m_headers := m_headers m @
          map (\<lambda>(k, v). \<lparr>fkey = to_upper k, fvalue = v\<rparr>) (butlast (map joined frs))\<rparr>)"
    using run_headers [of ?p m frs'] assms Cons by auto
  then show ?thesis using Cons r by (simp add: rfold_append p_on_message_complete_def)
qed

theorem trailers_join_headers_last_lost_witness:
  "\<exists>p'. rfold on_event [On_Header_Field ''A'', On_Header_Value ''1'', On_Header_Field ''B'', On_Header_Value ''2'',
            On_Message_Complete]
          ((Parser_new False)\<lparr>m_current_message_sptr := Some (MessageBase_new 0 0),
              header_state := kHEADER_STATE_VALUE\<rparr>) = Inr p' \<and>
        m_current_message_sptr p' = Some ((MessageBase_new 0 0)\<lparr>m_headers := [\<lparr>fkey = to_upper ''A'', fvalue = ''1''\<rparr>]\<rparr>)"
proof -
  let ?p = "(Parser_new False)\<lparr>m_current_message_sptr := Some (MessageBase_new 0 0),
              header_state := kHEADER_STATE_VALUE\<rparr>"
  have "list_all fragments_ok [([''A''], [''1'']), ([''B''], [''2''])]" by simp
  then show ?thesis
    using trailers_join_headers_last_lost [of ?p "MessageBase_new 0 0" "[([''A''], [''1'']), ([''B''], [''2''])]"]
    by (simp add: Parser_new_def MessageBase_new_def) blast
qed

section \<open>Consuming a buffer\<close>

text \<open>
  What the wrapper relies on from \<open>http_parser_execute\<close>, as its documentation states it: it never reports
  more bytes than it was given; if it stops early the error number is set; it is paused only by a
  call-back, here the one for a complete message; and once the error number is set it parses nothing.
\<close>

definition http_parser_contract :: "'h http_parser_lib \<Rightarrow> bool" where
  "http_parser_contract lib \<longleftrightarrow>
     lib_HPE_PAUSED lib \<noteq> 0 \<and> lib_errno lib (lib_init lib) = 0 \<and>
     (\<forall>h buf. lib_errno lib h \<noteq> 0 \<longrightarrow> lib_execute lib h buf = ([], 0, h)) \<and>
     (\<forall>h buf evs n h'. lib_execute lib h buf = (evs, n, h') \<longrightarrow>
        n \<le> length buf \<and> (n < length buf \<longrightarrow> lib_errno lib h' \<noteq> 0) \<and>
        (lib_errno lib h' = lib_HPE_PAUSED lib \<longrightarrow>
           On_Message_Complete \<in> set evs \<or> lib_errno lib h = lib_HPE_PAUSED lib))"

text \<open>A parser between calls: begun, and paused only after a complete message.\<close>

definition parser_ok :: "'h http_parser_lib \<Rightarrow> 'h parser \<Rightarrow> bool" where
  "parser_ok lib p \<longleftrightarrow>
     (case m_http_parser_ptr p of
        None \<Rightarrow> False
      | Some h \<Rightarrow> lib_errno lib h = lib_HPE_PAUSED lib \<longrightarrow> message_done p)"

definition outcome :: "'h http_parser_lib \<Rightarrow> 'h parser \<Rightarrow> return_code" where
  "outcome lib p =
     (if is_error lib p = Inr True then RC_error
      else if message_done p then RC_end_of_message
      else if header_done p then RC_end_of_header else RC_end_of_data)"

lemma on_message_frame: "on_message f p = Inr p' \<Longrightarrow> message_done p' = message_done p"
  by (auto simp: on_message_def rbind_Inr_iff)

lemma p_on_headers_complete_frame:
  "p_on_headers_complete ma mi mth p = Inr p' \<Longrightarrow> message_done p' = message_done p"
  by (auto simp: p_on_headers_complete_def rbind_Inr_iff dest!: on_message_frame split: if_splits)

lemma p_on_header_field_data_frame:
  "p_on_header_field_data s p = Inr p' \<Longrightarrow> message_done p' = message_done p"
  by (auto simp: p_on_header_field_data_def rbind_Inr_iff Let_def dest!: on_message_frame split: if_splits)

lemma on_event_message_done:
  "on_event e p = Inr p' \<Longrightarrow> message_done p' \<longleftrightarrow> message_done p \<or> e = On_Message_Complete"
  by (cases e) (auto simp: p_on_message_begin_def p_on_url_data_def p_on_status_data_def
      p_on_header_value_data_def p_on_body_data_def p_on_chunk_header_def p_on_chunk_complete_def
      p_on_message_complete_def rbind_Inr_iff Let_def
      dest!: on_message_frame p_on_headers_complete_frame p_on_header_field_data_frame split: if_splits)

lemma run_message_done:
  "rfold on_event evs p = Inr p' \<Longrightarrow> message_done p' \<longleftrightarrow> message_done p \<or> On_Message_Complete \<in> set evs"
proof (induction evs arbitrary: p)
  case (Cons e evs)
  then obtain p1 where "on_event e p = Inr p1" "rfold on_event evs p1 = Inr p'" by (auto simp: rbind_Inr_iff)
  then show ?case using Cons.IH on_event_message_done by fastforce
qed simp

lemma on_message_started: "on_message f p = Inr p' \<Longrightarrow> started p' = started p"
  by (auto simp: on_message_def rbind_Inr_iff)

lemma on_event_started: "on_event e p = Inr p' \<Longrightarrow> started p' = started p"
  by (cases e) (auto simp: p_on_message_begin_def p_on_url_data_def p_on_status_data_def
      p_on_header_value_data_def p_on_body_data_def p_on_chunk_header_def p_on_chunk_complete_def
      p_on_message_complete_def p_on_headers_complete_def p_on_header_field_data_def rbind_Inr_iff Let_def
      dest!: on_message_started split: if_splits)

lemma run_started: "rfold on_event evs p = Inr p' \<Longrightarrow> started p' = started p"
proof (induction evs arbitrary: p)
  case (Cons e evs)
  then obtain p1 where "on_event e p = Inr p1" "rfold on_event evs p1 = Inr p'" by (auto simp: rbind_Inr_iff)
  then show ?case using Cons.IH on_event_started by fastforce
qed simp

lemma parser_ok_begin: "http_parser_contract lib \<Longrightarrow> parser_ok lib (parser_begin lib m p)"
  by (simp add: parser_ok_def parser_begin_def p_initialize_def http_parser_contract_def)

lemma execute_step:
  assumes c: "http_parser_contract lib" and ok: "parser_ok lib p"
    and x: "http_parser_execute lib buf p = Inr (n, p1)"
  shows "parser_ok lib p1" "n \<le> length buf" "\<exists>e. is_error lib p1 = Inr e"
    and "is_error lib p1 = Inr False \<Longrightarrow> \<not> message_done p1 \<Longrightarrow> n = length buf"
proof -
  obtain h0 where h0: "m_http_parser_ptr p = Some h0"
    using ok by (auto simp: parser_ok_def split: option.splits)
  obtain evs0 n0 h1 where "lib_execute lib h0 buf = (evs0, n0, h1)" by (metis prod_cases3)
  then obtain h evs h' p' where h: "m_http_parser_ptr p = Some h" "lib_execute lib h buf = (evs, n, h')"
      "rfold on_event evs p = Inr p'" "p1 = p'\<lparr>m_http_parser_ptr := Some h'\<rparr>"
    using x h0 by (auto simp: http_parser_execute_def rbind_Inr_iff)
  have e: "n \<le> length buf" "n < length buf \<longrightarrow> lib_errno lib h' \<noteq> 0"
      "lib_errno lib h' = lib_HPE_PAUSED lib \<longrightarrow>
           On_Message_Complete \<in> set evs \<or> lib_errno lib h = lib_HPE_PAUSED lib"
    using c h(2) unfolding http_parser_contract_def by blast+
  have d: "message_done p1 \<longleftrightarrow> message_done p \<or> On_Message_Complete \<in> set evs"
    using run_message_done [OF h(3)] h(4) by simp
  show "parser_ok lib p1" using ok e(3) d h(1,4) by (auto simp: parser_ok_def)
  then show "is_error lib p1 = Inr False \<Longrightarrow> \<not> message_done p1 \<Longrightarrow> n = length buf"
    using e h(4) by (auto simp: parser_ok_def is_error_def)
  show "n \<le> length buf" by (rule e(1))
  show "\<exists>e. is_error lib p1 = Inr e" using h(4) by (simp add: is_error_def)
qed

lemma parser_ok_started [simp]: "parser_ok lib (p\<lparr>started := b\<rparr>) = parser_ok lib p"
  by (simp add: parser_ok_def split: option.splits)

lemma consume_buf_ok:
  assumes c: "http_parser_contract lib" and ok: "parser_ok lib p" and ne: "buf \<noteq> []"
    and x: "appendBytes lib buf (p\<lparr>started := True\<rparr>) = Inr (n, p1)"
  shows "consume_buf (Suc (Suc fuel)) lib buf only_header p =
           Some (Inr (\<lparr>return_code = outcome lib p1, bytes_remaining = length buf - n\<rparr>, p1))"
proof -
  have x': "http_parser_execute lib buf (p\<lparr>started := True\<rparr>) = Inr (n, p1)" using x by (simp add: appendBytes_def)
  have ok': "parser_ok lib (p\<lparr>started := True\<rparr>)" using ok by simp
  note s = execute_step [OF c ok' x']
  obtain e where e: "is_error lib p1 = Inr e" using s(3) by blast
  show ?thesis
  proof (cases "e \<or> message_done p1")
    case True
    then show ?thesis using x e ne s(2) by (auto simp: consume_buf_def outcome_def size_sub_def Let_def)
  next
    case False
    then have "n = length buf" using s(4) e by simp
    then show ?thesis using False x e ne by (auto simp: consume_buf_def outcome_def size_sub_def Let_def)
  qed
qed

lemma consume_stream_ok:
  assumes c: "http_parser_contract lib" and ok: "parser_ok lib p" and ne: "sb \<noteq> []"
    and x: "appendBytes lib sb (p\<lparr>started := True\<rparr>) = Inr (n, p1)"
  shows "consume_stream (Suc (Suc (Suc fuel))) lib sb only_header p =
           Some (Inr (\<lparr>return_code = outcome lib p1, bytes_remaining = length sb - n\<rparr>, drop n sb, p1))"
    and "parser_ok lib p1" "n \<le> length sb"
    and "outcome lib p1 \<in> {RC_end_of_header, RC_end_of_data} \<Longrightarrow> n = length sb"
proof -
  have x': "http_parser_execute lib sb (p\<lparr>started := True\<rparr>) = Inr (n, p1)" using x by (simp add: appendBytes_def)
  have ok': "parser_ok lib (p\<lparr>started := True\<rparr>)" using ok by simp
  note s = execute_step [OF c ok' x']
  show "parser_ok lib p1" "n \<le> length sb" by (rule s)+
  show all: "outcome lib p1 \<in> {RC_end_of_header, RC_end_of_data} \<Longrightarrow> n = length sb"
    using s(3,4) by (auto simp: outcome_def split: if_splits)
  have b: "consume_buf (Suc (Suc fuel)) lib sb only_header (p\<lparr>started := True\<rparr>) =
      Some (Inr (\<lparr>return_code = outcome lib p1, bytes_remaining = length sb - n\<rparr>, p1))"
    using consume_buf_ok [OF c ok' ne, of n p1] x by simp
  show "consume_stream (Suc (Suc (Suc fuel))) lib sb only_header p =
           Some (Inr (\<lparr>return_code = outcome lib p1, bytes_remaining = length sb - n\<rparr>, drop n sb, p1))"
    unfolding consume_stream_def
    by (subst consume_stream_loop.simps, cases "outcome lib p1"; use all ne s(2) in \<open>simp add: b size_sub_le Let_def\<close>)
qed

text \<open>
  C35. \<open>consume\<close> returns, and returns what it promises: under the library's contract a fuel of three
  iterations is enough, exactly one pass over the buffer is made, the return code is \<open>error\<close>,
  \<open>end_of_message\<close>, \<open>end_of_header\<close> or \<open>end_of_data\<close> as the parser's state says, the bytes that were not
  parsed stay in the stream buffer and are counted in \<open>bytes_remaining\<close>, and they are none unless the
  message is complete or in error.
\<close>

theorem consume_returns:
  assumes "http_parser_contract lib" "parser_ok lib p" "sb \<noteq> []"
    and "appendBytes lib sb (p\<lparr>started := True\<rparr>) = Inr (n, p1)"
  shows "consume_stream (Suc (Suc (Suc fuel))) lib sb only_header p =
           Some (Inr (\<lparr>return_code = outcome lib p1, bytes_remaining = length (drop n sb)\<rparr>, drop n sb, p1)) \<and>
         parser_ok lib p1 \<and>
         (outcome lib p1 \<in> {RC_end_of_header, RC_end_of_data} \<longrightarrow> drop n sb = [])"
  using consume_stream_ok [OF assms] by simp

lemma line_lib_contract: "http_parser_contract line_lib"
proof -
  have "length (takeWhile P xs) < length xs" if "takeWhile P xs \<noteq> xs" for P and xs :: string
    using that by (metis length_takeWhile_le nat_less_le takeWhile_eq_take take_all_iff order_refl)
  then show ?thesis
    by (auto simp: http_parser_contract_def line_lib_def line_execute_def Let_def Suc_le_eq split: if_splits)
qed

theorem consume_returns_witness:
  "\<exists>p1. consume_stream 3 line_lib [CHR ''a'', CHR 0x0A, CHR ''b''] False
          (parser_begin line_lib (Some (MessageBase_new 0 0)) (Parser_new False)) =
        Some (Inr (\<lparr>return_code = RC_end_of_message, bytes_remaining = 1\<rparr>, ''b'', p1))"
proof -
  let ?p = "parser_begin line_lib (Some (MessageBase_new 0 0)) (Parser_new False)"
  let ?sb = "[CHR ''a'', CHR 0x0A, CHR ''b'']"
  obtain p1 where p1: "appendBytes line_lib ?sb (?p\<lparr>started := True\<rparr>) = Inr (2, p1)" "message_done p1"
      "m_http_parser_ptr p1 = Some 31"
    by (simp add: appendBytes_def http_parser_execute_def line_lib_def line_execute_def parser_begin_def
        p_initialize_def callback_defs Parser_new_def Let_def)
  have "outcome line_lib p1 = RC_end_of_message" using p1 by (simp add: outcome_def is_error_def line_lib_def)
  then show ?thesis
    using consume_returns [OF line_lib_contract parser_ok_begin [OF line_lib_contract] _ p1(1), of 0 False]
    by (auto simp: numeral_eq_Suc)
qed

section \<open>Fuel\<close>

lemma consume_loop_mono:
  "consume_loop fuel lib buf oh tp rv p = Some x \<Longrightarrow> consume_loop (Suc fuel) lib buf oh tp rv p = Some x"
proof (induction fuel arbitrary: oh tp rv p)
  case (Suc fuel)
  show ?case
    using Suc.prems
    unfolding consume_loop.simps(2) [of fuel lib buf oh tp rv p] consume_loop.simps(2) [of "Suc fuel" lib buf oh tp rv p]
    by (auto simp: Let_def simp del: consume_loop.simps intro: Suc.IH split: if_splits sum.splits)
qed simp

lemma consume_stream_loop_mono:
  "consume_stream_loop fuel lib oh rv sb p = Some x \<Longrightarrow> consume_stream_loop (Suc fuel) lib oh rv sb p = Some x"
proof (induction fuel arbitrary: oh rv sb p)
  case (Suc fuel)
  show ?case
  proof (cases "sb = []")
    case False
    obtain y where y: "consume_buf fuel lib sb oh p = Some y"
      using Suc.prems False by (cases "consume_buf fuel lib sb oh p") auto
    then have y': "consume_buf (Suc fuel) lib sb oh p = Some y"
      by (simp add: consume_buf_def consume_loop_mono del: consume_loop.simps)
    show ?thesis
      using Suc.prems False
      unfolding consume_stream_loop.simps(2) [of fuel lib oh rv sb p]
        consume_stream_loop.simps(2) [of "Suc fuel" lib oh rv sb p] y y'
      by (auto simp: Let_def simp del: consume_stream_loop.simps intro: Suc.IH
          split: sum.splits return_code.splits if_splits)
  qed (use Suc.prems in simp)
qed simp

lemma consume_stream_mono:
  assumes "consume_stream fuel lib sb oh p = Some x" "fuel \<le> fuel'"
  shows "consume_stream fuel' lib sb oh p = Some x"
  using assms(2,1)
proof (induction fuel' rule: dec_induct)
  case (step n)
  then show ?case unfolding consume_stream_def using consume_stream_loop_mono by blast
qed

text \<open>A parser that is in error, or paused, takes no more bytes: its state and the buffer stay as they are.\<close>

definition stuck :: "'h http_parser_lib \<Rightarrow> 'h parser \<Rightarrow> bool" where
  "stuck lib p \<longleftrightarrow> (case m_http_parser_ptr p of None \<Rightarrow> False | Some h \<Rightarrow> lib_errno lib h \<noteq> 0) \<and>
     parser_ok lib p \<and> started p"

lemma stuck_append:
  assumes "http_parser_contract lib" "stuck lib p"
  shows "appendBytes lib buf p = Inr (0, p)"
proof -
  obtain h where h: "m_http_parser_ptr p = Some h" "lib_errno lib h \<noteq> 0"
    using assms(2) by (auto simp: stuck_def split: option.splits)
  then have "lib_execute lib h buf = ([], 0, h)" using assms(1) by (simp add: http_parser_contract_def)
  moreover have "p\<lparr>m_http_parser_ptr := Some h\<rparr> = p" using h by (cases p) simp
  ultimately show ?thesis using h by (simp add: appendBytes_def http_parser_execute_def)
qed

lemma consume_stream_stuck:
  assumes "http_parser_contract lib" "stuck lib p" "sb \<noteq> []"
    and "consume_stream fuel lib sb oh p = Some x"
  shows "x = Inr (\<lparr>return_code = outcome lib p, bytes_remaining = length sb\<rparr>, sb, p)"
    and "outcome lib p \<in> {RC_error, RC_end_of_message}"
proof -
  have s: "p\<lparr>started := True\<rparr> = p" using assms(2) by (cases p) (simp add: stuck_def)
  have a: "appendBytes lib sb (p\<lparr>started := True\<rparr>) = Inr (0, p)" using stuck_append [OF assms(1,2)] s by simp
  have ok: "parser_ok lib p" using assms(2) by (simp add: stuck_def)
  have "consume_stream (Suc (Suc (Suc fuel))) lib sb oh p = Some x"
    by (rule consume_stream_mono [OF assms(4)]) simp
  then show "x = Inr (\<lparr>return_code = outcome lib p, bytes_remaining = length sb\<rparr>, sb, p)"
    using consume_stream_ok(1) [OF assms(1) ok assms(3) a, of fuel oh] by simp
  show "outcome lib p \<in> {RC_error, RC_end_of_message}"
    using consume_stream_ok(4) [OF assms(1) ok assms(3) a] assms(3) by (cases "outcome lib p") auto
qed

text \<open>After a pass that did not take the whole buffer the parser is stuck.\<close>

lemma leftover_stuck:
  assumes c: "http_parser_contract lib" and ok: "parser_ok lib p"
    and x: "appendBytes lib sb p = Inr (n, p1)" and l: "n < length sb" and st: "started p"
  shows "stuck lib p1"
proof -
  have x': "http_parser_execute lib sb p = Inr (n, p1)" using x by (simp add: appendBytes_def)
  obtain h0 where h0: "m_http_parser_ptr p = Some h0" using ok by (auto simp: parser_ok_def split: option.splits)
  obtain evs n0 h' where e: "lib_execute lib h0 sb = (evs, n0, h')" by (metis prod_cases3)
  then obtain p' where p': "rfold on_event evs p = Inr p'" "p1 = p'\<lparr>m_http_parser_ptr := Some h'\<rparr>" "n0 = n"
    using x' h0 by (auto simp: http_parser_execute_def rbind_Inr_iff)
  have "lib_errno lib h' \<noteq> 0" using c e l p'(3) unfolding http_parser_contract_def by blast
  moreover have "started p'" using run_started [OF p'(1)] st by simp
  ultimately show ?thesis using execute_step(1) [OF c ok x'] p' by (simp add: stuck_def)
qed

end
