(* ===== verification/Msg_Reader.thy ===== *)
theory Msg_Reader
  imports Parser Marvin_Error
begin

text \<open>
  \<open>marvin/message/full_msg_rdr.cpp\<close>, \<open>full_msg_rdr.hpp\<close> and \<open>message_reader_v2.cpp\<close>: reading one message from
  a socket. The socket is the environment. What the reader asks of it, and the calls it makes of its
  completion handler, are the effects a member function returns in order; the completion of a read is a
  call of \<open>on_read\<close>. The owner's handler is taken to act after the member function that called it has
  returned. The current message is the one the parser holds, the same object in the code.
\<close>

section \<open>State and effects\<close>

record 'h reader =
  m_parser :: "'h parser"
  m_streambuffer :: string
  m_current_body_buffer_size :: nat

datatype rd_effect =
    Async_Read nat
  | Read_Cb error_code

text \<open>The constructor; \<open>m_current_body_buffer_size\<close> and the parser's \<open>started\<close> are indeterminate.\<close>

definition FullMessageReader_new :: "bool \<Rightarrow> nat \<Rightarrow> 'h reader" where
  "FullMessageReader_new junk_started junk_size =
     \<lparr>m_parser = Parser_new junk_started, m_streambuffer = [], m_current_body_buffer_size = junk_size\<rparr>"

definition m_header_buffer :: nat where "m_header_buffer = 256 * 4"
definition m_body_buffer_min :: nat where "m_body_buffer_min = 256 * 4 * 8"
definition m_system_rmem :: nat where "m_system_rmem = 212922"
definition m_body_buffer_max :: nat where "m_body_buffer_max = 256 * 4 * 256"

lemmas rdr_consts = m_header_buffer_def m_body_buffer_min_def m_system_rmem_def m_body_buffer_max_def

text \<open>The recommended size and the new value of \<open>m_current_body_buffer_size\<close>.\<close>

definition recommended_buffer_size :: "message \<Rightarrow> 'h parser \<Rightarrow> nat \<Rightarrow> nat \<times> nat" where
  "recommended_buffer_size partial_msg p current =
     (if \<not> header_done p then (m_header_buffer, 0)
      else
        (let new =
           (if current = 0 then
              (case header ContentLength partial_msg of
                 Some cl \<Rightarrow> min (size_add (size_of_int (atoi cl)) 100) m_system_rmem
               | None \<Rightarrow> m_body_buffer_min)
            else if current < min m_system_rmem m_body_buffer_max then 2 * current
            else current) in
         (new, new)))"

definition p_read_some :: "'h reader \<Rightarrow> ('h reader \<times> rd_effect list) result" where
  "p_read_some r =
     rbind (deref (m_current_message_sptr (m_parser r))) (\<lambda>m.
       (let (buf_size, cur) = recommended_buffer_size m (m_parser r) (m_current_body_buffer_size r) in
        Inr (r\<lparr>m_current_body_buffer_size := cur\<rparr>, [Async_Read buf_size])))"

definition p_on_parse_error :: "rd_effect list" where
  "p_on_parse_error = [Read_Cb make_eparse]"

definition p_on_read_error :: "error_code \<Rightarrow> rd_effect list" where
  "p_on_read_error err = [Read_Cb err]"

definition p_on_done :: "rd_effect list" where
  "p_on_done = [Read_Cb make_ok]"

text \<open>The loop of \<open>p_parse_some\<close>, with the effects so far; \<^term>\<open>None\<close> is a loop still running.\<close>

fun parse_some_loop ::
    "nat \<Rightarrow> 'h http_parser_lib \<Rightarrow> 'h reader \<Rightarrow> rd_effect list \<Rightarrow> ('h reader \<times> rd_effect list) result option" where
  "parse_some_loop 0 lib r effs = None"
| "parse_some_loop (Suc fuel) lib r effs =
     (if m_streambuffer r \<noteq> [] then
        (case consume_stream fuel lib (m_streambuffer r) False (m_parser r) of
           None \<Rightarrow> None
         | Some (Inl e) \<Rightarrow> Some (Inl e)
         | Some (Inr (rv, sb, p)) \<Rightarrow>
             (let r = r\<lparr>m_streambuffer := sb, m_parser := p\<rparr> in
              (case return_code rv of
                 RC_error \<Rightarrow> parse_some_loop fuel lib r (effs @ p_on_parse_error)
               | RC_end_of_message \<Rightarrow> parse_some_loop fuel lib r (effs @ p_on_done)
               | _ \<Rightarrow>
                   (case p_read_some r of
                      Inl e \<Rightarrow> Some (Inl e)
                    | Inr (r, es) \<Rightarrow> parse_some_loop fuel lib r (effs @ es)))))
      else Some (Inr (r, effs)))"

definition p_parse_some :: "nat \<Rightarrow> 'h http_parser_lib \<Rightarrow> 'h reader \<Rightarrow> ('h reader \<times> rd_effect list) result option" where
  "p_parse_some fuel lib r = parse_some_loop fuel lib r []"

definition p_on_eof :: "'h http_parser_lib \<Rightarrow> 'h reader \<Rightarrow> ('h reader \<times> rd_effect list) result" where
  "p_on_eof lib r =
     rbind (parser_end lib (m_parser r)) (\<lambda>(rv, p).
       (let r = r\<lparr>m_parser := p\<rparr> in
        case return_code rv of
          RC_error \<Rightarrow> Inr (r, p_on_parse_error)
        | RC_end_of_data \<Rightarrow> Inr (r, p_on_parse_error)
        | RC_end_of_header \<Rightarrow> Inr (r, p_on_done)
        | RC_end_of_message \<Rightarrow> Inr (r, p_on_done)))"

text \<open>The completion handler given to \<open>async_read\<close>; \<open>data\<close> are the bytes transferred.\<close>

definition on_read ::
    "nat \<Rightarrow> 'h http_parser_lib \<Rightarrow> error_code \<Rightarrow> string \<Rightarrow> 'h reader \<Rightarrow> ('h reader \<times> rd_effect list) result option" where
  "on_read fuel lib err data r =
     (if ec_failed err then
        (if length data = 0 then
           (if started (m_parser r) \<and> \<not> message_done (m_parser r) then Some (p_on_eof lib r)
            else Some (Inr (r, p_on_read_error err)))
         else Some (Inr (r, p_on_read_error err)))
      else p_parse_some fuel lib (r\<lparr>m_streambuffer := m_streambuffer r @ data\<rparr>))"

definition async_read_message ::
    "nat \<Rightarrow> 'h http_parser_lib \<Rightarrow> message \<Rightarrow> 'h reader \<Rightarrow> ('h reader \<times> rd_effect list) result option" where
  "async_read_message fuel lib msg r =
     (let r1 = r\<lparr>m_parser := parser_begin lib (Some msg) (m_parser r)\<rparr> in
      if m_streambuffer r1 \<noteq> [] then p_parse_some fuel lib r1
      else Some (p_read_some (r1\<lparr>m_parser := parser_begin lib (Some msg) (m_parser r1)\<rparr>)))"

text \<open>\<open>MessageReaderV2\<close> gives every read a message of its own.\<close>

definition v2_async_read_message ::
    "nat \<Rightarrow> 'h http_parser_lib \<Rightarrow> int \<Rightarrow> int \<Rightarrow> 'h reader \<Rightarrow> ('h reader \<times> rd_effect list) result option" where
  "v2_async_read_message fuel lib junk_method junk_status r =
     async_read_message fuel lib (MessageBase_new junk_method junk_status) r"

definition get_message_sptr :: "'h reader \<Rightarrow> message result" where
  "get_message_sptr r =
     (case m_current_message_sptr (m_parser r) of None \<Rightarrow> Inl No_Current_Message | Some m \<Rightarrow> Inr m)"

section \<open>Read buffer sizes\<close>

text \<open>
  The size asked of a read is bounded whatever \<open>Content-Length\<close> claims: 1024 bytes while the head is
  incomplete, and for the body never more than twice the system limit of 212922 bytes, the doubling
  included; the stored size keeps that bound.
\<close>

theorem read_buffer_bounded:
  assumes "current \<le> 2 * 212922"
  shows "case recommended_buffer_size m p current of (n, current') \<Rightarrow>
           n \<le> 2 * 212922 \<and> current' \<le> 2 * 212922 \<and> (\<not> header_done p \<longrightarrow> n = 1024 \<and> current' = 0) \<and>
           (header_done p \<longrightarrow> current \<noteq> 0 \<longrightarrow> n = (if current < 212922 then 2 * current else current))"
  using assms by (auto simp: recommended_buffer_size_def rdr_consts Let_def split: option.splits)

theorem read_buffer_bounded_witness:
  "recommended_buffer_size (MessageBase_new 0 0) ((Parser_new False)\<lparr>header_done := True\<rparr>) 8192 = (16384, 16384)"
  using read_buffer_bounded [of 8192 "(Parser_new False)\<lparr>header_done := True\<rparr>" "MessageBase_new 0 0"]
  by (simp add: recommended_buffer_size_def rdr_consts)

section \<open>The life of one read\<close>

lemma p_read_some_effects:
  "p_read_some r = Inr (r', es) \<Longrightarrow>
     (\<exists>n. es = [Async_Read n]) \<and> m_parser r' = m_parser r \<and> m_streambuffer r' = m_streambuffer r"
  by (auto simp: p_read_some_def rbind_Inr_iff Let_def case_prod_beta)

lemma parse_some_stuck:
  assumes "http_parser_contract lib" "stuck lib (m_parser r)" "m_streambuffer r \<noteq> []"
  shows "parse_some_loop fuel lib r effs = None"
  using assms(2,3)
proof (induction fuel arbitrary: r effs)
  case (Suc fuel)
  let ?c = "consume_stream fuel lib (m_streambuffer r) False (m_parser r)"
  have s: "r\<lparr>m_streambuffer := m_streambuffer r, m_parser := m_parser r\<rparr> = r" by simp
  show ?case
  proof (cases ?c)
    case (Some x)
    note c = consume_stream_stuck [OF assms(1) Suc.prems(1,2) Some]
    show ?thesis using Suc Some c by (auto simp: s Let_def)
  qed (use Suc.prems in simp)
qed simp

lemma appendBytes_stuck_started:
  assumes "http_parser_contract lib" "parser_ok lib p"
    and "appendBytes lib sb (p\<lparr>started := True\<rparr>) = Inr (n, p1)" "n < length sb"
  shows "stuck lib p1"
  using leftover_stuck [OF assms(1) _ assms(3,4)] assms(2) by simp

text \<open>One pass over fresh bytes: what the reader does, and that it does nothing else.\<close>

lemma consume_stream_throws:
  assumes "sb \<noteq> []" "appendBytes lib sb (p\<lparr>started := True\<rparr>) = Inl e"
    and "consume_stream fuel lib sb False p = Some x"
  shows "x = Inl e"
proof -
  have "consume_stream (Suc (Suc (Suc fuel))) lib sb False p = Some x"
    by (rule consume_stream_mono [OF assms(3)]) simp
  moreover have "consume_stream (Suc (Suc (Suc fuel))) lib sb False p = Some (Inl e)"
    using assms(1,2) by (simp add: consume_stream_def consume_buf_def)
  ultimately show ?thesis by simp
qed

lemma parse_some_once:
  assumes c: "http_parser_contract lib" and ok: "parser_ok lib (m_parser r)" and ne: "m_streambuffer r \<noteq> []"
    and x: "parse_some_loop fuel lib r effs = Some (Inr (r', effs'))"
  shows "\<exists>n p1. appendBytes lib (m_streambuffer r) ((m_parser r)\<lparr>started := True\<rparr>) = Inr (n, p1) \<and>
           n = length (m_streambuffer r) \<and> m_streambuffer r' = [] \<and> m_parser r' = p1 \<and> parser_ok lib p1 \<and>
           (case outcome lib p1 of
              RC_error \<Rightarrow> effs' = effs @ [Read_Cb make_eparse]
            | RC_end_of_message \<Rightarrow> effs' = effs @ [Read_Cb make_ok]
            | _ \<Rightarrow> \<exists>k. effs' = effs @ [Async_Read k])"
proof -
  let ?sb = "m_streambuffer r"
  obtain f where f: "fuel = Suc f" using x by (cases fuel) auto
  obtain y where y: "consume_stream f lib ?sb False (m_parser r) = Some y"
    using x ne f by (cases "consume_stream f lib ?sb False (m_parser r)") auto
  obtain n p1 where a: "appendBytes lib ?sb ((m_parser r)\<lparr>started := True\<rparr>) = Inr (n, p1)"
  proof (cases "appendBytes lib ?sb ((m_parser r)\<lparr>started := True\<rparr>)")
    case (Inl e)
    then show ?thesis using consume_stream_throws [OF ne Inl y] x f ne y by simp
  next
    case (Inr np)
    then show ?thesis using that by (cases np) simp
  qed
  note s = consume_stream_ok [OF c ok ne a]
  have "consume_stream (Suc (Suc (Suc f))) lib ?sb False (m_parser r) = Some y"
    by (rule consume_stream_mono [OF y]) simp
  then have y': "y = Inr (\<lparr>return_code = outcome lib p1, bytes_remaining = length ?sb - n\<rparr>, drop n ?sb, p1)"
    using s(1) [of f False] by simp
  let ?r = "r\<lparr>m_streambuffer := drop n ?sb, m_parser := p1\<rparr>"
  have all: "n = length ?sb"
  proof (rule ccontr)
    assume "n \<noteq> length ?sb"
    then have l: "n < length ?sb" using s(3) by simp
    then have st: "stuck lib p1" by (rule appendBytes_stuck_started [OF c ok a])
    have "parse_some_loop f lib ?r es = None" for es
      using parse_some_stuck [OF c, of ?r f] st l by simp
    moreover have "outcome lib p1 \<notin> {RC_end_of_header, RC_end_of_data}" using s(4) l by auto
    ultimately show False using x f ne y y' by (cases "outcome lib p1") (auto simp: Let_def)
  qed
  have stop: "parse_some_loop f lib q es = Some (Inr (r', effs')) \<Longrightarrow> m_streambuffer q = [] \<Longrightarrow> r' = q \<and> effs' = es"
    for q es by (cases f) auto
  have "m_streambuffer r' = [] \<and> m_parser r' = p1 \<and>
           (case outcome lib p1 of
              RC_error \<Rightarrow> effs' = effs @ [Read_Cb make_eparse]
            | RC_end_of_message \<Rightarrow> effs' = effs @ [Read_Cb make_ok]
            | _ \<Rightarrow> \<exists>k. effs' = effs @ [Async_Read k])"
    using x f ne y y' all
    by (cases "outcome lib p1")
      (auto simp: Let_def p_on_parse_error_def p_on_done_def split: sum.splits dest!: stop p_read_some_effects)
  then show ?thesis using a all s(2) by blast
qed



text \<open>
  C6. A read that takes all its bytes ends. When the library accepts every byte delivered and the parser has a
  message to build, five iterations of fuel are enough: a complete message calls the completion handler
  without error, a malformed one with the parse error, and anything else issues exactly one more read, of
  the recommended size; the buffer is empty again.
\<close>

theorem read_returns:
  assumes "http_parser_contract lib" "parser_ok lib (m_parser r)" "\<not> ec_failed err"
    and "m_streambuffer r @ data \<noteq> []" "5 \<le> fuel"
    and "appendBytes lib (m_streambuffer r @ data) ((m_parser r)\<lparr>started := True\<rparr>) =
           Inr (length (m_streambuffer r @ data), p1)"
    and "m_current_message_sptr p1 = Some m"
  shows "on_read fuel lib err data r =
     (let r1 = r\<lparr>m_streambuffer := [], m_parser := p1\<rparr>;
          (k, k') = recommended_buffer_size m p1 (m_current_body_buffer_size r) in
      Some (Inr (if outcome lib p1 = RC_error then (r1, [Read_Cb make_eparse])
                 else if outcome lib p1 = RC_end_of_message then (r1, [Read_Cb make_ok])
                 else (r1\<lparr>m_current_body_buffer_size := k'\<rparr>, [Async_Read k]))))"
proof -
  let ?sb = "m_streambuffer r @ data"
  obtain f where f: "fuel = Suc (Suc (Suc (Suc (Suc f))))"
    using assms(5) by (auto simp: numeral_eq_Suc Suc_le_eq less_iff_Suc_add)
  have c: "consume_stream (Suc (Suc (Suc (Suc f)))) lib ?sb False (m_parser r) =
      Some (Inr (\<lparr>return_code = outcome lib p1, bytes_remaining = 0\<rparr>, [], p1))"
    using consume_stream_ok(1) [OF assms(1,2,4,6), of "Suc f" False] by simp
  have stop: "parse_some_loop (Suc (Suc (Suc (Suc f)))) lib q es = Some (Inr (q, es))" if "m_streambuffer q = []" for q es
    using that by simp
  have "on_read fuel lib err data r = parse_some_loop (Suc (Suc (Suc (Suc (Suc f))))) lib (r\<lparr>m_streambuffer := ?sb\<rparr>) []"
    using assms(3) f by (simp only: on_read_def p_parse_some_def if_False)
  then show ?thesis
    using assms(4,7) c
    by (subst (asm) parse_some_loop.simps, cases "outcome lib p1")
      (simp_all add: p_read_some_def p_on_parse_error_def p_on_done_def stop Let_def case_prod_beta del: parse_some_loop.simps)
qed

theorem read_returns_witness:
  "\<exists>r. on_read 5 line_lib make_ok [CHR ''a'', CHR 0x0A]
     \<lparr>m_parser = parser_begin line_lib (Some (MessageBase_new 0 0)) (Parser_new False),
      m_streambuffer = [], m_current_body_buffer_size = 0\<rparr> = Some (Inr (r, [Read_Cb make_ok]))"
proof -
  let ?p = "parser_begin line_lib (Some (MessageBase_new 0 0)) (Parser_new False)"
  let ?r = "\<lparr>m_parser = ?p, m_streambuffer = [], m_current_body_buffer_size = 0\<rparr>"
  let ?d = "[CHR ''a'', CHR 0x0A]"
  obtain p1 m where p1: "appendBytes line_lib ?d (?p\<lparr>started := True\<rparr>) = Inr (length ?d, p1)" "message_done p1"
      "m_http_parser_ptr p1 = Some 31" "m_current_message_sptr p1 = Some m"
    by (simp add: appendBytes_def http_parser_execute_def line_lib_def line_execute_def parser_begin_def
        p_initialize_def callback_defs Parser_new_def Let_def)
  have o: "outcome line_lib p1 = RC_end_of_message" using p1 by (simp add: outcome_def is_error_def line_lib_def)
  have a: "appendBytes line_lib (m_streambuffer ?r @ ?d) ((m_parser ?r)\<lparr>started := True\<rparr>) =
      Inr (length (m_streambuffer ?r @ ?d), p1)" using p1(1) by simp
  have k: "parser_ok line_lib (m_parser ?r)" using parser_ok_begin [OF line_lib_contract] by simp
  show ?thesis
    using read_returns [OF line_lib_contract k make_ok_not_failed(1) _ _ a p1(4), of 5] o
    by (simp add: Let_def case_prod_beta)
qed

text \<open>
  The environment of one read: it starts on an empty buffer, and every outstanding read completes, with
  bytes or with an error. The relation keeps the number of outstanding reads and the calls made of the
  completion handler.
\<close>

fun n_reads :: "rd_effect list \<Rightarrow> nat" where
  "n_reads [] = 0"
| "n_reads (Async_Read k # es) = Suc (n_reads es)"
| "n_reads (Read_Cb e # es) = n_reads es"

fun cb_calls :: "rd_effect list \<Rightarrow> error_code list" where
  "cb_calls [] = []"
| "cb_calls (Async_Read k # es) = cb_calls es"
| "cb_calls (Read_Cb e # es) = e # cb_calls es"

inductive reading :: "'h http_parser_lib \<Rightarrow> 'h reader \<Rightarrow> nat \<Rightarrow> error_code list \<Rightarrow> bool" for lib where
  reading_start: "m_streambuffer r = [] \<Longrightarrow> async_read_message fuel lib msg r = Some (Inr (r', effs)) \<Longrightarrow>
     reading lib r' (n_reads effs) (cb_calls effs)"
| reading_complete: "reading lib r (Suc n) cs \<Longrightarrow> ec_failed err \<or> data \<noteq> [] \<Longrightarrow>
     on_read fuel lib err data r = Some (Inr (r', effs)) \<Longrightarrow>
     reading lib r' (n + n_reads effs) (cs @ cb_calls effs)"

lemma p_on_eof_effects:
  assumes "p_on_eof lib r = Inr (r', effs)"
  shows "m_streambuffer r' = m_streambuffer r \<and>
         (effs = [Read_Cb make_eparse] \<or>
          effs = [Read_Cb make_ok] \<and> (header_done (m_parser r') \<or> message_done (m_parser r')))"
proof -
  obtain rv p where e: "parser_end lib (m_parser r) = Inr (rv, p)"
    using assms by (auto simp: p_on_eof_def rbind_Inr_iff)
  have "return_code rv \<in> {RC_end_of_header, RC_end_of_message} \<Longrightarrow> header_done p \<or> message_done p"
    using e by (auto simp: parser_end_def rbind_Inr_iff Let_def split: if_splits)
  then show ?thesis
    using assms e by (auto simp: p_on_eof_def p_on_parse_error_def p_on_done_def Let_def split: return_code.splits)
qed

lemma async_read_message_start:
  assumes c: "http_parser_contract lib" and "m_streambuffer r = []"
    and "async_read_message fuel lib msg r = Some (Inr (r', effs))"
  shows "\<exists>k. effs = [Async_Read k]" "m_streambuffer r' = []" "parser_ok lib (m_parser r')"
  using assms parser_ok_begin [OF c] p_read_some_effects
  by (fastforce simp: async_read_message_def Let_def)+

definition read_inv :: "'h http_parser_lib \<Rightarrow> 'h reader \<Rightarrow> nat \<Rightarrow> error_code list \<Rightarrow> bool" where
  "read_inv lib r n cs \<longleftrightarrow>
     n + length cs = 1 \<and> m_streambuffer r = [] \<and> (n = 1 \<longrightarrow> parser_ok lib (m_parser r)) \<and>
     ((\<exists>e\<in>set cs. \<not> ec_failed e) \<longrightarrow> header_done (m_parser r) \<or> message_done (m_parser r))"

lemma on_read_inv:
  assumes c: "http_parser_contract lib" and i: "read_inv lib r (Suc n) cs" and d: "ec_failed err \<or> data \<noteq> []"
    and x: "on_read fuel lib err data r = Some (Inr (r', effs))"
  shows "read_inv lib r' (n + n_reads effs) (cs @ cb_calls effs)"
proof -
  have s: "n = 0" "cs = []" "m_streambuffer r = []" "parser_ok lib (m_parser r)"
    using i by (auto simp: read_inv_def)
  consider (eof) "p_on_eof lib r = Inr (r', effs)" | (err) "ec_failed err" "r' = r" "effs = [Read_Cb err]"
    | (data) "\<not> ec_failed err" "data \<noteq> []"
        "parse_some_loop fuel lib (r\<lparr>m_streambuffer := data\<rparr>) [] = Some (Inr (r', effs))"
    using x d s(3) by (auto simp: on_read_def p_parse_some_def p_on_read_error_def split: if_splits)
  then show ?thesis
  proof cases
    case eof
    show ?thesis using p_on_eof_effects [OF eof] s by (auto simp: read_inv_def)
  next
    case err
    then have "err \<noteq> make_ok" by auto
    then show ?thesis using err s by (auto simp: read_inv_def)
  next
    case data
    let ?r = "r\<lparr>m_streambuffer := data\<rparr>"
    have "parser_ok lib (m_parser ?r)" "m_streambuffer ?r \<noteq> []" using s data by simp_all
    from parse_some_once [OF c this data(3)] show ?thesis
      using s by (auto simp: read_inv_def outcome_def split: if_splits)
  qed
qed



text \<open>
  An end of file in the middle of a message is an end of message only if the library accepts it: with
  the head complete the read succeeds, before that, or when the library reports an error, it ends in the
  parse error; an end of file before any byte of a message is passed on as the read error it is.
\<close>

theorem eof_outcomes:
  assumes "ec_failed err"
  shows "on_read fuel lib err [] r =
     (if started (m_parser r) \<and> \<not> message_done (m_parser r) then
        Some (case parser_end lib (m_parser r) of
                Inl e \<Rightarrow> Inl e
              | Inr (rv, p) \<Rightarrow>
                  Inr (r\<lparr>m_parser := p\<rparr>,
                    [Read_Cb (if is_error lib p = Inr True \<or> \<not> header_done p \<and> \<not> message_done p
                              then make_eparse else make_ok)]))
      else Some (Inr (r, [Read_Cb err])))"
proof -
  have "p_on_eof lib r = (case parser_end lib (m_parser r) of
                Inl e \<Rightarrow> Inl e
              | Inr (rv, p) \<Rightarrow>
                  Inr (r\<lparr>m_parser := p\<rparr>,
                    [Read_Cb (if is_error lib p = Inr True \<or> \<not> header_done p \<and> \<not> message_done p
                              then make_eparse else make_ok)]))" if nd: "\<not> message_done (m_parser r)"
  proof (cases "parser_end lib (m_parser r)")
    case (Inl e)
    then show ?thesis by (simp add: p_on_eof_def)
  next
    case (Inr x)
    obtain rv p where x: "x = (rv, p)" by (cases x)
    have "return_code rv = outcome lib p \<and> (\<exists>e. is_error lib p = Inr e)"
      using Inr x nd by (auto simp: parser_end_def rbind_Inr_iff outcome_def Let_def split: if_splits)
    then show ?thesis
      using Inr x by (auto simp: p_on_eof_def p_on_parse_error_def p_on_done_def outcome_def Let_def)
  qed
  then show ?thesis using assms by (simp add: on_read_def p_on_read_error_def)
qed

theorem eof_outcomes_witness:
  "on_read 0 line_lib make_eparse [] (FullMessageReader_new False 0) =
     Some (Inr (FullMessageReader_new False 0, [Read_Cb make_eparse]))"
  by (subst eof_outcomes) (simp_all add: FullMessageReader_new_def Parser_new_def)

end
