(* ===== verification/Msg_Writer.thy ===== *)
theory Msg_Writer
  imports Message Marvin_Error
begin

text \<open>
  \<open>marvin/message/message_writer.cpp\<close>: writing a message as its serialised head followed by its body. The
  socket writes and the calls of the completion handler are effects; the completion of a write calls the
  handler of the stage it belongs to. \<open>async_write_trailers\<close> and \<open>end\<close> have empty bodies.
\<close>

record msg_writer =
  w_current_message :: "message option"
  m_header_buf_sptr :: "contig_buffer option"
  m_body_buffer_string :: string
  m_body_buffer_chain_sptr :: "buffer_chain option"

datatype wr_effect =
    Write_Contig contig_buffer
  | Write_Chain buffer_chain
  | Write_Bytes string
  | Write_Const const_buffer
  | Call_Cb error_code
  | Post_Cb error_code

definition MessageWriter_new :: msg_writer where
  "MessageWriter_new =
     \<lparr>w_current_message = None, m_header_buf_sptr = None, m_body_buffer_string = [],
      m_body_buffer_chain_sptr = None\<rparr>"

definition p_put_headers_stuff_in_buffer :: "(int \<Rightarrow> string) \<Rightarrow> msg_writer \<Rightarrow> msg_writer result" where
  "p_put_headers_stuff_in_buffer mstr w =
     rbind (deref (w_current_message w)) (\<lambda>msg.
     rbind (serialize_headers mstr msg) (\<lambda>mb. Inr (w\<lparr>m_header_buf_sptr := Some mb\<rparr>)))"

text \<open>The head that is written is that of the current message, whatever the argument.\<close>

definition async_write_headers :: "(int \<Rightarrow> string) \<Rightarrow> message \<Rightarrow> msg_writer \<Rightarrow> (msg_writer \<times> wr_effect list) result" where
  "async_write_headers mstr msg w =
     rbind (p_put_headers_stuff_in_buffer mstr w) (\<lambda>w.
     rbind (deref (m_header_buf_sptr w)) (\<lambda>mb. Inr (w, [Write_Contig mb])))"

definition async_write :: "(int \<Rightarrow> string) \<Rightarrow> message \<Rightarrow> msg_writer \<Rightarrow> (msg_writer \<times> wr_effect list) result" where
  "async_write mstr msg w = async_write_headers mstr msg (w\<lparr>w_current_message := Some msg\<rparr>)"

definition async_write_string ::
    "(int \<Rightarrow> string) \<Rightarrow> message \<Rightarrow> string \<Rightarrow> msg_writer \<Rightarrow> (msg_writer \<times> wr_effect list) result" where
  "async_write_string mstr msg body_string w =
     (if length body_string = 0 then async_write mstr msg w
      else rbind (makeBufferChainSPtr_string body_string) (\<lambda>c.
        async_write mstr msg (w\<lparr>m_body_buffer_string := body_string, m_body_buffer_chain_sptr := Some c\<rparr>)))"

definition async_write_contig ::
    "(int \<Rightarrow> string) \<Rightarrow> message \<Rightarrow> contig_buffer option \<Rightarrow> msg_writer \<Rightarrow> (msg_writer \<times> wr_effect list) result" where
  "async_write_contig mstr msg body_mb_sptr w =
     (case body_mb_sptr of
        None \<Rightarrow> Inl Assert_Failed
      | Some mb \<Rightarrow> async_write mstr msg (w\<lparr>m_body_buffer_chain_sptr := Some (makeBufferChainSPtr_contig mb)\<rparr>))"

definition async_write_chain ::
    "(int \<Rightarrow> string) \<Rightarrow> message \<Rightarrow> buffer_chain option \<Rightarrow> msg_writer \<Rightarrow> (msg_writer \<times> wr_effect list) result" where
  "async_write_chain mstr msg body_chain_sptr w =
     async_write mstr msg (w\<lparr>m_body_buffer_chain_sptr := body_chain_sptr\<rparr>)"

definition p_async_write_full_body :: "msg_writer \<Rightarrow> wr_effect list" where
  "p_async_write_full_body w =
     (case m_body_buffer_chain_sptr w of
        None \<Rightarrow> [Post_Cb make_error_ok]
      | Some c \<Rightarrow> if chain_size c = 0 then [Post_Cb make_error_ok] else [Write_Chain c])"

text \<open>The handlers of the head write, of the body write and of a write of body data.\<close>

definition on_headers_written :: "error_code \<Rightarrow> msg_writer \<Rightarrow> wr_effect list" where
  "on_headers_written ec w = (if ec_failed ec then [Call_Cb ec] else p_async_write_full_body w)"

definition on_body_written :: "error_code \<Rightarrow> wr_effect list" where
  "on_body_written ec = [Post_Cb ec]"

definition on_body_data_written :: "error_code \<Rightarrow> wr_effect list" where
  "on_body_data_written ec = [Call_Cb ec]"

definition async_write_body_data_string :: "string \<Rightarrow> wr_effect list" where
  "async_write_body_data_string data = [Write_Bytes data]"

definition async_write_body_data_contig :: "contig_buffer \<Rightarrow> wr_effect list" where
  "async_write_body_data_contig data = [Write_Contig data]"

definition async_write_body_data_const :: "const_buffer \<Rightarrow> wr_effect list" where
  "async_write_body_data_const data = [Write_Const data]"

section \<open>The environment\<close>

text \<open>The bytes a write puts on the wire: \<^term>\<open>None\<close> when they include unwritten memory.\<close>

fun wire :: "wr_effect \<Rightarrow> string option" where
  "wire (Write_Contig mb) = read_bytes (cb_data (mb_as_const_buffer mb)) (cb_size (mb_as_const_buffer mb))"
| "wire (Write_Chain c) = buffersequence_to_string (asio_buffer_sequence c)"
| "wire (Write_Bytes s) = Some s"
| "wire (Write_Const b) = read_bytes (cb_data b) (cb_size b)"
| "wire (Call_Cb e) = Some []"
| "wire (Post_Cb e) = Some []"

text \<open>A message write whose socket writes complete with the given codes: head, then body if any.\<close>

fun run_write :: "error_code \<Rightarrow> error_code \<Rightarrow> msg_writer \<times> wr_effect list \<Rightarrow> wr_effect list" where
  "run_write ec_head ec_body (w, effs) =
     effs @ (let es = on_headers_written ec_head w in
             es @ (if \<exists>c. es = [Write_Chain c] then on_body_written ec_body else []))"

fun is_cb :: "wr_effect \<Rightarrow> bool" where
  "is_cb (Call_Cb e) = True"
| "is_cb (Post_Cb e) = True"
| "is_cb _ = False"

section \<open>Properties\<close>

lemma async_write_head:
  assumes "serialize_headers mstr msg = Inr mb"
  shows "async_write mstr msg w =
           Inr (w\<lparr>w_current_message := Some msg, m_header_buf_sptr := Some mb\<rparr>, [Write_Contig mb])"
  using assms by (simp add: async_write_def async_write_headers_def p_put_headers_stuff_in_buffer_def)

lemma run_write_callback:
  "async_write mstr msg w = Inr res \<Longrightarrow> length (filter is_cb (run_write e1 e2 res)) = 1"
  by (cases res) (auto simp: async_write_def async_write_headers_def rbind_Inr_iff on_headers_written_def
      p_async_write_full_body_def on_body_written_def Let_def split: option.splits)

lemma sample_head_ok:
  "\<exists>mb. serialize_headers (\<lambda>_. ''GET'') (MessageBase_new 1 0) = Inr mb \<and> contig_inv mb"
proof -
  have "length (concat (head_pieces (\<lambda>_. ''GET'') (MessageBase_new 1 0))) \<le> 1048576"
    by (simp add: head_pieces_def MessageBase_new_def method_string_def http_method_string_def crlf_def)
  then show ?thesis using serialize_headers_fits by blast
qed

text \<open>
  C14. Writing a message with a body chain puts on the wire exactly the serialised head followed by the
  bytes of the chain, and the completion handler is called exactly once, without error, after the last
  write; if the head cannot be written the body is not sent and the handler gets that error.
\<close>

theorem write_message_bytes:
  assumes "serialize_headers mstr msg = Inr mb" "contig_inv mb" "chain_inv c"
  shows "\<exists>res. async_write_chain mstr msg (Some c) w = Inr res \<and>
     cat_options (map wire (run_write make_error_ok make_error_ok res)) = Some (contig_content mb @ chain_content c) \<and>
     filter is_cb (run_write make_error_ok make_error_ok res) = [Post_Cb make_error_ok] \<and>
     is_cb (last (run_write make_error_ok make_error_ok res)) \<and>
     (\<forall>ec. ec_failed ec \<longrightarrow> run_write ec e2 res = [Write_Contig mb, Call_Cb ec])"
proof -
  let ?w = "w\<lparr>m_body_buffer_chain_sptr := Some c\<rparr>"
  have h: "wire (Write_Contig mb) = Some (contig_content mb)" using assms(2) by (simp add: asio_view_content)
  have b: "wire (Write_Chain c) = Some (chain_content c)" using assms(3) by (simp add: asio_sequence_content)
  have z: "chain_size c = 0 \<longleftrightarrow> chain_content c = []" using assms(3) by (simp add: chain_inv_def chain_size_def)
  have r: "async_write_chain mstr msg (Some c) w =
      Inr (?w\<lparr>w_current_message := Some msg, m_header_buf_sptr := Some mb\<rparr>, [Write_Contig mb])"
    using async_write_head [OF assms(1)] by (simp add: async_write_chain_def)
  show ?thesis
    unfolding r
    by (rule exI, rule conjI, rule refl)
      (use h b z in \<open>simp add: on_headers_written_def p_async_write_full_body_def on_body_written_def Let_def\<close>)
qed

theorem write_message_bytes_witness:
  "\<exists>mb res. async_write_chain (\<lambda>_. ''GET'') (MessageBase_new 1 0) (Some sample_chain) MessageWriter_new = Inr res \<and>
     run_write make_error_parse make_error_ok res = [Write_Contig mb, Call_Cb make_error_parse]"
proof -
  obtain mb' where "serialize_headers (\<lambda>_. ''GET'') (MessageBase_new 1 0) = Inr mb'" "contig_inv mb'"
    using sample_head_ok by blast
  then show ?thesis
    using write_message_bytes [of "\<lambda>_. ''GET''" "MessageBase_new 1 0" mb' sample_chain MessageWriter_new make_error_ok] sample_chain_inv
    by (metis make_eparse_failed(2))
qed

text \<open>
  A writer used again sends the previous body again. After a message with a non-empty body, writing a
  message with the overload that takes no body, or with an empty body string, sends its head followed by
  the old body.
\<close>

theorem writer_resends_stale_body:
  assumes "m_body_buffer_chain_sptr w = Some c" "chain_inv c" "chain_content c \<noteq> []"
    and "serialize_headers mstr msg = Inr mb" "contig_inv mb"
  shows "\<exists>res. async_write_string mstr msg [] w = Inr res \<and> async_write mstr msg w = Inr res \<and>
     cat_options (map wire (run_write make_error_ok e2 res)) = Some (contig_content mb @ chain_content c)"
proof -
  have h: "wire (Write_Contig mb) = Some (contig_content mb)" using assms(5) by (simp add: asio_view_content)
  have b: "wire (Write_Chain c) = Some (chain_content c)" using assms(2) by (simp add: asio_sequence_content)
  have z: "chain_size c \<noteq> 0" using assms(2,3) by (simp add: chain_inv_def chain_size_def)
  have r: "async_write mstr msg w =
      Inr (w\<lparr>w_current_message := Some msg, m_header_buf_sptr := Some mb\<rparr>, [Write_Contig mb])"
    by (rule async_write_head [OF assms(4)])
  show ?thesis
    unfolding async_write_string_def r
    by (rule exI [of _ "(w\<lparr>w_current_message := Some msg, m_header_buf_sptr := Some mb\<rparr>, [Write_Contig mb])"])
      (use assms(1) h b z in \<open>simp add: on_headers_written_def p_async_write_full_body_def on_body_written_def Let_def\<close>)
qed

theorem writer_resends_stale_body_witness:
  "\<exists>c mb res. chain_content c = ''x'' \<and>
     async_write (\<lambda>_. ''GET'') (MessageBase_new 1 0) (MessageWriter_new\<lparr>m_body_buffer_chain_sptr := Some c\<rparr>) = Inr res \<and>
     cat_options (map wire (run_write make_error_ok make_error_ok res)) = Some (contig_content mb @ ''x'')"
proof -
  obtain mb' where m': "serialize_headers (\<lambda>_. ''GET'') (MessageBase_new 1 0) = Inr mb'" "contig_inv mb'"
    using sample_head_ok by blast
  obtain c where c: "chain_inv c" "chain_content c = ''x''"
    using makeBufferChainSPtr_string_ok [of "''x''"] by auto
  have w: "m_body_buffer_chain_sptr (MessageWriter_new\<lparr>m_body_buffer_chain_sptr := Some c\<rparr>) = Some c" by simp
  have "chain_content c \<noteq> []" using c by simp
  then show ?thesis
    using writer_resends_stale_body [OF w c(1) _ m', of make_error_ok] c by auto
qed

end
