(* ===== verification/Client.thy ===== *)
theory Client
  imports Connection Msg_Reader Msg_Writer Uri
begin

text \<open>
  \<open>marvin/client/client.cpp\<close>: an HTTP client that connects when it must, writes a request and reads the
  response. The operations it starts on its connection, its writer and its reader, and the calls of the
  handlers given to it, are effects; the completion of an operation is a call of the handler that the
  client gave with it. A response handler is a name, and so is an endpoint. A handler that the code posts is taken to run
  before anything else touches the client.

  The environment of the definitions holds what the code takes from elsewhere: the time-out
  configuration, the names of methods, the parser library, the fuel of the reader's loop and the values
  that constructors leave indeterminate.
\<close>

section \<open>State and effects\<close>

record 'h client_env =
  e_config :: conn_config
  e_method_str :: "int \<Rightarrow> string"
  e_lib :: "'h http_parser_lib"
  e_fuel :: nat
  e_junk_started :: bool
  e_junk_size :: nat
  e_junk_method :: int
  e_junk_status :: int

record ('c, 'i, 'h) client =
  cl_scheme :: string
  cl_server :: string
  cl_port :: string
  m_current_request :: "message option"
  m_body_mbuffer_sptr :: "contig_buffer option"
  m_wrtr :: "msg_writer option"
  m_rdr :: "'h reader option"
  m_conn_shared_ptr :: "('c, 'i) connection option"
  m_response_handler :: "nat option"

datatype client_effect =
    Cl_Conn "nat conn_effect"
  | Cl_Wr wr_effect
  | Cl_Rd rd_effect
  | Cl_Connect_Cb error_code
  | Cl_Response nat error_code "message option"

text \<open>Results of steps that contain the reader's loop: not yet returned, an exception, or a value.\<close>

fun pbind :: "'a result option \<Rightarrow> ('a \<Rightarrow> 'b result option) \<Rightarrow> 'b result option" where
  "pbind None f = None"
| "pbind (Some (Inl e)) f = Some (Inl e)"
| "pbind (Some (Inr x)) f = f x"

lemma pbind_Inr_iff: "pbind m f = Some (Inr y) \<longleftrightarrow> (\<exists>x. m = Some (Inr x) \<and> f x = Some (Inr y))"
proof (cases m)
  case (Some z)
  then show ?thesis by (cases z) auto
qed simp

section \<open>Operations\<close>

definition client_new :: "string \<Rightarrow> string \<Rightarrow> string \<Rightarrow> ('c, 'i, 'h) client" where
  "client_new scheme server port =
     \<lparr>cl_scheme = scheme, cl_server = server, cl_port = port, m_current_request = None,
      m_body_mbuffer_sptr = None, m_wrtr = None, m_rdr = None, m_conn_shared_ptr = None, m_response_handler = None\<rparr>"

definition client_new_uri :: "uri \<Rightarrow> ('c, 'i, 'h) client" where
  "client_new_uri u = client_new (m_scheme u) (m_server u) (int_to_string (m_port u))"

definition client_new_conn :: "('c, 'i) connection \<Rightarrow> ('c, 'i, 'h) client" where
  "client_new_conn conn = (client_new [] [] [])\<lparr>m_conn_shared_ptr := Some conn\<rparr>"

definition client_async_connect ::
    "'h client_env \<Rightarrow> ('c, 'i, 'h) client \<Rightarrow> (('c, 'i, 'h) client \<times> client_effect list) result" where
  "client_async_connect env c =
     (if m_conn_shared_ptr c \<noteq> None then Inl Unexpected_Connection
      else
        (let conn = socket_factory_client (e_config env) (cl_scheme c) (cl_server c) (cl_port c) in
         Inr (c\<lparr>m_conn_shared_ptr := Some conn\<rparr>, map Cl_Conn (async_connect conn))))"

text \<open>The handler of a connect that the owner asked for.\<close>

definition on_client_connected :: "error_code \<Rightarrow> client_effect list" where
  "on_client_connected ec = [Cl_Connect_Cb ec]"

definition p_set_content_length :: "('c, 'i, 'h) client \<Rightarrow> ('c, 'i, 'h) client result" where
  "p_set_content_length c =
     (let len = (case m_body_mbuffer_sptr c of Some b \<Rightarrow> int (contig_size b) | None \<Rightarrow> 0) in
      rbind (deref (m_current_request c)) (\<lambda>msg.
        Inr (c\<lparr>m_current_request := Some (set_header ContentLength (int_to_string len) msg)\<rparr>)))"

definition p_internal_write ::
    "'h client_env \<Rightarrow> ('c, 'i, 'h) client \<Rightarrow> (('c, 'i, 'h) client \<times> client_effect list) result" where
  "p_internal_write env c =
     rbind (p_set_content_length
              (c\<lparr>m_rdr := Some (FullMessageReader_new (e_junk_started env) (e_junk_size env)),
                 m_wrtr := Some MessageWriter_new\<rparr>)) (\<lambda>c.
     if m_body_mbuffer_sptr c = None then Inl Assert_Failed
     else
       rbind (deref (m_wrtr c)) (\<lambda>w.
       rbind (deref (m_current_request c)) (\<lambda>msg.
       rbind (async_write_contig (e_method_str env) msg (m_body_mbuffer_sptr c) w) (\<lambda>(w, effs).
         Inr (c\<lparr>m_wrtr := Some w\<rparr>, map Cl_Wr effs)))))"

definition respond ::
    "error_code \<Rightarrow> message option \<Rightarrow> ('c, 'i, 'h) client \<Rightarrow> client_effect list result" where
  "respond ec msg c = rbind (deref (m_response_handler c)) (\<lambda>h. Inr [Cl_Response h ec msg])"

definition p_internal_connect ::
    "'h client_env \<Rightarrow> ('c, 'i, 'h) client \<Rightarrow> (('c, 'i, 'h) client \<times> client_effect list) result" where
  "p_internal_connect env c = client_async_connect env c"

text \<open>The handler \<open>p_internal_connect\<close> gives to the connect.\<close>

definition on_internal_connected ::
    "'h client_env \<Rightarrow> error_code \<Rightarrow> ('c, 'i, 'h) client \<Rightarrow> (('c, 'i, 'h) client \<times> client_effect list) result" where
  "on_internal_connected env ec c =
     (if \<not> ec_failed ec then p_internal_write env c
      else rbind (respond ec None c) (\<lambda>effs. Inr (c, effs)))"

definition client_p_async_write ::
    "'h client_env \<Rightarrow> message \<Rightarrow> nat \<Rightarrow> ('c, 'i, 'h) client \<Rightarrow> (('c, 'i, 'h) client \<times> client_effect list) result" where
  "client_p_async_write env requestMessage cb c =
     (let c = c\<lparr>m_response_handler := Some cb, m_current_request := Some requestMessage\<rparr> in
      if m_conn_shared_ptr c = None then p_internal_connect env c else p_internal_write env c)"

definition client_async_write_string ::
    "'h client_env \<Rightarrow> message \<Rightarrow> string \<Rightarrow> nat \<Rightarrow> ('c, 'i, 'h) client \<Rightarrow> (('c, 'i, 'h) client \<times> client_effect list) result" where
  "client_async_write_string env req body cb c =
     rbind (makeContigBufferSPtr_string body) (\<lambda>b.
       client_p_async_write env req cb (c\<lparr>m_body_mbuffer_sptr := Some b\<rparr>))"

definition client_async_write_contig ::
    "'h client_env \<Rightarrow> message \<Rightarrow> contig_buffer option \<Rightarrow> nat \<Rightarrow> ('c, 'i, 'h) client \<Rightarrow> (('c, 'i, 'h) client \<times> client_effect list) result" where
  "client_async_write_contig env req body cb c =
     client_p_async_write env req cb (c\<lparr>m_body_mbuffer_sptr := body\<rparr>)"

definition client_async_write_chain ::
    "'h client_env \<Rightarrow> message \<Rightarrow> buffer_chain option \<Rightarrow> nat \<Rightarrow> ('c, 'i, 'h) client \<Rightarrow> (('c, 'i, 'h) client \<times> client_effect list) result" where
  "client_async_write_chain env req chain_sptr cb c =
     rbind (deref chain_sptr) (\<lambda>ch.
     rbind (chain_amalgamate ch) (\<lambda>b.
       client_p_async_write env req cb (c\<lparr>m_body_mbuffer_sptr := Some b\<rparr>)))"

definition client_async_write ::
    "'h client_env \<Rightarrow> message \<Rightarrow> nat \<Rightarrow> ('c, 'i, 'h) client \<Rightarrow> (('c, 'i, 'h) client \<times> client_effect list) result" where
  "client_async_write env req cb c =
     rbind (makeContigBufferSPtr_string []) (\<lambda>b.
       client_p_async_write env req cb (c\<lparr>m_body_mbuffer_sptr := Some b\<rparr>))"

text \<open>The calls the reader makes of the handler it was given: the end of the response.\<close>

fun handle_rd :: "rd_effect list \<Rightarrow> ('c, 'i, 'h) client \<Rightarrow> client_effect list result" where
  "handle_rd [] c = Inr []"
| "handle_rd (Async_Read n # es) c = rbind (handle_rd es c) (\<lambda>rest. Inr (Cl_Rd (Async_Read n) # rest))"
| "handle_rd (Read_Cb ec # es) c =
     rbind (if \<not> ec_failed ec
            then rbind (deref (m_rdr c)) (\<lambda>r. rbind (get_message_sptr r) (\<lambda>m. respond ec (Some m) c))
            else respond ec None c) (\<lambda>now.
     rbind (handle_rd es c) (\<lambda>rest. Inr (now @ rest)))"

text \<open>The handler \<open>p_internal_write\<close> gives to the writer.\<close>

definition on_request_written ::
    "'h client_env \<Rightarrow> error_code \<Rightarrow> ('c, 'i, 'h) client \<Rightarrow> (('c, 'i, 'h) client \<times> client_effect list) result option" where
  "on_request_written env ec c =
     (if \<not> ec_failed ec then
        pbind (Some (deref (m_rdr c))) (\<lambda>r.
        pbind (v2_async_read_message (e_fuel env) (e_lib env) (e_junk_method env) (e_junk_status env) r) (\<lambda>(r, effs).
          (let c = c\<lparr>m_rdr := Some r\<rparr> in Some (rbind (handle_rd effs c) (\<lambda>out. Inr (c, out))))))
      else Some (rbind (respond ec None c) (\<lambda>out. Inr (c, out))))"

fun handle_wr ::
    "'h client_env \<Rightarrow> wr_effect list \<Rightarrow> ('c, 'i, 'h) client \<Rightarrow> (('c, 'i, 'h) client \<times> client_effect list) result option" where
  "handle_wr env [] c = Some (Inr (c, []))"
| "handle_wr env (Call_Cb ec # es) c =
     pbind (on_request_written env ec c) (\<lambda>(c, now). pbind (handle_wr env es c) (\<lambda>(c, rest). Some (Inr (c, now @ rest))))"
| "handle_wr env (Post_Cb ec # es) c =
     pbind (on_request_written env ec c) (\<lambda>(c, now). pbind (handle_wr env es c) (\<lambda>(c, rest). Some (Inr (c, now @ rest))))"
| "handle_wr env (e # es) c = pbind (handle_wr env es c) (\<lambda>(c, rest). Some (Inr (c, Cl_Wr e # rest)))"

definition client_close :: "('c, 'i, 'h) client \<Rightarrow> (('c, 'i, 'h) client \<times> client_effect list) result" where
  "client_close c =
     rbind (deref (m_conn_shared_ptr c)) (\<lambda>conn.
     rbind (conn_close conn) (\<lambda>(conn, effs).
       Inr (c\<lparr>m_rdr := None, m_wrtr := None, m_conn_shared_ptr := None\<rparr>, map Cl_Conn effs)))"

definition getResponse :: "('c, 'i, 'h) client \<Rightarrow> message result" where
  "getResponse c = rbind (deref (m_rdr c)) get_message_sptr"

section \<open>Runs\<close>

text \<open>What a client waits for, and what happens when it completes.\<close>

datatype pending = P_Connect | P_Head | P_Body | P_Read

fun waits_for :: "client_effect list \<Rightarrow> pending list" where
  "waits_for [] = []"
| "waits_for (Cl_Conn (E_Resolve h s) # es) = P_Connect # waits_for es"
| "waits_for (Cl_Wr (Write_Contig b) # es) = P_Head # waits_for es"
| "waits_for (Cl_Wr (Write_Chain b) # es) = P_Body # waits_for es"
| "waits_for (Cl_Rd (Async_Read n) # es) = P_Read # waits_for es"
| "waits_for (e # es) = waits_for es"

fun responses :: "client_effect list \<Rightarrow> (nat \<times> error_code \<times> message option) list" where
  "responses [] = []"
| "responses (Cl_Response h ec m # es) = (h, ec, m) # responses es"
| "responses (e # es) = responses es"

fun complete ::
    "'h client_env \<Rightarrow> pending \<Rightarrow> error_code \<Rightarrow> string \<Rightarrow> ('c, 'i, 'h) client \<Rightarrow> (('c, 'i, 'h) client \<times> client_effect list) result option" where
  "complete env P_Connect ec data c = Some (on_internal_connected env ec c)"
| "complete env P_Head ec data c =
     pbind (Some (deref (m_wrtr c))) (\<lambda>w. handle_wr env (on_headers_written ec w) c)"
| "complete env P_Body ec data c = handle_wr env (on_body_written ec) c"
| "complete env P_Read ec data c =
     pbind (Some (deref (m_rdr c))) (\<lambda>r.
     pbind (on_read (e_fuel env) (e_lib env) ec data r) (\<lambda>(r, effs).
       (let c = c\<lparr>m_rdr := Some r\<rparr> in Some (rbind (handle_rd effs c) (\<lambda>out. Inr (c, out))))))"

text \<open>One request: from its write, every operation the client waits for completes, with any outcome.\<close>

inductive requesting ::
    "'h client_env \<Rightarrow> nat \<Rightarrow> ('c, 'i, 'h) client \<Rightarrow> pending list \<Rightarrow> (nat \<times> error_code \<times> message option) list \<Rightarrow> bool"
  for env cb where
  requesting_start: "client_p_async_write env req cb c = Inr (c', effs) \<Longrightarrow>
     requesting env cb c' (waits_for effs) (responses effs)"
| requesting_complete: "requesting env cb c (p # ps) rs \<Longrightarrow> ec_failed ec \<or> data \<noteq> [] \<or> p \<noteq> P_Read \<Longrightarrow>
     complete env p ec data c = Some (Inr (c', effs)) \<Longrightarrow>
     requesting env cb c' (ps @ waits_for effs) (rs @ responses effs)"

section \<open>One response per request\<close>

lemma p_internal_write_effects:
  assumes "p_internal_write env c = Inr (c', effs)"
  shows "\<exists>mb r. effs = [Cl_Wr (Write_Contig mb)] \<and> m_rdr c' = Some r \<and> m_streambuffer r = [] \<and>
           m_response_handler c' = m_response_handler c"
  using assms
  by (auto simp: p_internal_write_def p_set_content_length_def async_write_contig_def async_write_def
      async_write_headers_def FullMessageReader_new_def rbind_Inr_iff deref_Inr_iff Let_def split: if_splits option.splits)

definition cl_inv ::
    "'h client_env \<Rightarrow> nat \<Rightarrow> ('c, 'i, 'h) client \<Rightarrow> pending list \<Rightarrow> (nat \<times> error_code \<times> message option) list \<Rightarrow> bool" where
  "cl_inv env cb c ps rs \<longleftrightarrow>
     m_response_handler c = Some cb \<and>
     (case ps of
        [] \<Rightarrow> (\<exists>ec m. rs = [(cb, ec, m)] \<and> (ec_failed ec \<longleftrightarrow> m = None) \<and>
               (\<not> ec_failed ec \<longrightarrow> (\<exists>r. m_rdr c = Some r \<and> get_message_sptr r = Inr (the m) \<and>
                  (header_done (m_parser r) \<or> message_done (m_parser r)))))
      | p # ps' \<Rightarrow> ps' = [] \<and> rs = [] \<and>
          (p \<in> {P_Head, P_Body} \<longrightarrow> (\<exists>r. m_rdr c = Some r \<and> m_streambuffer r = [])) \<and>
          (p = P_Read \<longrightarrow> (\<exists>r. m_rdr c = Some r \<and> read_inv (e_lib env) r 1 [])))"

lemma on_request_written_inv:
  assumes "http_parser_contract (e_lib env)" "m_response_handler c = Some cb" "m_rdr c = Some r" "m_streambuffer r = []"
    and "on_request_written env ec c = Some (Inr (c', effs))"
  shows "cl_inv env cb c' (waits_for effs) (responses effs)"
proof (cases "ec_failed ec")
  case True
  then show ?thesis using assms(2,5) by (auto simp: on_request_written_def respond_def cl_inv_def)
next
  case False
  then obtain r' es where r': "v2_async_read_message (e_fuel env) (e_lib env) (e_junk_method env) (e_junk_status env) r =
        Some (Inr (r', es))" "handle_rd es (c\<lparr>m_rdr := Some r'\<rparr>) = Inr effs" "c' = c\<lparr>m_rdr := Some r'\<rparr>"
    using assms(3,5) by (auto simp: on_request_written_def pbind_Inr_iff rbind_Inr_iff Let_def)
  note s = async_read_message_start [OF assms(1,4) r'(1) [unfolded v2_async_read_message_def]]
  obtain k where "es = [Async_Read k]" using s(1) by blast
  then show ?thesis using r'(2,3) s(2,3) assms(2) by (auto simp: cl_inv_def read_inv_def)
qed

lemma complete_read_inv:
  assumes "http_parser_contract (e_lib env)" "m_response_handler c = Some cb" "m_rdr c = Some r" "read_inv (e_lib env) r 1 []"
    and "ec_failed ec \<or> data \<noteq> []" "complete env P_Read ec data c = Some (Inr (c', effs))"
  shows "cl_inv env cb c' (waits_for effs) (responses effs)"
proof -
  obtain r' es where r': "on_read (e_fuel env) (e_lib env) ec data r = Some (Inr (r', es))"
      "handle_rd es (c\<lparr>m_rdr := Some r'\<rparr>) = Inr effs" "c' = c\<lparr>m_rdr := Some r'\<rparr>"
    using assms(3,6) by (auto simp: pbind_Inr_iff rbind_Inr_iff Let_def)
  have i: "read_inv (e_lib env) r' (n_reads es) (cb_calls es)"
    using on_read_inv [OF assms(1) _ assms(5) r'(1), of 0 "[]"] assms(4) by simp
  then have "length es = 1"
  proof -
    have "length xs = n_reads xs + length (cb_calls xs)" for xs by (induction xs rule: n_reads.induct) auto
    then show ?thesis using i by (simp add: read_inv_def)
  qed
  then obtain e where es: "es = [e]" by (cases es) auto
  show ?thesis
  proof (cases e)
    case (Async_Read k)
    then show ?thesis using es i r'(2,3) assms(2) by (auto simp: cl_inv_def)
  next
    case (Read_Cb ec')
    have "\<not> ec_failed ec' \<Longrightarrow> header_done (m_parser r') \<or> message_done (m_parser r')"
      using i es Read_Cb by (simp add: read_inv_def)
    then show ?thesis
      using es Read_Cb r'(2,3) assms(2)
      by (cases "ec_failed ec'") (auto simp: cl_inv_def respond_def rbind_Inr_iff)
  qed
qed

lemma complete_inv:
  assumes "http_parser_contract (e_lib env)" "cl_inv env cb c (p # ps) rs" "ec_failed ec \<or> data \<noteq> [] \<or> p \<noteq> P_Read"
    and "complete env p ec data c = Some (Inr (c', effs))"
  shows "cl_inv env cb c' (ps @ waits_for effs) (rs @ responses effs)"
proof -
  have e: "ps = []" "rs = []" "m_response_handler c = Some cb" using assms(2) by (auto simp: cl_inv_def)
  show ?thesis
  proof (cases p)
    case P_Connect
    then show ?thesis
      using assms(4) e p_internal_write_effects
      by (fastforce simp: on_internal_connected_def respond_def cl_inv_def split: if_splits)
  next
    case P_Head
    then obtain r w where r: "m_rdr c = Some r" "m_streambuffer r = []" and w: "m_wrtr c = Some w"
      using assms(2,4) by (auto simp: cl_inv_def pbind_Inr_iff deref_Inr_iff)
    consider (cb) ec' where "on_headers_written ec w \<in> {[Call_Cb ec'], [Post_Cb ec']}" | (body) ch where "on_headers_written ec w = [Write_Chain ch]"
      by (cases "ec_failed ec"; cases "m_body_buffer_chain_sptr w"; cases "chain_size (the (m_body_buffer_chain_sptr w)) = 0")
        (auto simp: on_headers_written_def p_async_write_full_body_def)
    then show ?thesis
    proof cases
      case cb
      then have "on_request_written env ec' c = Some (Inr (c', effs))"
        using assms(4) P_Head w by (auto simp: pbind_Inr_iff)
      then show ?thesis using on_request_written_inv [OF assms(1) e(3) r] e by simp
    next
      case body
      then show ?thesis using assms(4) P_Head w r e by (auto simp: cl_inv_def)
    qed
  next
    case P_Body
    then obtain r where r: "m_rdr c = Some r" "m_streambuffer r = []" using assms(2) by (auto simp: cl_inv_def)
    have "on_request_written env ec c = Some (Inr (c', effs))"
      using assms(4) P_Body by (auto simp: on_body_written_def pbind_Inr_iff)
    then show ?thesis using on_request_written_inv [OF assms(1) e(3) r] e by simp
  next
    case P_Read
    then obtain r where "m_rdr c = Some r" "read_inv (e_lib env) r 1 []" using assms(2) by (auto simp: cl_inv_def)
    then show ?thesis using complete_read_inv [OF assms(1) e(3)] assms(3,4) P_Read e by auto
  qed
qed

lemma requesting_inv:
  assumes "http_parser_contract (e_lib env)" "requesting env cb c ps rs"
  shows "cl_inv env cb c ps rs"
  using assms(2)
proof induction
  case (requesting_start req c c' effs)
  show ?case
  proof (cases "m_conn_shared_ptr c = None")
    case True
    then show ?thesis
      using requesting_start
      by (auto simp: client_p_async_write_def p_internal_connect_def client_async_connect_def async_connect_def
          cl_inv_def Let_def)
  next
    case False
    then have "p_internal_write env (c\<lparr>m_response_handler := Some cb, m_current_request := Some req\<rparr>) = Inr (c', effs)"
      using requesting_start by (auto simp: client_p_async_write_def Let_def)
    then show ?thesis using p_internal_write_effects by (fastforce simp: cl_inv_def)
  qed
next
  case (requesting_complete c p ps rs ec data c' effs)
  then show ?case using complete_inv [OF assms(1)] by blast
qed


definition sample_env :: "int client_env" where
  "sample_env = \<lparr>e_config = default_config, e_method_str = (\<lambda>_. ''GET''), e_lib = line_lib, e_fuel = 10,
     e_junk_started = False, e_junk_size = 0, e_junk_method = 0, e_junk_status = 0\<rparr>"


section \<open>What a request sends\<close>

lemma p_internal_write_sends:
  assumes "m_current_request c = Some req" "m_body_mbuffer_sptr c = Some b" "contig_inv b"
    and "serialize_headers (e_method_str env) (set_header ContentLength (nat_to_string (length (contig_content b))) req) = Inr mb"
  shows "\<exists>c' ch. p_internal_write env c = Inr (c', [Cl_Wr (Write_Contig mb)]) \<and>
     complete env P_Head make_error_ok [] c' =
       handle_wr env (if contig_content b = [] then [Post_Cb make_error_ok] else [Write_Chain ch]) c' \<and>
     wire (Write_Chain ch) = Some (contig_content b)"
proof -
  let ?m = "set_header ContentLength (nat_to_string (length (contig_content b))) req"
  let ?ch = "makeBufferChainSPtr_contig b"
  have ch: "chain_inv ?ch" "chain_content ?ch = contig_content b"
    using chain_push_back_inv [of "chain_new getTestFactory" b] assms(3) by (simp_all add: makeBufferChainSPtr_contig_def)
  have z: "chain_size ?ch = 0 \<longleftrightarrow> contig_content b = []"
    using ch by (simp add: chain_inv_def chain_size_def)
  have n: "int_to_string (int (contig_size b)) = nat_to_string (length (contig_content b))"
    using assms(3) by (simp add: int_to_string_def contig_size_def length_contig_content contig_inv_def)
  have w: "async_write_contig (e_method_str env) ?m (Some b) MessageWriter_new =
      Inr (MessageWriter_new\<lparr>m_body_buffer_chain_sptr := Some ?ch, w_current_message := Some ?m, m_header_buf_sptr := Some mb\<rparr>,
           [Write_Contig mb])"
    using async_write_head [OF assms(4)] by (simp add: async_write_contig_def)
  define w' where "w' = MessageWriter_new\<lparr>m_body_buffer_chain_sptr := Some ?ch, w_current_message := Some ?m, m_header_buf_sptr := Some mb\<rparr>"
  have h: "on_headers_written make_error_ok w' = (if contig_content b = [] then [Post_Cb make_error_ok] else [Write_Chain ?ch])"
    using z by (simp add: w'_def on_headers_written_def p_async_write_full_body_def)
  obtain c' where c': "p_internal_write env c = Inr (c', [Cl_Wr (Write_Contig mb)])" "m_wrtr c' = Some w'"
    using assms(1,2) n w by (simp add: p_internal_write_def p_set_content_length_def w'_def)
  then have "complete env P_Head make_error_ok [] c' = handle_wr env (on_headers_written make_error_ok w') c'" by simp
  moreover have "wire (Write_Chain ?ch) = Some (contig_content b)" using ch by (simp add: asio_sequence_content)
  ultimately show ?thesis using c'(1) unfolding h by blast
qed

lemma sample_length_head_ok:
  "\<exists>mb. serialize_headers (\<lambda>_. ''GET'') (set_header ContentLength (nat_to_string (chain_size sample_chain)) (MessageBase_new 1 0)) =
        Inr mb \<and> contig_inv mb"
proof -
  let ?m = "set_header ContentLength (nat_to_string (chain_size sample_chain)) (MessageBase_new 1 0)"
  have "nat_to_string 0 = ''0''" "trim ''0'' = ''0''" by code_simp+
  then have "length (concat (head_pieces (\<lambda>_. ''GET'') ?m)) \<le> 1048576"
    by (simp add: head_pieces_def MessageBase_new_def method_string_def http_method_string_def sample_chain_def
        chain_size_def chain_new_def set_header_def set_at_key_def find_at_index_def crlf_def header_names)
  then show ?thesis using serialize_headers_fits by blast
qed

text \<open>
  C33. A request sent with a body chain on a connected client: if the chain fits into one buffer of its
  factory, the client writes the head of the request with \<open>Content-Length\<close> set to the number of body
  bytes, whatever it was, and then exactly the bytes of the chain; if it does not fit, the call throws and
  nothing is sent.
\<close>

theorem client_sends_request:
  assumes "chain_inv ch" "m_conn_shared_ptr c = Some conn"
    and "serialize_headers (e_method_str env) (set_header ContentLength (nat_to_string (chain_size ch)) req) = Inr mb"
    and "contig_inv mb"
  shows "if chain_size ch \<le> max_size (m_buf_factory ch)
     then \<exists>c' body. client_async_write_chain env req (Some ch) cb c = Inr (c', [Cl_Wr (Write_Contig mb)]) \<and>
            wire (Write_Contig mb) = Some (contig_content mb) \<and> m_response_handler c' = Some cb \<and>
            wire (Write_Chain body) = Some (chain_content ch) \<and>
            complete env P_Head make_error_ok [] c' =
              handle_wr env (if chain_content ch = [] then [Post_Cb make_error_ok] else [Write_Chain body]) c'
     else client_async_write_chain env req (Some ch) cb c = Inl Alloc_Too_Big"
proof (cases "chain_size ch \<le> max_size (m_buf_factory ch)")
  case True
  obtain b where b: "chain_amalgamate ch = Inr b" "contig_inv b" "contig_content b = chain_content ch"
    using chain_amalgamate_ok [OF assms(1) True] by blast
  let ?c = "c\<lparr>m_body_mbuffer_sptr := Some b, m_response_handler := Some cb, m_current_request := Some req\<rparr>"
  have r: "client_async_write_chain env req (Some ch) cb c = p_internal_write env ?c"
    using b(1) assms(2) by (simp add: client_async_write_chain_def client_p_async_write_def Let_def)
  have l: "length (contig_content b) = chain_size ch" using b(3) assms(1) by (simp add: chain_inv_def chain_size_def)
  obtain c' body where w: "p_internal_write env ?c = Inr (c', [Cl_Wr (Write_Contig mb)])"
      "complete env P_Head make_error_ok [] c' =
         handle_wr env (if contig_content b = [] then [Post_Cb make_error_ok] else [Write_Chain body]) c'"
      "wire (Write_Chain body) = Some (contig_content b)"
    using p_internal_write_sends [of ?c req b env mb] assms(3) b(2) l by auto
  moreover have "m_response_handler c' = Some cb" using p_internal_write_effects [OF w(1)] by auto
  moreover have "wire (Write_Contig mb) = Some (contig_content mb)" using assms(4) by (simp add: asio_view_content)
  ultimately show ?thesis unfolding r using True b(3) by auto
next
  case False
  then show ?thesis by (simp add: client_async_write_chain_def chain_amalgamate_too_big)
qed

theorem client_sends_request_witness:
  "\<exists>mb c' :: (unit, unit, int) client.
     client_async_write_chain sample_env (MessageBase_new 1 0) (Some sample_chain) 7
       (client_new_conn (Connection_client default_config ''http'' ''h'' ''80'')) = Inr (c', [Cl_Wr (Write_Contig mb)])"
proof -
  let ?m = "set_header ContentLength (nat_to_string (chain_size sample_chain)) (MessageBase_new 1 0)"
  let ?c = "client_new_conn (Connection_client default_config ''http'' ''h'' ''80'') :: (unit, unit, int) client"
  obtain mb where mb: "serialize_headers (\<lambda>_. ''GET'') ?m = Inr mb" "contig_inv mb"
    using sample_length_head_ok by blast
  have e: "e_method_str sample_env = (\<lambda>_. ''GET'')" by (simp add: sample_env_def)
  have s: "chain_size sample_chain \<le> max_size (m_buf_factory sample_chain)"
    by (simp add: sample_chain_def chain_size_def chain_new_def)
  have "m_conn_shared_ptr ?c = Some (Connection_client default_config ''http'' ''h'' ''80'')" by (simp add: client_new_conn_def)
  from client_sends_request [OF sample_chain_inv this _ mb(2), of sample_env "MessageBase_new 1 0" 7]
  show ?thesis using mb(1) e s by auto
qed

text \<open>
  A client whose connect failed is left holding the unconnected socket: the next request is written to
  it without a connect, and an explicit connect throws; only \<open>close\<close> resets it.
\<close>

theorem client_failed_connect_sticks:
  assumes "m_conn_shared_ptr c = None" "ec_failed ec"
    and "client_p_async_write env req cb c = Inr (c1, effs)"
    and "complete env P_Connect ec [] c1 = Some (Inr (c2, effs'))"
  shows "effs = [Cl_Conn (E_Resolve (cl_server c) (cl_port c))] \<and> effs' = [Cl_Response cb ec None] \<and>
         client_async_connect env c2 = Inl Unexpected_Connection \<and>
         client_p_async_write env req' cb' c2 =
           p_internal_write env (c2\<lparr>m_response_handler := Some cb', m_current_request := Some req'\<rparr>) \<and>
         (\<exists>c3 es. client_close c2 = Inr (c3, es) \<and> m_conn_shared_ptr c3 = None)"
  using assms
  by (auto simp: client_p_async_write_def p_internal_connect_def client_async_connect_def async_connect_def
      on_internal_connected_def respond_def client_close_def conn_close_def socket_factory_client_def
      Connection_client_def Let_def)

theorem client_failed_connect_sticks_witness:
  "\<exists>c1 c2. client_p_async_write sample_env (MessageBase_new 0 0) 7 (client_new ''http'' ''h'' ''80'' :: (unit, unit, int) client) =
             Inr (c1, [Cl_Conn (E_Resolve ''h'' ''80'')]) \<and>
           complete sample_env P_Connect make_error_parse [] c1 = Some (Inr (c2, [Cl_Response 7 make_error_parse None])) \<and>
           client_async_connect sample_env c2 = Inl Unexpected_Connection"
proof -
  let ?c = "client_new ''http'' ''h'' ''80'' :: (unit, unit, int) client"
  have n: "m_conn_shared_ptr ?c = None" "cl_server ?c = ''h''" "cl_port ?c = ''80''" by (simp_all add: client_new_def)
  obtain c1 effs where c1: "client_p_async_write sample_env (MessageBase_new 0 0) 7 ?c = Inr (c1, effs)"
      "m_response_handler c1 = Some 7"
    by (simp add: client_p_async_write_def p_internal_connect_def client_async_connect_def client_new_def Let_def)
  then have c2: "complete sample_env P_Connect make_error_parse [] c1 = Some (Inr (c1, [Cl_Response 7 make_error_parse None]))"
    by (simp add: on_internal_connected_def respond_def)
  show ?thesis
    using client_failed_connect_sticks [OF n(1) make_eparse_failed(2) c1(1) c2] c1(1) c2 n(2,3) by auto
qed

end
