(* ===== verification/Collectors.thy ===== *)
theory Collectors
  imports Message Std_Regex
begin

text \<open>
  \<open>marvin/collector\<close>: the filter that decides which hosts are intercepted, the collector that keeps the
  latest exchanges per host, and the texts that the other collectors write for an exchange.

  A filter is a pattern string that \<open>std::regex\<close> compiles at every use. The patterns come from the
  configuration, so their compilation is an argument, \<^term>\<open>None\<close> where the constructor throws. The
  updates of the captures run one after another on the event loop of the collector.
\<close>

section \<open>The capture filter\<close>

record capture_filter =
  m_filters :: "string list"
  m_show_message_bodies :: bool

definition CaptureFilter_new :: "string list \<Rightarrow> capture_filter" where
  "CaptureFilter_new initial = \<lparr>m_filters = initial, m_show_message_bodies = False\<rparr>"

fun filter_loop :: "(string \<Rightarrow> regex option) \<Rightarrow> string \<Rightarrow> string list \<Rightarrow> bool result" where
  "filter_loop compile host [] = Inr False"
| "filter_loop compile host (f # fs) =
     (case compile f of
        None \<Rightarrow> Inl Regex_Error
      | Some e \<Rightarrow> if regex_match host e then Inr True else filter_loop compile host fs)"

definition is_collectable :: "(string \<Rightarrow> regex option) \<Rightarrow> string \<Rightarrow> capture_filter \<Rightarrow> bool result" where
  "is_collectable compile host cf = filter_loop compile host (m_filters cf)"

definition is_body_collectable :: "message \<Rightarrow> bool" where
  "is_body_collectable msg = True"

definition set_show_message_bodies :: "bool \<Rightarrow> capture_filter \<Rightarrow> capture_filter" where
  "set_show_message_bodies on_off cf = cf\<lparr>m_show_message_bodies := on_off\<rparr>"

definition set_filters :: "string list \<Rightarrow> capture_filter \<Rightarrow> capture_filter" where
  "set_filters fs cf = cf\<lparr>m_filters := fs\<rparr>"

section \<open>The capture collector\<close>

record captured_exchange =
  x_scheme :: string
  x_host :: string
  x_req :: "message option"
  x_resp :: "message option"

record host_captures =
  hc_host :: string
  exchanges :: "captured_exchange list"

type_synonym captured_traffic = "host_captures list"

text \<open>The record made by \<open>collect\<close> before it posts: both messages are null.\<close>

definition captured :: "string \<Rightarrow> string \<Rightarrow> message option \<Rightarrow> message option \<Rightarrow> captured_exchange" where
  "captured scheme host req resp = \<lparr>x_scheme = scheme, x_host = host, x_req = None, x_resp = None\<rparr>"

text \<open>The loops \<open>while (list.size() > 10) list.pop_front()\<close>.\<close>

fun pop_while_over_10 :: "'a list \<Rightarrow> 'a list" where
  "pop_while_over_10 [] = []"
| "pop_while_over_10 (x # xs) = (if length (x # xs) > 10 then pop_while_over_10 xs else x # xs)"

definition push_exchange :: "captured_exchange \<Rightarrow> captured_exchange list \<Rightarrow> captured_exchange list" where
  "push_exchange ex xs = pop_while_over_10 xs @ [ex]"

definition push_host :: "host_captures \<Rightarrow> captured_traffic \<Rightarrow> captured_traffic" where
  "push_host hc cs = pop_while_over_10 cs @ [hc]"

text \<open>The loop over the hosts: \<^term>\<open>None\<close> when it falls through.\<close>

fun add_to_host :: "captured_exchange \<Rightarrow> captured_traffic \<Rightarrow> captured_traffic option" where
  "add_to_host ex [] = None"
| "add_to_host ex (item # items) =
     (if hc_host item = x_host ex then Some (item\<lparr>exchanges := push_exchange ex (exchanges item)\<rparr> # items)
      else map_option (\<lambda>rest. item # rest) (add_to_host ex items))"

definition posted_update :: "captured_exchange \<Rightarrow> captured_traffic \<Rightarrow> captured_traffic" where
  "posted_update ex traffic =
     (case add_to_host ex traffic of
        Some traffic' \<Rightarrow> traffic'
      | None \<Rightarrow> push_host \<lparr>hc_host = x_host ex, exchanges = [ex]\<rparr> traffic)"

definition collect :: "string \<times> string \<times> message option \<times> message option \<Rightarrow> captured_traffic \<Rightarrow> captured_traffic" where
  "collect a = (case a of (scheme, host, req, resp) \<Rightarrow> posted_update (captured scheme host req resp))"

section \<open>What the writing collectors print\<close>

definition endl :: string where
  "endl = [CHR 0x0A]"

definition rule_line :: string where
  "rule_line = ''------------------------------------------------'' @ endl"

definition version_text :: "message \<Rightarrow> string" where
  "version_text m = ''HTTP/'' @ int_to_string (m_http_major m) @ ''.'' @ int_to_string (m_http_minor m)"

definition request_text :: "(int \<Rightarrow> string) \<Rightarrow> string \<Rightarrow> string \<Rightarrow> message \<Rightarrow> string" where
  "request_text mstr scheme host req =
     rule_line @ ''HOST: '' @ scheme @ ''://'' @ host @ endl @ ''REQUEST : ========='' @ endl @
     method_string mstr req @ '' '' @ m_target req @ '' '' @ version_text req @ endl @ dump_headers req"

definition response_text :: "message \<Rightarrow> string" where
  "response_text resp =
     ''RESPONSE : ========'' @ endl @ version_text resp @ '' '' @ int_to_string (m_status_code resp) @ '' '' @
     m_reason resp @ endl @ dump_headers resp"

text \<open>The texts; \<^term>\<open>Inr None\<close> when printing a body would read unwritten memory.\<close>

definition base_posted_collect ::
    "(int \<Rightarrow> string) \<Rightarrow> string \<Rightarrow> string \<Rightarrow> message \<Rightarrow> message \<Rightarrow> string option result" where
  "base_posted_collect mstr scheme host req resp =
     rbind (deref (m_body_chain_sptr req)) (\<lambda>c.
       Inr (map_option (\<lambda>body. request_text mstr scheme host req @ ''Body: '' @ endl @ body @ endl @
              response_text resp @ rule_line) (chain_to_string c)))"

definition cout_posted_collect ::
    "capture_filter \<Rightarrow> (int \<Rightarrow> string) \<Rightarrow> string \<Rightarrow> string \<Rightarrow> message \<Rightarrow> message \<Rightarrow> string option result" where
  "cout_posted_collect cf mstr scheme host req resp =
     rbind (deref (m_body_chain_sptr req)) (\<lambda>c.
       Inr (cat_options
         [Some (request_text mstr scheme host req @ ''Body: '' @ endl), chain_to_string c,
          Some (endl @ response_text resp),
          (if m_show_message_bodies cf then
             (case m_body_chain_sptr resp of
                Some rc \<Rightarrow> map_option (\<lambda>b. b @ endl) (chain_to_string rc)
              | None \<Rightarrow> Some (''[]'' @ endl))
           else Some []),
          Some rule_line]))"

definition headerValueMatched :: "string \<Rightarrow> regex list \<Rightarrow> bool" where
  "headerValueMatched hv regexs = list_ex (regex_search hv) regexs"

definition bodyIsCollectable :: "message \<Rightarrow> regex list \<Rightarrow> bool" where
  "bodyIsCollectable msg regexs =
     (case header ContentType msg of Some hv \<Rightarrow> headerValueMatched hv regexs | None \<Rightarrow> False)"

text \<open>The dot of a pattern: any character but a line terminator.\<close>

definition dot :: "char \<Rightarrow> bool" where
  "dot c \<longleftrightarrow> c \<noteq> CHR 0x0A \<and> c \<noteq> CHR 0x0D"

text \<open>The patterns \<open>^text\/(.)*$\<close> and \<open>^application\/(.)*$/\<close>.\<close>

definition pipe_regexs :: "regex list" where
  "pipe_regexs =
     [Cat Bol (lit_re (=) ''text/'' (Cat (Rep (Cls dot)) Eol)),
      Cat Bol (lit_re (=) ''application/'' (Cat (Rep (Cls dot)) (Cat Eol (Cls (\<lambda>c. c = CHR ''/'')))))]"

text \<open>The text given to the pipe, when it is open.\<close>

definition pipe_posted_collect ::
    "bool \<Rightarrow> (int \<Rightarrow> string) \<Rightarrow> string \<Rightarrow> string \<Rightarrow> message \<Rightarrow> message \<Rightarrow> string option option result" where
  "pipe_posted_collect pipe_open mstr scheme host req resp =
     rbind (if bodyIsCollectable req pipe_regexs
            then rbind (deref (m_body_chain_sptr req)) (\<lambda>c. Inr (chain_to_string c)) else Inr (Some [])) (\<lambda>req_body.
       (let text = cat_options
          [Some (request_text mstr scheme host req), req_body, Some (endl @ response_text resp),
           (if bodyIsCollectable resp pipe_regexs then
              (case m_body_chain_sptr resp of
                 Some rc \<Rightarrow> map_option (\<lambda>b. b @ endl) (chain_to_string rc)
               | None \<Rightarrow> Some (''[]'' @ endl))
            else Some []),
           Some rule_line] in
        Inr (if pipe_open then Some text else None)))"

section \<open>Bounded windows\<close>

text \<open>
  A list to which items are pushed and which keeps the latest of them. The lists of exchanges and of
  hosts are such windows of eleven items: the loop pops down to ten before the push.
\<close>

definition latest :: "nat \<Rightarrow> 'a list \<Rightarrow> 'a list" where
  "latest n xs = drop (length xs - n) xs"

lemma length_latest [simp]: "length (latest n xs) = min n (length xs)"
  by (simp add: latest_def)

lemma latest_all [simp]: "length xs \<le> n \<Longrightarrow> latest n xs = xs"
  by (simp add: latest_def)

lemma list_all_latest: "list_all P xs \<Longrightarrow> list_all P (latest n xs)"
  by (auto simp: latest_def list_all_iff dest: in_set_dropD)

lemma latest_snoc_latest: "0 < n \<Longrightarrow> latest n (latest n xs @ [x]) = latest n (xs @ [x])"
  by (cases "length xs \<le> n") (auto simp: latest_def Suc_diff_le min_def)

locale window =
  fixes push :: "'a \<Rightarrow> 'a list \<Rightarrow> 'a list" and bound :: nat
  assumes bound_pos: "0 < bound"
    and push_latest: "length xs \<le> bound \<Longrightarrow> push x xs = latest bound (xs @ [x])"
begin

lemma push_bounded: "length xs \<le> bound \<Longrightarrow> length (push x xs) \<le> bound"
  by (simp add: push_latest)

lemma fold_push: "fold push ys (latest bound xs) = latest bound (xs @ ys)"
proof (induction ys arbitrary: xs)
  case (Cons y ys)
  have "push y (latest bound xs) = latest bound (xs @ [y])"
    using bound_pos by (simp add: push_latest latest_snoc_latest)
  then show ?case using Cons.IH [of "xs @ [y]"] by simp
qed simp

end

lemma pop_while_over_10: "pop_while_over_10 xs = latest 10 xs"
proof (induction xs)
  case (Cons x xs)
  have "9 < length xs \<Longrightarrow> length xs - 9 = Suc (length xs - 10)" by arith
  then show ?case using Cons by (auto simp: latest_def)
qed (simp add: latest_def)

lemma push_11: "length xs \<le> 11 \<Longrightarrow> latest 10 xs @ [x] = latest 11 (xs @ [x])"
  by (auto simp: latest_def)

interpretation ex_win: window push_exchange 11
  by unfold_locales (simp_all add: push_exchange_def pop_while_over_10 push_11)

interpretation host_win: window push_host 11
  by unfold_locales (simp_all add: push_host_def pop_while_over_10 push_11)

section \<open>Invariant of the captures\<close>

definition captures_of :: "string \<Rightarrow> captured_traffic \<Rightarrow> captured_exchange list" where
  "captures_of h cs = concat (map exchanges (filter (\<lambda>hc. hc_host hc = h) cs))"

definition traffic_inv :: "captured_traffic \<Rightarrow> bool" where
  "traffic_inv cs \<longleftrightarrow>
     distinct (map hc_host cs) \<and> length cs \<le> 11 \<and>
     list_all (\<lambda>hc. exchanges hc \<noteq> [] \<and> length (exchanges hc) \<le> 11 \<and>
       list_all (\<lambda>ex. x_host ex = hc_host hc \<and> x_req ex = None \<and> x_resp ex = None) (exchanges hc)) cs"

lemma add_to_host_None: "add_to_host ex cs = None \<longleftrightarrow> x_host ex \<notin> hc_host ` set cs"
  by (induction cs) auto

lemma captures_of_absent: "h \<notin> hc_host ` set cs \<Longrightarrow> captures_of h cs = []"
  by (auto simp: captures_of_def)

lemma captures_of_Cons:
  "captures_of h (hc # cs) = (if hc_host hc = h then exchanges hc @ captures_of h cs else captures_of h cs)"
  by (simp add: captures_of_def)

lemma add_to_host_Some:
  assumes "add_to_host ex cs = Some cs'" "distinct (map hc_host cs)"
  shows "map hc_host cs' = map hc_host cs"
    and "captures_of h cs' = (if h = x_host ex then push_exchange ex (captures_of h cs) else captures_of h cs)"
  using assms
proof (induction cs arbitrary: cs')
  case (Cons c cs)
  {
    case 1
    then show ?case using Cons.IH(1) by (auto split: if_splits)
  next
    case 2
    then show ?case
      using Cons.IH(2) captures_of_absent [of "x_host ex" cs]
      by (auto simp: captures_of_Cons split: if_splits)
  }
qed simp_all

lemma add_to_host_inv:
  assumes "add_to_host ex cs = Some cs'" "traffic_inv cs" "x_req ex = None" "x_resp ex = None"
  shows "traffic_inv cs'"
proof -
  have h: "map hc_host cs' = map hc_host cs" using add_to_host_Some(1) assms by (simp add: traffic_inv_def)
  have "list_all (\<lambda>hc. exchanges hc \<noteq> [] \<and> length (exchanges hc) \<le> 11 \<and>
       list_all (\<lambda>ex. x_host ex = hc_host hc \<and> x_req ex = None \<and> x_resp ex = None) (exchanges hc)) cs'"
    using assms(1,2) unfolding traffic_inv_def
  proof (induction cs arbitrary: cs')
    case (Cons c cs)
    show ?case
    proof (cases "hc_host c = x_host ex")
      case True
      have "push_exchange ex (exchanges c) = latest 11 (exchanges c @ [ex])"
        using Cons.prems by (intro ex_win.push_latest) simp
      moreover have "list_all (\<lambda>ex. x_host ex = hc_host c \<and> x_req ex = None \<and> x_resp ex = None) (latest 11 (exchanges c @ [ex]))"
        using True Cons.prems assms(3,4) by (intro list_all_latest) simp
      moreover have "latest 11 (ys @ [ex]) \<noteq> []" for ys by (simp add: latest_def)
      ultimately show ?thesis using True Cons.prems by auto
    next
      case False
      then obtain rest where "add_to_host ex cs = Some rest" "cs' = c # rest" using Cons.prems by auto
      then show ?thesis using Cons.IH Cons.prems by simp
    qed
  qed simp
  moreover have "length cs' = length cs" using h by (metis length_map)
  ultimately show ?thesis using h assms(2) by (simp add: traffic_inv_def)
qed

lemma push_host_inv:
  assumes "traffic_inv cs" "x_host ex \<notin> hc_host ` set cs" "x_req ex = None" "x_resp ex = None"
  shows "traffic_inv (push_host \<lparr>hc_host = x_host ex, exchanges = [ex]\<rparr> cs)"
proof -
  let ?new = "\<lparr>hc_host = x_host ex, exchanges = [ex]\<rparr>"
  have p: "push_host ?new cs = pop_while_over_10 cs @ [?new]" by (simp add: push_host_def)
  have d: "pop_while_over_10 cs = drop (length cs - 10) cs" by (simp add: pop_while_over_10 latest_def)
  have "distinct (map hc_host (drop (length cs - 10) cs))" "set (drop (length cs - 10) cs) \<subseteq> set cs"
    using assms(1) by (simp_all add: traffic_inv_def drop_map [symmetric] set_drop_subset)
  then show ?thesis
    using assms unfolding p d traffic_inv_def by (auto simp: list_all_iff)
qed

lemma posted_update_inv:
  assumes "traffic_inv cs" "x_req ex = None" "x_resp ex = None"
  shows "traffic_inv (posted_update ex cs)"
  using assms add_to_host_inv push_host_inv
  by (auto simp: posted_update_def add_to_host_None split: option.splits)

lemma collect_inv: "traffic_inv cs \<Longrightarrow> traffic_inv (collect a cs)"
  by (cases a) (simp add: collect_def captured_def posted_update_inv)

lemma collect_args: "collect (s, h, a, b) cs = posted_update (captured s h a b) cs"
  by (simp add: collect_def)

lemma x_host_captured: "x_host (captured s h a b) = h"
  by (simp add: captured_def)

lemma fold_collect_inv: "traffic_inv cs \<Longrightarrow> traffic_inv (fold collect xs cs)"
  by (induction xs arbitrary: cs) (simp_all add: collect_inv)

lemma traffic_inv_Nil [simp]: "traffic_inv []"
  by (simp add: traffic_inv_def)

text \<open>With room for the hosts, one update appends to the window of its host and touches no other.\<close>

lemma posted_update_captures:
  assumes "traffic_inv cs" "length cs < 11 \<or> x_host ex \<in> hc_host ` set cs"
  shows "captures_of h (posted_update ex cs) =
     (if h = x_host ex then latest 11 (captures_of h cs @ [ex]) else captures_of h cs)"
    and "hc_host ` set (posted_update ex cs) = insert (x_host ex) (hc_host ` set cs)"
proof -
  have d: "distinct (map hc_host cs)" using assms(1) by (simp add: traffic_inv_def)
  have len: "length (captures_of h cs) \<le> 11"
  proof -
    have "list_all (\<lambda>hc. length (exchanges hc) \<le> 11) cs" "distinct (map hc_host cs)"
      using assms(1) by (auto simp: traffic_inv_def list_all_iff)
    then show ?thesis
    proof (induction cs)
      case (Cons c cs)
      then show ?case using captures_of_absent [of h cs] by (auto simp: captures_of_Cons)
    qed (simp add: captures_of_def)
  qed
  show "captures_of h (posted_update ex cs) =
     (if h = x_host ex then latest 11 (captures_of h cs @ [ex]) else captures_of h cs)"
  proof (cases "add_to_host ex cs")
    case None
    then have n: "x_host ex \<notin> hc_host ` set cs" by (simp add: add_to_host_None)
    then have "push_host c cs = cs @ [c]" for c using assms(2) by (simp add: push_host_def pop_while_over_10)
    moreover have "captures_of h (cs @ [\<lparr>hc_host = x_host ex, exchanges = [ex]\<rparr>]) =
        captures_of h cs @ (if h = x_host ex then [ex] else [])" by (simp add: captures_of_def)
    ultimately show ?thesis using None captures_of_absent [OF n] by (auto simp: posted_update_def)
  next
    case (Some cs')
    show ?thesis using Some add_to_host_Some(2) [OF Some d, of h] len ex_win.push_latest [of "captures_of h cs" ex]
      by (auto simp: posted_update_def)
  qed
  show "hc_host ` set (posted_update ex cs) = insert (x_host ex) (hc_host ` set cs)"
  proof (cases "add_to_host ex cs")
    case None
    then have n: "x_host ex \<notin> hc_host ` set cs" by (simp add: add_to_host_None)
    then have "push_host c cs = cs @ [c]" for c using assms(2) by (simp add: push_host_def pop_while_over_10)
    then show ?thesis using None by (simp add: posted_update_def)
  next
    case (Some cs')
    then have "x_host ex \<in> hc_host ` set cs" using add_to_host_None [of ex cs] by auto
    moreover have "hc_host ` set cs' = hc_host ` set cs"
      using add_to_host_Some(1) [OF Some d] by (metis list.set_map)
    ultimately show ?thesis using Some by (auto simp: posted_update_def)
  qed
qed

text \<open>The arguments of a call of \<open>collect\<close>: its host, and the record it makes.\<close>

fun arg_host :: "string \<times> string \<times> message option \<times> message option \<Rightarrow> string" where
  "arg_host (scheme, host, req, resp) = host"

fun arg_captured :: "string \<times> string \<times> message option \<times> message option \<Rightarrow> captured_exchange" where
  "arg_captured (scheme, host, req, resp) = captured scheme host req resp"

section \<open>Properties\<close>

text \<open>
  C20. The captures stay bounded and consistent under any traffic: at most eleven hosts, each once, each with
  between one and eleven exchanges of that host; and no exchange holds the messages that were collected.
\<close>

theorem captures_bounded:
  "distinct (map hc_host (fold collect xs [])) \<and> length (fold collect xs []) \<le> 11 \<and>
   list_all (\<lambda>hc. length (exchanges hc) \<in> {1..11} \<and>
     list_all (\<lambda>ex. x_host ex = hc_host hc \<and> x_req ex = None \<and> x_resp ex = None) (exchanges hc)) (fold collect xs [])"
proof -
  have "traffic_inv (fold collect xs [])" by (rule fold_collect_inv) simp
  then show ?thesis by (auto simp: traffic_inv_def list_all_iff Suc_le_eq)
qed

text \<open>
  C19. For up to eleven hosts the captures are a window on the traffic: of every host exactly its latest
  eleven exchanges, in order.
\<close>

theorem captures_latest_eleven:
  assumes "card (arg_host ` set xs) \<le> 11"
  shows "captures_of h (fold collect xs []) =
           latest 11 (map arg_captured (filter (\<lambda>a. arg_host a = h) xs)) \<and>
         hc_host ` set (fold collect xs []) = arg_host ` set xs"
  using assms
proof (induction xs arbitrary: h rule: rev_induct)
  case (snoc x xs)
  obtain sc ho rq rs where x: "x = (sc, ho, rq, rs)" by (cases x)
  let ?cs = "fold collect xs []"
  let ?H = "arg_host ` set xs"
  have "card ?H \<le> card (arg_host ` set (xs @ [x]))" by (intro card_mono image_mono) auto
  then have ih: "captures_of h ?cs = latest 11 (map arg_captured (filter (\<lambda>a. arg_host a = h) xs))"
      "hc_host ` set ?cs = ?H" for h
    using snoc by auto
  have inv: "traffic_inv ?cs" by (rule fold_collect_inv) simp
  have "length ?cs = card (hc_host ` set ?cs)"
    using inv distinct_card [of "map hc_host ?cs"] by (simp add: traffic_inv_def)
  then have room: "length ?cs < 11 \<or> x_host (captured sc ho rq rs) \<in> hc_host ` set ?cs"
    using snoc.prems ih(2) x by (auto simp: captured_def card_insert_if split: if_splits)
  show ?case
    using posted_update_captures(1) [OF inv room, of h] posted_update_captures(2) [OF inv room] ih
    by (auto simp: x collect_args x_host_captured latest_snoc_latest)
qed (simp add: captures_of_def)

theorem captures_latest_eleven_witness:
  "length (captures_of ''a'' (fold collect (replicate 15 (''http'', ''a'', None, None)) [])) = 11"
proof -
  have "card (arg_host ` set (replicate 15 (''http'', ''a'', None :: message option, None :: message option))) \<le> 11"
    by simp
  from captures_latest_eleven [OF this, of "''a''"] show ?thesis by (simp add: filter_replicate)
qed

text \<open>
  Interception is decided by the first filter that settles it: a host is collectable exactly when some
  filter matches all of it and every filter before that one compiles; it is not exactly when all compile
  and none matches; otherwise the first pattern that does not compile throws.
\<close>

theorem filter_decides:
  "(is_collectable compile host cf = Inr True \<longleftrightarrow>
      (\<exists>xs f ys e. m_filters cf = xs @ f # ys \<and> list_all (\<lambda>x. compile x \<noteq> None) xs \<and>
         compile f = Some e \<and> regex_match host e)) \<and>
   (is_collectable compile host cf = Inr False \<longleftrightarrow>
      list_all (\<lambda>f. case compile f of None \<Rightarrow> False | Some e \<Rightarrow> \<not> regex_match host e) (m_filters cf))"
proof -
  have "filter_loop compile host fs = Inr False \<longleftrightarrow>
      list_all (\<lambda>f. case compile f of None \<Rightarrow> False | Some e \<Rightarrow> \<not> regex_match host e) fs" for fs
    by (induction fs) (auto split: option.splits)
  moreover have "(\<exists>xs f ys e. fs = xs @ f # ys \<and> list_all (\<lambda>x. compile x \<noteq> None) xs \<and>
         compile f = Some e \<and> regex_match host e) \<longleftrightarrow> filter_loop compile host fs = Inr True" for fs
  proof (induction fs)
    case (Cons g gs)
    have "(\<exists>xs f ys e. g # gs = xs @ f # ys \<and> list_all (\<lambda>x. compile x \<noteq> None) xs \<and> compile f = Some e \<and> regex_match host e) \<longleftrightarrow>
        (\<exists>e. compile g = Some e \<and> regex_match host e) \<or>
        compile g \<noteq> None \<and> (\<exists>xs f ys e. gs = xs @ f # ys \<and> list_all (\<lambda>x. compile x \<noteq> None) xs \<and> compile f = Some e \<and> regex_match host e)"
      (is "?L \<longleftrightarrow> ?A \<or> ?B")
    proof
      assume ?L
      then obtain xs f ys e where "g # gs = xs @ f # ys" "list_all (\<lambda>x. compile x \<noteq> None) xs" "compile f = Some e" "regex_match host e"
        by blast
      then show "?A \<or> ?B" by (cases xs) auto
    next
      assume "?A \<or> ?B"
      then show ?L
      proof
        assume ?A
        then obtain e where "g # gs = [] @ g # gs \<and> list_all (\<lambda>x. compile x \<noteq> None) [] \<and> compile g = Some e \<and> regex_match host e" by auto
        then show ?L by blast
      next
        assume ?B
        then obtain xs f ys e where "compile g \<noteq> None" "gs = xs @ f # ys" "list_all (\<lambda>x. compile x \<noteq> None) xs"
            "compile f = Some e" "regex_match host e" by blast
        then have "g # gs = (g # xs) @ f # ys \<and> list_all (\<lambda>x. compile x \<noteq> None) (g # xs) \<and> compile f = Some e \<and> regex_match host e"
          by simp
        then show ?L by blast
      qed
    qed
    then show ?case using Cons.IH by (auto split: option.splits)
  qed simp
  ultimately show ?thesis by (simp add: is_collectable_def)
qed

text \<open>
  The pipe collector prints a body exactly when the \<open>Content-Type\<close> starts with \<open>text/\<close> and has no line
  break: the second pattern, with a slash behind the end of the string, matches nothing, so that bodies of
  type \<open>application/...\<close> are never printed.
\<close>

theorem pipe_prints_text_bodies:
  "bodyIsCollectable msg pipe_regexs \<longleftrightarrow>
     (\<exists>sub. header ContentType msg = Some (''text/'' @ sub) \<and> list_all dot sub)"
proof -
  have dead: "\<not> regex_search hv (Cat Bol (lit_re (=) ''application/'' (Cat (Rep (Cls dot)) (Cat Eol (Cls (\<lambda>c. c = CHR ''/''))))))" for hv
    by (auto simp: regex_search_iff matches_lit_re simp del: lit_re.simps)
  have "regex_search hv (Cat Bol (lit_re (=) ''text/'' (Cat (Rep (Cls dot)) Eol))) \<longleftrightarrow> (\<exists>sub. hv = ''text/'' @ sub \<and> list_all dot sub)" for hv
  proof
    assume "regex_search hv (Cat Bol (lit_re (=) ''text/'' (Cat (Rep (Cls dot)) Eol)))"
    then have l: "length ''text/'' \<le> length hv" and p: "\<forall>k<length ''text/''. ''text/'' ! k = hv ! k"
      and d: "\<forall>k. 5 \<le> k \<and> k < length hv \<longrightarrow> dot (hv ! k)"
      by (auto simp: regex_search_iff matches_lit_re matches_Rep_Cls simp del: lit_re.simps)
    have "take 5 hv = ''text/''" using l p by (intro nth_equalityI) auto
    then have "hv = ''text/'' @ drop 5 hv" by (metis append_take_drop_id)
    moreover have "list_all dot (drop 5 hv)" using d by (auto simp: list_all_length)
    ultimately show "\<exists>sub. hv = ''text/'' @ sub \<and> list_all dot sub" by blast
  next
    assume "\<exists>sub. hv = ''text/'' @ sub \<and> list_all dot sub"
    then obtain sub where h: "hv = ''text/'' @ sub" "list_all dot sub" by blast
    have "matches hv (Cat Bol (lit_re (=) ''text/'' (Cat (Rep (Cls dot)) Eol))) 0 (length hv)"
      using h by (auto simp: matches_lit_re matches_Rep_Cls list_all_length less_Suc_eq nth_append simp del: lit_re.simps)
    then show "regex_search hv (Cat Bol (lit_re (=) ''text/'' (Cat (Rep (Cls dot)) Eol)))"
      unfolding regex_search_iff by blast
  qed
  then show ?thesis
    using dead by (auto simp: bodyIsCollectable_def headerValueMatched_def pipe_regexs_def split: option.splits)
qed

end
