(* ===== verification/Tunnel.thy ===== *)
theory Tunnel
  imports Connection
begin

text \<open>
  \<open>marvin/connection/half_tunnel.cpp\<close> and \<open>tunnel_handler.cpp\<close>: relaying bytes between two connections, one
  half tunnel per direction. A half tunnel reads into its one buffer and writes that buffer out before it
  reads again. The reads, writes, read timeouts and call-backs are effects; a completed read has put its
  bytes into the buffer (\<^const>\<open>fill_contig\<close>) before the handler runs.
\<close>

section \<open>Half tunnels\<close>

record half_tunnel =
  ht_first_read_timeout_millisecs :: int
  ht_subsequent_read_timeout_millisecs :: int
  m_bufferSPtr :: contig_buffer

datatype ht_effect =
    T_Set_Read_Timeout int
  | T_Read nat
  | T_Write "string option"
  | T_Callback error_code

definition HalfTunnel_new :: "int \<Rightarrow> int \<Rightarrow> half_tunnel result" where
  "HalfTunnel_new first subsequent =
     rbind (makeSPtr TunnelAllocator) (\<lambda>b.
       Inr \<lparr>ht_first_read_timeout_millisecs = first, ht_subsequent_read_timeout_millisecs = subsequent,
            m_bufferSPtr = b\<rparr>)"

definition p_start_read :: "half_tunnel \<Rightarrow> ht_effect list" where
  "p_start_read h = [T_Read (contig_capacity (m_bufferSPtr h))]"

definition ht_start :: "half_tunnel \<Rightarrow> ht_effect list" where
  "ht_start h = T_Set_Read_Timeout (ht_first_read_timeout_millisecs h) # p_start_read h"

definition p_handle_read :: "error_code \<Rightarrow> half_tunnel \<Rightarrow> ht_effect list" where
  "p_handle_read err h =
     (if \<not> ec_failed err
      then [T_Write (read_bytes (contig_data (m_bufferSPtr h)) (contig_size (m_bufferSPtr h)))]
      else [T_Callback err])"

definition p_handle_write :: "error_code \<Rightarrow> half_tunnel \<Rightarrow> ht_effect list" where
  "p_handle_write err h =
     (if \<not> ec_failed err
      then T_Set_Read_Timeout (ht_subsequent_read_timeout_millisecs h) # p_start_read h
      else [T_Callback err])"

text \<open>The completion of a read into the buffer, the buffer being filled first.\<close>

definition ht_on_read :: "error_code \<Rightarrow> string \<Rightarrow> half_tunnel \<Rightarrow> (half_tunnel \<times> ht_effect list) result" where
  "ht_on_read err data h =
     rbind (fill_contig data (m_bufferSPtr h)) (\<lambda>b.
       (let h' = h\<lparr>m_bufferSPtr := b\<rparr> in Inr (h', p_handle_read err h')))"

text \<open>
  A relay run: each round is the result of a read, with its bytes, and the result of the write that
  follows a good read. The run ends with the first error.
\<close>

fun ht_run :: "half_tunnel \<Rightarrow> (error_code \<times> string \<times> error_code) list \<Rightarrow> ht_effect list result" where
  "ht_run h [] = Inr []"
| "ht_run h ((er, d, ew) # rounds) =
     rbind (ht_on_read er d h) (\<lambda>(h, effs).
       if ec_failed er then Inr effs
       else if ec_failed ew then Inr (effs @ p_handle_write ew h)
       else rbind (ht_run h rounds) (\<lambda>es. Inr (effs @ p_handle_write ew h @ es)))"

section \<open>The tunnel handler\<close>

record tunnel_handler =
  m_upstream_done :: bool
  m_downstream_done :: bool
  m_first_err :: error_code
  m_upstream_err :: error_code
  m_downstream_err :: error_code
  th_upstream :: half_tunnel
  th_downstream :: half_tunnel

definition TunnelHandler_new :: "tunnel_handler result" where
  "TunnelHandler_new =
     rbind (HalfTunnel_new 45000 15000) (\<lambda>u.
     rbind (HalfTunnel_new 45000 15000) (\<lambda>d.
       Inr \<lparr>m_upstream_done = False, m_downstream_done = False, m_first_err = make_error_ok,
            m_upstream_err = make_error_ok, m_downstream_err = make_error_ok,
            th_upstream = u, th_downstream = d\<rparr>))"

datatype side = Upstream | Downstream

definition th_start :: "tunnel_handler \<Rightarrow> (side \<times> ht_effect) list" where
  "th_start t = map (Pair Downstream) (ht_start (th_downstream t)) @ map (Pair Upstream) (ht_start (th_upstream t))"

definition tryDone :: "tunnel_handler \<Rightarrow> error_code list" where
  "tryDone t = (if m_upstream_done t \<and> m_downstream_done t then [m_first_err t] else [])"

definition record_err :: "error_code \<Rightarrow> tunnel_handler \<Rightarrow> tunnel_handler" where
  "record_err err t =
     (if m_first_err t = make_error_ok \<and> err \<noteq> make_error_ok then t\<lparr>m_first_err := err\<rparr> else t)"

text \<open>The call-backs given to the two halves.\<close>

fun on_half_done :: "side \<Rightarrow> error_code \<Rightarrow> tunnel_handler \<Rightarrow> tunnel_handler \<times> error_code list" where
  "on_half_done Downstream err t =
     (let t' = record_err err (t\<lparr>m_downstream_done := True, m_downstream_err := err\<rparr>) in (t', tryDone t'))"
| "on_half_done Upstream err t =
     (let t' = record_err err (t\<lparr>m_upstream_done := True, m_upstream_err := err\<rparr>) in (t', tryDone t'))"

section \<open>Properties\<close>

fun sent :: "ht_effect list \<Rightarrow> string option list" where
  "sent [] = []"
| "sent (T_Write b # es) = b # sent es"
| "sent (_ # es) = sent es"

fun ht_calls :: "ht_effect list \<Rightarrow> error_code list" where
  "ht_calls [] = []"
| "ht_calls (T_Callback e # es) = e # ht_calls es"
| "ht_calls (_ # es) = ht_calls es"

fun timeouts :: "ht_effect list \<Rightarrow> int list" where
  "timeouts [] = []"
| "timeouts (T_Set_Read_Timeout ms # es) = ms # timeouts es"
| "timeouts (_ # es) = timeouts es"

definition ht_inv :: "half_tunnel \<Rightarrow> bool" where
  "ht_inv h \<longleftrightarrow> contig_inv (m_bufferSPtr h)"

lemma HalfTunnel_new_ok:
  "\<exists>h. HalfTunnel_new a b = Inr h \<and> ht_inv h \<and> ht_first_read_timeout_millisecs h = a \<and>
       ht_subsequent_read_timeout_millisecs h = b \<and> contig_capacity (m_bufferSPtr h) = 131072"
  by (simp add: HalfTunnel_new_def makeSPtr_def contig_new_def allocate_def ht_inv_def contig_inv_def
      contig_capacity_def)

lemma ht_on_read_ok:
  assumes "ht_inv h" "length d \<le> contig_capacity (m_bufferSPtr h)"
  shows "\<exists>h'. ht_on_read er d h = Inr (h', if ec_failed er then [T_Callback er] else [T_Write (Some d)]) \<and> ht_inv h' \<and>
     contig_capacity (m_bufferSPtr h') = contig_capacity (m_bufferSPtr h) \<and>
     ht_subsequent_read_timeout_millisecs h' = ht_subsequent_read_timeout_millisecs h"
proof -
  obtain b where b: "fill_contig d (m_bufferSPtr h) = Inr b" "contig_inv b" "contig_content b = d"
      "contig_capacity b = contig_capacity (m_bufferSPtr h)"
    using refill.fill_ok [of "m_bufferSPtr h" d] assms by (auto simp: ht_inv_def)
  have "read_bytes (contig_data b) (contig_size b) = Some d"
    using asio_view_content [OF b(2)] b(3) by (simp add: mb_as_const_buffer_def)
  then show ?thesis using b by (simp add: ht_on_read_def p_handle_read_def ht_inv_def Let_def)
qed



text \<open>
  C36. A tunnel ends once, when both directions have ended, in either order, and reports the error that
  came first.
\<close>

theorem tunnel_reports_first_error:
  assumes "TunnelHandler_new = Inr t" "s1 \<noteq> s2" "ec_failed e1" "ec_failed e2"
  shows "case on_half_done s1 e1 t of (t1, calls1) \<Rightarrow>
           calls1 = [] \<and> (case on_half_done s2 e2 t1 of (t2, calls2) \<Rightarrow>
             calls2 = [e1] \<and> m_upstream_done t2 \<and> m_downstream_done t2)"
proof -
  have e: "e1 \<noteq> make_error_ok" "e2 \<noteq> make_error_ok" using assms(3,4) by auto
  show ?thesis using assms(1,2) e
    by (cases s1; cases s2)
      (auto simp: TunnelHandler_new_def rbind_Inr_iff record_err_def tryDone_def Let_def)
qed

theorem tunnel_reports_first_error_witness:
  "\<exists>t. TunnelHandler_new = Inr t \<and>
     snd (on_half_done Upstream make_error_parse (fst (on_half_done Downstream make_error_eom t))) = [make_error_eom]"
proof -
  obtain h where "HalfTunnel_new 45000 15000 = Inr h" using HalfTunnel_new_ok by blast
  then obtain t where t: "TunnelHandler_new = Inr t" by (simp add: TunnelHandler_new_def)
  have "ec_failed make_error_eom" by (simp add: make_error_defs ec_failed_def)
  then show ?thesis
    using tunnel_reports_first_error [OF t, of Downstream Upstream make_error_eom make_error_parse] t
    by (auto simp: case_prod_beta)
qed

end
