(* ===== verification/Request_Handler.thy ===== *)
theory Request_Handler
  imports Marvin_Prelude
begin

text \<open>
  \<open>marvin/server/request_handler_interface.hpp\<close>: what the server relies on of the handler of a connection. A
  handler is given a connection and a done call-back; it works by starting operations whose completion
  resumes it, and it must call the call-back exactly once, after which the server forgets the connection
  (a second call would fail the assertions of the connection manager).

  \<open>step\<close> resumes a handler at the continuation of an operation with the outcome of that operation; the
  effects it issues contain the operations it starts, of which \<open>waits\<close> gives the continuations, and the
  calls of the done call-back, which \<open>ends\<close> counts. \<open>ready\<close> is what a state guarantees to a continuation. The
  law is local to one continuation; the lemmas lift it to runs.
\<close>

locale request_handler =
  fixes step :: "'k \<Rightarrow> 'o \<Rightarrow> 's \<Rightarrow> ('s \<times> 'e list) result"
    and waits :: "'e list \<Rightarrow> 'k list"
    and ends :: "'e list \<Rightarrow> nat"
    and ready :: "'k \<Rightarrow> 's \<Rightarrow> bool"
  assumes one_next: "ready k s \<Longrightarrow> step k out s = Inr (s', effs) \<Longrightarrow>
      waits effs = [] \<and> ends effs = 1 \<or> (\<exists>k'. waits effs = [k'] \<and> ends effs = 0 \<and> ready k' s')"
begin

definition live :: "'s \<Rightarrow> 'k list \<Rightarrow> nat \<Rightarrow> bool" where
  "live s ks d \<longleftrightarrow> ks = [] \<and> d = 1 \<or> (\<exists>k. ks = [k] \<and> d = 0 \<and> ready k s)"

lemma live_start: "ready k s \<Longrightarrow> live s [k] 0"
  by (simp add: live_def)

lemma live_step:
  assumes "live s (k # ks) d" "step k out s = Inr (s', effs)"
  shows "live s' (ks @ waits effs) (d + ends effs)"
  using assms one_next [of k s out s' effs] by (auto simp: live_def)

lemma live_once: "live s ks d \<Longrightarrow> length ks + d = 1"
  by (auto simp: live_def)

lemma live_ready: "live s (k # ks) d \<Longrightarrow> ready k s \<and> ks = [] \<and> d = 0"
  by (simp add: live_def)

lemma live_single: "live s ks d \<Longrightarrow> ks = [] \<and> d = 1 \<or> (\<exists>k. ks = [k] \<and> d = 0)"
  by (auto simp: live_def)

end

end
