(* ===== verification/Mitm_Apps.thy ===== *)
theory Mitm_Apps
  imports Mitm_Helpers Client Collectors Tunnel Request_Handler
begin

text \<open>
  \<open>marvin/server/mitm_app.cpp\<close>, \<open>mitm_http.cpp\<close>, \<open>mitm_https.cpp\<close> and \<open>mitm_tunnel.cpp\<close>: what the proxy does
  with one client connection. \<open>MitmApp\<close> reads the first message and hands the connection to one of three
  handlers, for plain requests, for intercepted and for tunnelled \<open>CONNECT\<close> requests.

  The code is written in continuation-passing style: every operation is started with a lambda that is
  called with its outcome. An operation and the name of its lambda are one effect here; \<open>resume\<close> runs the
  lambda. The client, the writer and the connections are those of their theories; the outcome of a
  request, of a read and of a tunnel is what their theories prove about the calls of the completion
  handlers: one call, with a message exactly when there is no error.
\<close>

section \<open>State, environment and effects\<close>

record ('c, 'i, 'h) app_env =
  v_client :: "'h client_env"
  v_parse_url :: "string \<Rightarrow> url"
  v_http_connect :: int
  v_compile :: "string \<Rightarrow> regex option"
  v_store :: nat
  v_build_identity :: "string \<Rightarrow> 'c \<Rightarrow> 'i"

datatype cont =
    K_First
  | K_Http_Response
  | K_Http_Written
  | K_Http_Next
  | K_Tls_Connected
  | K_Tls_Up_Shaken
  | K_Tls_Ok_Written
  | K_Tls_Down_Shaken
  | K_Tls_Next
  | K_Tls_Reconnected
  | K_Tls_Response
  | K_Tls_Written
  | K_Tls_Gateway_Written
  | K_Tun_Connected
  | K_Tun_Gateway_Written
  | K_Tun_Ok_Written
  | K_Tun_Done

datatype app_op =
    Op_Read
  | Op_Conn "nat conn_effect list"
  | Op_Request "client_effect list"
  | Op_Write "wr_effect list"
  | Op_Tunnel "(side \<times> ht_effect) list"

datatype app_effect =
    Start app_op cont
  | Collect string string "message option" "message option"
  | Post_Done

text \<open>
  The members of \<open>MitmApp\<close> and of the handler it creates. The scheme, host and port of \<open>MitmApp\<close> are copied
  into the handler; \<open>http_scheme\<close> and \<open>http_host\<close> are the members of \<open>MitmHttp\<close> that nothing assigns.
\<close>

record ('c, 'i, 'h) mitm =
  a_request_msg :: "message option"
  a_scheme :: string
  a_host :: string
  a_port :: string
  a_filter :: capture_filter
  down_socket :: "('c, 'i) connection"
  down_wrtr :: msg_writer
  down_request :: "message option"
  down_response :: "message option"
  http_scheme :: string
  http_host :: string
  up_socket :: "('c, 'i) connection option"
  up_client :: "('c, 'i, 'h) client option"
  up_request :: "message option"
  a_certificate :: "'c option"
  a_identity :: "'i option"

datatype connect_action = TUNNEL | MITM | REJECT

definition MitmApp_new :: "capture_filter \<Rightarrow> ('c, 'i) connection \<Rightarrow> ('c, 'i, 'h) mitm" where
  "MitmApp_new cf sock =
     \<lparr>a_request_msg = None, a_scheme = [], a_host = [], a_port = [], a_filter = cf,
      down_socket = sock, down_wrtr = MessageWriter_new, down_request = None, down_response = None,
      http_scheme = [], http_host = [], up_socket = None, up_client = None, up_request = None,
      a_certificate = None, a_identity = None\<rparr>"

section \<open>MitmApp: the end of a connection\<close>

definition p_on_completed :: "app_effect list" where
  "p_on_completed = [Post_Done]"

definition p_connection_end :: "app_effect list" where
  "p_connection_end = p_on_completed"

definition p_on_tunnel_completed :: "app_effect list" where
  "p_on_tunnel_completed = p_connection_end"

definition p_on_downstream_write_error :: "error_code \<Rightarrow> app_effect list" where
  "p_on_downstream_write_error err = p_connection_end"

definition p_on_downstream_read_error :: "error_code \<Rightarrow> app_effect list" where
  "p_on_downstream_read_error err = p_connection_end"

definition p_on_upstream_error :: "error_code \<Rightarrow> app_effect list" where
  "p_on_upstream_error err = p_connection_end"

definition p_on_upstream_roundtrip_error :: "error_code \<Rightarrow> app_effect list" where
  "p_on_upstream_roundtrip_error err = p_connection_end"

definition p_on_tunnel_error :: "error_code \<Rightarrow> app_effect list" where
  "p_on_tunnel_error err = p_on_tunnel_completed"

lemmas app_end_defs =
  p_on_completed_def p_connection_end_def p_on_tunnel_completed_def p_on_downstream_write_error_def
  p_on_downstream_read_error_def p_on_upstream_error_def p_on_upstream_roundtrip_error_def p_on_tunnel_error_def

section \<open>Writing to the client\<close>

definition write_down ::
    "('c, 'i, 'h) app_env \<Rightarrow> message \<Rightarrow> cont \<Rightarrow> ('c, 'i, 'h) mitm \<Rightarrow> (('c, 'i, 'h) mitm \<times> app_effect list) result" where
  "write_down v msg k s =
     rbind (async_write (e_method_str (v_client v)) msg (down_wrtr s)) (\<lambda>(w, effs).
       Inr (s\<lparr>down_wrtr := w\<rparr>, [Start (Op_Write effs) k]))"

definition write_down_body ::
    "('c, 'i, 'h) app_env \<Rightarrow> message \<Rightarrow> buffer_chain option \<Rightarrow> cont \<Rightarrow> ('c, 'i, 'h) mitm \<Rightarrow> (('c, 'i, 'h) mitm \<times> app_effect list) result" where
  "write_down_body v msg body k s =
     rbind (async_write_chain (e_method_str (v_client v)) msg body (down_wrtr s)) (\<lambda>(w, effs).
       Inr (s\<lparr>down_wrtr := w\<rparr>, [Start (Op_Write effs) k]))"

definition fresh_msg :: "('c, 'i, 'h) app_env \<Rightarrow> message" where
  "fresh_msg v = MessageBase_new (e_junk_method (v_client v)) (e_junk_status (v_client v))"

section \<open>MitmHttp\<close>

text \<open>The constructor; the socket it makes is never used.\<close>

definition MitmHttp_new :: "('c, 'i, 'h) app_env \<Rightarrow> ('c, 'i, 'h) mitm \<Rightarrow> ('c, 'i, 'h) mitm" where
  "MitmHttp_new v s =
     s\<lparr>down_request := a_request_msg s, http_scheme := [], http_host := [],
       up_socket := Some (socket_factory_client (e_config (v_client v)) (a_scheme s) (a_host s) (a_port s))\<rparr>"

definition http_roundtrip_upstream ::
    "('c, 'i, 'h) app_env \<Rightarrow> message \<Rightarrow> ('c, 'i, 'h) mitm \<Rightarrow> (('c, 'i, 'h) mitm \<times> app_effect list) result" where
  "http_roundtrip_upstream v req s =
     rbind (make_upstream_request (v_parse_url v) (fresh_msg v) req) (\<lambda>r.
     rbind (deref (up_client s)) (\<lambda>c.
     rbind (client_async_write_chain (v_client v) r (m_body_chain_sptr req) 0 c) (\<lambda>(c, effs).
       Inr (s\<lparr>up_request := m_current_request c, up_client := Some c\<rparr>, [Start (Op_Request effs) K_Http_Response]))))"

definition http_initiate_upstream_roundtrip ::
    "('c, 'i, 'h) app_env \<Rightarrow> ('c, 'i, 'h) mitm \<Rightarrow> (('c, 'i, 'h) mitm \<times> app_effect list) result" where
  "http_initiate_upstream_roundtrip v s =
     (let s = s\<lparr>up_client := Some (client_new (a_scheme s) (a_host s) (a_port s))\<rparr> in
      rbind (deref (down_request s)) (\<lambda>req. http_roundtrip_upstream v req s))"

definition http_handle ::
    "('c, 'i, 'h) app_env \<Rightarrow> ('c, 'i, 'h) mitm \<Rightarrow> (('c, 'i, 'h) mitm \<times> app_effect list) result" where
  "http_handle v s = http_initiate_upstream_roundtrip v s"

text \<open>The lambda given to the client, with the one given to \<open>p_roundtrip_upstream\<close>.\<close>

definition http_on_response ::
    "('c, 'i, 'h) app_env \<Rightarrow> error_code \<Rightarrow> message option \<Rightarrow> ('c, 'i, 'h) mitm \<Rightarrow> (('c, 'i, 'h) mitm \<times> app_effect list) result" where
  "http_on_response v ec resp s =
     (if ec_failed ec \<or> resp = None then Inr (s, p_on_upstream_roundtrip_error ec)
      else
        rbind (make_downstream_response (fresh_msg v) resp ec) (\<lambda>down.
        (let s = s\<lparr>down_response := Some down\<rparr> in
         rbind (write_down_body v down (get_body down) K_Http_Written s) (\<lambda>(s, effs).
           Inr (s, Collect (http_scheme s) (http_host s) (down_request s) (down_response s) # effs)))))"

definition http_downstream_read_message :: "app_effect list" where
  "http_downstream_read_message = [Start Op_Read K_Http_Next]"

definition http_on_request_completed :: "('c, 'i, 'h) mitm \<Rightarrow> app_effect list result" where
  "http_on_request_completed s =
     rbind (deref (down_request s)) (\<lambda>req.
     if is_connection_keep_alive req then
       rbind (deref (down_response s)) (\<lambda>resp.
         Inr (if is_connection_keep_alive resp then http_downstream_read_message else p_connection_end))
     else Inr p_connection_end)"

text \<open>The next message of the client is read, but the request forwarded is still the first one.\<close>

definition http_on_next ::
    "('c, 'i, 'h) app_env \<Rightarrow> error_code \<Rightarrow> message option \<Rightarrow> ('c, 'i, 'h) mitm \<Rightarrow> (('c, 'i, 'h) mitm \<times> app_effect list) result" where
  "http_on_next v ec msg s =
     (if ec_failed ec then Inr (s, p_on_downstream_read_error ec) else http_initiate_upstream_roundtrip v s)"

section \<open>MitmHttps\<close>

definition MitmHttps_new :: "('c, 'i, 'h) app_env \<Rightarrow> ('c, 'i, 'h) mitm \<Rightarrow> ('c, 'i, 'h) mitm" where
  "MitmHttps_new v s =
     s\<lparr>down_request := a_request_msg s,
       up_socket := Some (socket_factory_client (e_config (v_client v)) (a_scheme s) (a_host s) (a_port s))\<rparr>"

definition tls_handle :: "('c, 'i, 'h) mitm \<Rightarrow> (('c, 'i, 'h) mitm \<times> app_effect list) result" where
  "tls_handle s =
     rbind (deref (up_socket s)) (\<lambda>up. Inr (s, [Start (Op_Conn (async_connect up)) K_Tls_Connected]))"

definition tls_on_upstream_connect_error ::
    "('c, 'i, 'h) app_env \<Rightarrow> ('c, 'i, 'h) mitm \<Rightarrow> (('c, 'i, 'h) mitm \<times> app_effect list) result" where
  "tls_on_upstream_connect_error v s =
     rbind (make_response_502_badgateway (fresh_msg v)) (\<lambda>m.
       write_down v m K_Tls_Gateway_Written (s\<lparr>down_response := Some m\<rparr>))"

definition tls_handshake_upstream ::
    "('c, 'i, 'h) app_env \<Rightarrow> ('c, 'i, 'h) mitm \<Rightarrow> (('c, 'i, 'h) mitm \<times> app_effect list) result" where
  "tls_handshake_upstream v s =
     rbind (deref (up_socket s)) (\<lambda>up.
     rbind (become_secure_client (v_store v) up) (\<lambda>up.
     rbind (async_handshake up) (\<lambda>effs.
       Inr (s\<lparr>up_socket := Some up\<rparr>, [Start (Op_Conn effs) K_Tls_Up_Shaken]))))"

definition tls_on_connected ::
    "('c, 'i, 'h) app_env \<Rightarrow> error_code \<Rightarrow> ('c, 'i, 'h) mitm \<Rightarrow> (('c, 'i, 'h) mitm \<times> app_effect list) result" where
  "tls_on_connected v ec s = (if ec_failed ec then tls_on_upstream_connect_error v s else tls_handshake_upstream v s)"

text \<open>The handshake with the server is over; \<open>peer\<close> is the certificate it presented.\<close>

definition tls_on_up_shaken ::
    "('c, 'i, 'h) app_env \<Rightarrow> error_code \<Rightarrow> 'c \<Rightarrow> ('c, 'i, 'h) mitm \<Rightarrow> (('c, 'i, 'h) mitm \<times> app_effect list) result" where
  "tls_on_up_shaken v ec peer s =
     rbind (deref (up_socket s)) (\<lambda>up.
     (let (up, posts :: nat conn_effect list) = p_handle_handshake peer ec up; s = s\<lparr>up_socket := Some up\<rparr> in
      if ec_failed ec then Inr (s, p_on_upstream_error ec)
      else
        rbind (get_server_certificate up) (\<lambda>cert.
        rbind (make_response_200_OK_connected (fresh_msg v)) (\<lambda>m.
          write_down v m K_Tls_Ok_Written
            (s\<lparr>a_certificate := Some cert, a_identity := Some (v_build_identity v (a_host s) cert),
               down_response := Some m\<rparr>)))))"

definition tls_on_ok_written ::
    "error_code \<Rightarrow> ('c, 'i, 'h) mitm \<Rightarrow> (('c, 'i, 'h) mitm \<times> app_effect list) result" where
  "tls_on_ok_written ec s =
     (if ec_failed ec then Inr (s, p_on_downstream_write_error ec)
      else
        rbind (deref (a_identity s)) (\<lambda>ident.
        rbind (become_secure_server ident (down_socket s)) (\<lambda>down.
        rbind (async_handshake down) (\<lambda>effs.
          Inr (s\<lparr>down_socket := down\<rparr>, [Start (Op_Conn effs) K_Tls_Down_Shaken])))))"

definition tls_downstream_read_message :: "app_effect list" where
  "tls_downstream_read_message = [Start Op_Read K_Tls_Next]"

definition tls_on_down_shaken ::
    "error_code \<Rightarrow> ('c, 'i, 'h) mitm \<Rightarrow> (('c, 'i, 'h) mitm \<times> app_effect list) result" where
  "tls_on_down_shaken ec s =
     Inr (s, if ec_failed ec then p_on_upstream_error ec else tls_downstream_read_message)"

definition tls_initiate_upstream_roundtrip ::
    "('c, 'i, 'h) app_env \<Rightarrow> ('c, 'i, 'h) mitm \<Rightarrow> (('c, 'i, 'h) mitm \<times> app_effect list) result" where
  "tls_initiate_upstream_roundtrip v s =
     rbind (become_secure_client (v_store v)
              (socket_factory_client (e_config (v_client v)) (a_scheme s) (a_host s) (a_port s))) (\<lambda>up.
       Inr (s\<lparr>up_socket := Some up\<rparr>, [Start (Op_Conn (async_connect up)) K_Tls_Reconnected]))"

definition tls_on_next ::
    "('c, 'i, 'h) app_env \<Rightarrow> error_code \<Rightarrow> message option \<Rightarrow> ('c, 'i, 'h) mitm \<Rightarrow> (('c, 'i, 'h) mitm \<times> app_effect list) result" where
  "tls_on_next v ec msg s =
     (if ec_failed ec then Inr (s, p_on_downstream_read_error ec)
      else rbind (deref msg) (\<lambda>m. tls_initiate_upstream_roundtrip v (s\<lparr>down_request := Some m\<rparr>)))"

definition tls_roundtrip_upstream ::
    "('c, 'i, 'h) app_env \<Rightarrow> message \<Rightarrow> ('c, 'i, 'h) mitm \<Rightarrow> (('c, 'i, 'h) mitm \<times> app_effect list) result" where
  "tls_roundtrip_upstream v req s =
     rbind (make_upstream_https_request (fresh_msg v) req) (\<lambda>r.
     rbind (deref (up_client s)) (\<lambda>c.
     rbind (client_async_write_chain (v_client v) r (m_body_chain_sptr req) 0 c) (\<lambda>(c, effs).
       Inr (s\<lparr>up_request := m_current_request c, up_client := Some c\<rparr>, [Start (Op_Request effs) K_Tls_Response]))))"

definition tls_on_reconnected ::
    "('c, 'i, 'h) app_env \<Rightarrow> error_code \<Rightarrow> ('c, 'i, 'h) mitm \<Rightarrow> (('c, 'i, 'h) mitm \<times> app_effect list) result" where
  "tls_on_reconnected v ec s =
     (if ec_failed ec then Inr (s, p_on_upstream_roundtrip_error ec)
      else
        rbind (deref (up_socket s)) (\<lambda>up.
        rbind (deref (down_request s)) (\<lambda>req.
          tls_roundtrip_upstream v req (s\<lparr>up_client := Some (client_new_conn up)\<rparr>))))"

definition tls_on_response ::
    "('c, 'i, 'h) app_env \<Rightarrow> error_code \<Rightarrow> message option \<Rightarrow> ('c, 'i, 'h) mitm \<Rightarrow> (('c, 'i, 'h) mitm \<times> app_effect list) result" where
  "tls_on_response v ec resp s =
     (if ec_failed ec \<or> resp = None then Inr (s, p_on_upstream_roundtrip_error ec)
      else
        rbind (make_downstream_response (fresh_msg v) resp ec) (\<lambda>down.
        (let s = s\<lparr>down_response := Some down\<rparr> in
         rbind (write_down_body v down (get_body down) K_Tls_Written s) (\<lambda>(s, effs).
           Inr (s, Collect (a_scheme s) (a_host s) (down_request s) (down_response s) # effs)))))"

definition tls_on_request_completed :: "('c, 'i, 'h) mitm \<Rightarrow> app_effect list result" where
  "tls_on_request_completed s =
     rbind (deref (down_request s)) (\<lambda>req.
     if is_connection_keep_alive req then
       rbind (deref (down_response s)) (\<lambda>resp.
         Inr (if is_connection_keep_alive resp then tls_downstream_read_message else p_connection_end))
     else Inr p_connection_end)"

section \<open>MitmTunnel\<close>

definition tun_handle ::
    "('c, 'i, 'h) app_env \<Rightarrow> ('c, 'i, 'h) mitm \<Rightarrow> (('c, 'i, 'h) mitm \<times> app_effect list) result" where
  "tun_handle v s =
     (let up = socket_factory_client (e_config (v_client v)) (a_scheme s) (a_host s) (a_port s) in
      Inr (s\<lparr>up_socket := Some up\<rparr>, [Start (Op_Conn (async_connect up)) K_Tun_Connected]))"

definition tun_on_connected ::
    "('c, 'i, 'h) app_env \<Rightarrow> error_code \<Rightarrow> ('c, 'i, 'h) mitm \<Rightarrow> (('c, 'i, 'h) mitm \<times> app_effect list) result" where
  "tun_on_connected v ec s =
     (if ec_failed ec then
        rbind (make_response_502_badgateway (fresh_msg v)) (\<lambda>m.
          write_down v m K_Tun_Gateway_Written (s\<lparr>down_response := Some m\<rparr>))
      else
        rbind (make_response_200_OK_connected (fresh_msg v)) (\<lambda>m.
          write_down v m K_Tun_Ok_Written (s\<lparr>down_response := Some m\<rparr>)))"

definition tun_on_ok_written ::
    "error_code \<Rightarrow> ('c, 'i, 'h) mitm \<Rightarrow> (('c, 'i, 'h) mitm \<times> app_effect list) result" where
  "tun_on_ok_written ec s =
     (if ec_failed ec then Inr (s, p_on_downstream_write_error ec)
      else rbind TunnelHandler_new (\<lambda>t. Inr (s, [Start (Op_Tunnel (th_start t)) K_Tun_Done])))"

text \<open>Declared and defined in \<open>mitm_tunnel.cpp\<close>; nothing calls it.\<close>

definition tun_on_request_completed :: "app_effect list" where
  "tun_on_request_completed = p_connection_end"

section \<open>MitmApp: the first message\<close>

text \<open>The port is an argument that the code does not look at.\<close>

definition p_determine_action ::
    "('c, 'i, 'h) app_env \<Rightarrow> string \<Rightarrow> string \<Rightarrow> ('c, 'i, 'h) mitm \<Rightarrow> connect_action result" where
  "p_determine_action v host port s =
     rbind (is_collectable (v_compile v) host (a_filter s)) (\<lambda>b. Inr (if b then MITM else TUNNEL))"

definition p_on_first_message ::
    "('c, 'i, 'h) app_env \<Rightarrow> ('c, 'i, 'h) mitm \<Rightarrow> (('c, 'i, 'h) mitm \<times> app_effect list) result" where
  "p_on_first_message v s =
     rbind (deref (a_request_msg s)) (\<lambda>m.
     rbind (Uri_new (v_parse_url v) (m_target m)) (\<lambda>u.
     (let s = s\<lparr>a_scheme := m_scheme u, a_host := uri_host_no_port u, a_port := int_to_string (m_port u)\<rparr> in
      if m_method m = v_http_connect v then
        rbind (p_determine_action v (a_host s) (a_port s) s) (\<lambda>act.
          case act of
            TUNNEL \<Rightarrow> tun_handle v s
          | MITM \<Rightarrow> tls_handle (MitmHttps_new v s)
          | REJECT \<Rightarrow> Inl Assert_Failed)
      else http_handle v (MitmHttp_new v s))))"

definition p_read_first_message :: "app_effect list" where
  "p_read_first_message = [Start Op_Read K_First]"

definition handle_request :: "app_effect list" where
  "handle_request = p_read_first_message"

definition app_handle :: "('c, 'i) connection \<Rightarrow> ('c, 'i, 'h) mitm \<Rightarrow> ('c, 'i, 'h) mitm \<times> app_effect list" where
  "app_handle sock s = (s\<lparr>down_socket := sock, down_wrtr := MessageWriter_new\<rparr>, handle_request)"

definition on_first ::
    "('c, 'i, 'h) app_env \<Rightarrow> error_code \<Rightarrow> message option \<Rightarrow> ('c, 'i, 'h) mitm \<Rightarrow> (('c, 'i, 'h) mitm \<times> app_effect list) result" where
  "on_first v ec msg s =
     (if ec_failed ec then Inr (s, p_on_downstream_read_error ec)
      else p_on_first_message v (s\<lparr>a_request_msg := msg\<rparr>))"

section \<open>Running the continuations\<close>

text \<open>The outcome of an operation: an error code, and the message or the certificate it delivered.\<close>

fun resume ::
    "('c, 'i, 'h) app_env \<Rightarrow> cont \<Rightarrow> error_code \<Rightarrow> message option \<Rightarrow> 'c \<Rightarrow> ('c, 'i, 'h) mitm \<Rightarrow> (('c, 'i, 'h) mitm \<times> app_effect list) result" where
  "resume v K_First ec msg peer s = on_first v ec msg s"
| "resume v K_Http_Response ec msg peer s = http_on_response v ec msg s"
| "resume v K_Http_Written ec msg peer s =
     (if ec_failed ec then Inr (s, p_on_downstream_write_error ec)
      else rbind (http_on_request_completed s) (\<lambda>effs. Inr (s, effs)))"
| "resume v K_Http_Next ec msg peer s = http_on_next v ec msg s"
| "resume v K_Tls_Connected ec msg peer s = tls_on_connected v ec s"
| "resume v K_Tls_Up_Shaken ec msg peer s = tls_on_up_shaken v ec peer s"
| "resume v K_Tls_Ok_Written ec msg peer s = tls_on_ok_written ec s"
| "resume v K_Tls_Down_Shaken ec msg peer s = tls_on_down_shaken ec s"
| "resume v K_Tls_Next ec msg peer s = tls_on_next v ec msg s"
| "resume v K_Tls_Reconnected ec msg peer s = tls_on_reconnected v ec s"
| "resume v K_Tls_Response ec msg peer s = tls_on_response v ec msg s"
| "resume v K_Tls_Written ec msg peer s =
     (if ec_failed ec then Inr (s, p_on_downstream_write_error ec)
      else rbind (tls_on_request_completed s) (\<lambda>effs. Inr (s, effs)))"
| "resume v K_Tls_Gateway_Written ec msg peer s =
     Inr (s, if ec_failed ec then p_on_downstream_write_error ec else p_connection_end)"
| "resume v K_Tun_Connected ec msg peer s = tun_on_connected v ec s"
| "resume v K_Tun_Gateway_Written ec msg peer s =
     Inr (s, if ec_failed ec then p_on_downstream_write_error ec else p_on_tunnel_completed)"
| "resume v K_Tun_Ok_Written ec msg peer s = tun_on_ok_written ec s"
| "resume v K_Tun_Done ec msg peer s =
     Inr (s, if ec_failed ec then p_on_tunnel_error ec else p_on_tunnel_completed)"

fun awaited :: "app_effect list \<Rightarrow> cont list" where
  "awaited [] = []"
| "awaited (Start p k # es) = k # awaited es"
| "awaited (_ # es) = awaited es"

fun dones :: "app_effect list \<Rightarrow> nat" where
  "dones [] = 0"
| "dones (Post_Done # es) = Suc (dones es)"
| "dones (_ # es) = dones es"

fun collected :: "app_effect list \<Rightarrow> (string \<times> string \<times> message option \<times> message option) list" where
  "collected [] = []"
| "collected (Collect sc h rq rs # es) = (sc, h, rq, rs) # collected es"
| "collected (_ # es) = collected es"

text \<open>
  One proxied connection: the continuations awaited, the calls of the done handler posted and the
  exchanges collected so far. An operation may end in any way.
\<close>

inductive proxying ::
    "('c, 'i, 'h) app_env \<Rightarrow> ('c, 'i, 'h) mitm \<Rightarrow> cont list \<Rightarrow> nat \<Rightarrow> (string \<times> string \<times> message option \<times> message option) list \<Rightarrow> bool"
  for v where
  proxying_start: "sock = socket_factory_server (e_config (v_client v)) junk \<Longrightarrow>
     app_handle sock (MitmApp_new cf sock) = (s, effs) \<Longrightarrow>
     proxying v s (awaited effs) (dones effs) (collected effs)"
| proxying_resume: "proxying v s (k # ks) d cs \<Longrightarrow> resume v k ec msg peer s = Inr (s', effs) \<Longrightarrow>
     proxying v s' (ks @ awaited effs) (d + dones effs) (cs @ collected effs)"

section \<open>Invariant\<close>

lemma downstream_response_closes:
  assumes "make_downstream_response (MessageBase_new a b) (Some resp) ec = Inr r" "\<not> ec_failed ec"
  shows "header Connection_key r = Some ConnectionClose"
proof -
  define r4 where "r4 = version_minor (m_http_minor resp) (set_header Connection_key ConnectionClose
     (msg_status_code (m_status_code resp) (msg_reason (m_reason resp)
       ((MessageBase_new a b)\<lparr>m_headers := copy_except (m_headers resp) [] response_dontCopyList\<rparr>))))"
  have i: "headers_inv (m_headers r4)" "header Connection_key r4 = Some ConnectionClose"
    by (simp_all add: r4_def msg_simps)
  obtain c where "r = r4 \<or> set_body (Some c) r4 = Inr r"
    using assms by (auto simp: make_downstream_response_def make_downstream_good_response_def rbind_Inr_iff
        deref_Inr_iff Let_def get_body_def r4_def split: if_splits)
  then show ?thesis using i by (auto simp: set_body_eq msg_simps)
qed

lemma close_not_keep_alive:
  assumes "header Connection_key m = Some ConnectionClose"
  shows "\<not> is_connection_keep_alive m"
proof -
  have "\<not> is_connection_keep_alive_str ConnectionClose" "is_connection_close_str ConnectionClose"
    by code_simp+
  then show ?thesis using assms by (simp add: is_connection_keep_alive_def)
qed

lemma write_down_effects:
  "write_down v m k s = Inr (s', effs) \<Longrightarrow> \<exists>es w. effs = [Start (Op_Write es) k] \<and> s' = s\<lparr>down_wrtr := w\<rparr>"
  by (auto simp: write_down_def rbind_Inr_iff)

lemma write_down_body_effects:
  "write_down_body v m b k s = Inr (s', effs) \<Longrightarrow> \<exists>es w. effs = [Start (Op_Write es) k] \<and> s' = s\<lparr>down_wrtr := w\<rparr>"
  by (auto simp: write_down_body_def rbind_Inr_iff)

text \<open>What a continuation that does not write a response does next: one operation, or the end.\<close>

definition next_only :: "cont set \<Rightarrow> app_effect list \<Rightarrow> bool" where
  "next_only K effs \<longleftrightarrow> effs = [Post_Done] \<or> (\<exists>p k. effs = [Start p k] \<and> k \<in> K)"

lemma http_initiate_effects:
  "http_initiate_upstream_roundtrip v s = Inr (s', effs) \<Longrightarrow>
     (\<exists>es. effs = [Start (Op_Request es) K_Http_Response]) \<and> down_socket s' = down_socket s"
  by (auto simp: http_initiate_upstream_roundtrip_def http_roundtrip_upstream_def rbind_Inr_iff Let_def)

lemma on_first_effects:
  assumes "on_first v ec msg s = Inr (s', effs)"
  shows "next_only {K_Http_Response, K_Tls_Connected, K_Tun_Connected} effs \<and> down_socket s' = down_socket s"
  using assms
  by (auto simp: on_first_def p_on_first_message_def p_determine_action_def http_handle_def tun_handle_def tls_handle_def
      MitmHttp_new_def MitmHttps_new_def app_end_defs next_only_def rbind_Inr_iff Let_def
      split: if_splits connect_action.splits dest!: http_initiate_effects)
    (use connect_action.exhaust in blast)+

lemma tls_on_connected_effects:
  assumes "tls_on_connected v ec s = Inr (s', effs)"
  shows "next_only {K_Tls_Gateway_Written, K_Tls_Up_Shaken} effs \<and> down_socket s' = down_socket s"
  using assms
  by (auto simp: tls_on_connected_def tls_on_upstream_connect_error_def tls_handshake_upstream_def next_only_def
      rbind_Inr_iff split: if_splits dest!: write_down_effects)

lemma tls_on_up_shaken_effects:
  assumes "tls_on_up_shaken v ec peer s = Inr (s', effs)"
  shows "next_only {K_Tls_Ok_Written} effs \<and> down_socket s' = down_socket s \<and>
     (effs \<noteq> [Post_Done] \<longrightarrow> a_host s' = a_host s \<and> (\<exists>cert. a_certificate s' = Some cert \<and>
        a_identity s' = Some (v_build_identity v (a_host s) cert)))"
  using assms
  by (auto simp: tls_on_up_shaken_def app_end_defs next_only_def rbind_Inr_iff Let_def case_prod_beta
      split: if_splits dest!: write_down_effects)

lemma response_effects:
  assumes "http_on_response v ec msg s = Inr (s', effs) \<or> tls_on_response v ec msg s = Inr (s', effs)"
  shows "(effs = [Post_Done] \<or> (\<exists>p k sc h rq rs. effs = [Collect sc h rq rs, Start p k] \<and> k \<in> {K_Http_Written, K_Tls_Written} \<and>
            (\<exists>r. down_response s' = Some r \<and> rs = Some r \<and> header Connection_key r = Some ConnectionClose))) \<and>
         down_socket s' = down_socket s \<and> a_host s' = a_host s \<and> a_certificate s' = a_certificate s"
  using assms
  by (auto simp: http_on_response_def tls_on_response_def app_end_defs fresh_msg_def rbind_Inr_iff Let_def
      split: if_splits dest!: write_down_body_effects downstream_response_closes)

lemma tls_roundtrip_effects:
  assumes "tls_on_next v ec msg s = Inr (s', effs) \<or> tls_on_reconnected v ec s = Inr (s', effs)"
  shows "next_only {K_Tls_Reconnected, K_Tls_Response} effs \<and> down_socket s' = down_socket s \<and>
         a_host s' = a_host s \<and> a_certificate s' = a_certificate s"
  using assms
  by (auto simp: tls_on_next_def tls_initiate_upstream_roundtrip_def tls_on_reconnected_def tls_roundtrip_upstream_def
      app_end_defs next_only_def rbind_Inr_iff split: if_splits)

definition app_inv ::
    "('c, 'i, 'h) app_env \<Rightarrow> ('c, 'i, 'h) mitm \<Rightarrow> cont list \<Rightarrow> nat \<Rightarrow> (string \<times> string \<times> message option \<times> message option) list \<Rightarrow> bool" where
  "app_inv v s ks d cs \<longleftrightarrow>
     (ks = [] \<and> d = 1 \<and> length cs \<le> 1 \<or>
      (\<exists>k. ks = [k] \<and> d = 0 \<and> k \<noteq> K_Http_Next \<and>
        (if k \<in> {K_Http_Written, K_Tls_Written}
         then length cs = 1 \<and> (\<exists>r. down_response s = Some r \<and> header Connection_key r = Some ConnectionClose)
         else cs = [])))"

lemma app_inv_done: "length cs \<le> 1 \<Longrightarrow> app_inv v s [] (Suc 0) cs"
  by (simp add: app_inv_def)

lemma app_inv_wait: "k \<noteq> K_Http_Next \<Longrightarrow> k \<noteq> K_Http_Written \<Longrightarrow> k \<noteq> K_Tls_Written \<Longrightarrow> app_inv v s [k] 0 []"
  by (simp add: app_inv_def)

lemma app_inv_written:
  "k \<in> {K_Http_Written, K_Tls_Written} \<Longrightarrow> down_response s = Some r \<Longrightarrow> header Connection_key r = Some ConnectionClose \<Longrightarrow>
     app_inv v s [k] 0 [c]"
  unfolding app_inv_def by simp blast

lemma app_inv_next:
  assumes "next_only K effs" "K \<inter> {K_Http_Next, K_Http_Written, K_Tls_Written} = {}"
  shows "app_inv v s' (awaited effs) (dones effs) (collected effs)"
proof -
  consider "effs = [Post_Done]" | p k where "effs = [Start p k]" "k \<in> K" using assms(1) unfolding next_only_def by blast
  then show ?thesis
  proof cases
    case 1
    then show ?thesis by (simp add: app_inv_done)
  next
    case 2
    then have "k \<noteq> K_Http_Next" "k \<noteq> K_Http_Written" "k \<noteq> K_Tls_Written" using assms(2) by blast+
    then show ?thesis using 2(1) app_inv_wait by simp
  qed
qed

text \<open>The continuations that write no response and are not the dead one.\<close>

lemma plain_effects:
  assumes "resume v k ec msg peer s = Inr (s', effs)"
    and "k \<notin> {K_Http_Written, K_Tls_Written, K_Http_Response, K_Tls_Response, K_Http_Next}"
  shows "next_only (- {K_Http_Next, K_Http_Written, K_Tls_Written}) effs"
proof -
  have mono: "next_only K effs \<Longrightarrow> K \<subseteq> - {K_Http_Next, K_Http_Written, K_Tls_Written} \<Longrightarrow> ?thesis" for K
    unfolding next_only_def by blast
  show ?thesis
  proof (cases k)
    case K_First
    then show ?thesis using assms(1) on_first_effects [of v ec msg s s' effs] mono by fastforce
  next
    case K_Tls_Connected
    then show ?thesis using assms(1) tls_on_connected_effects [of v ec s s' effs] mono by fastforce
  next
    case K_Tls_Up_Shaken
    then show ?thesis using assms(1) tls_on_up_shaken_effects [of v ec peer s s' effs] mono by fastforce
  next
    case K_Tls_Next
    then show ?thesis using assms(1) tls_roundtrip_effects [of v ec msg s s' effs] mono by fastforce
  next
    case K_Tls_Reconnected
    then show ?thesis using assms(1) tls_roundtrip_effects [of v ec msg s s' effs] mono by fastforce
  next
    case K_Tun_Connected
    then show ?thesis
      using assms(1) by (auto simp: tun_on_connected_def next_only_def rbind_Inr_iff split: if_splits dest!: write_down_effects)
  qed (use assms in \<open>auto simp: app_end_defs next_only_def tls_on_ok_written_def tls_on_down_shaken_def
        tls_downstream_read_message_def tun_on_ok_written_def rbind_Inr_iff split: if_splits\<close>)
qed

lemma written_ends:
  assumes "resume v k ec msg peer s = Inr (s', effs)" "k \<in> {K_Http_Written, K_Tls_Written}"
    and "down_response s = Some r" "header Connection_key r = Some ConnectionClose"
  shows "effs = [Post_Done]"
  using assms close_not_keep_alive [OF assms(4)]
  by (auto simp: http_on_request_completed_def tls_on_request_completed_def app_end_defs rbind_Inr_iff split: if_splits)

lemma resume_inv:
  assumes i: "app_inv v s (k # ks) d cs" and x: "resume v k ec msg peer s = Inr (s', effs)"
  shows "app_inv v s' (ks @ awaited effs) (d + dones effs) (cs @ collected effs)"
proof -
  have e: "ks = []" "d = 0" "k \<noteq> K_Http_Next" using i unfolding app_inv_def by auto
  consider (written) "k \<in> {K_Http_Written, K_Tls_Written}" | (response) "k \<in> {K_Http_Response, K_Tls_Response}"
    | (plain) "k \<notin> {K_Http_Written, K_Tls_Written, K_Http_Response, K_Tls_Response, K_Http_Next}" using e(3) by blast
  then show ?thesis
  proof cases
    case written
    then obtain r where r: "down_response s = Some r" "header Connection_key r = Some ConnectionClose" "length cs = 1"
      using i unfolding app_inv_def by auto
    then have "effs = [Post_Done]" using written_ends [OF x written] by blast
    then show ?thesis using e r(3) app_inv_done [of cs v s'] by simp
  next
    case response
    then have c: "cs = []" using i unfolding app_inv_def by auto
    have "http_on_response v ec msg s = Inr (s', effs) \<or> tls_on_response v ec msg s = Inr (s', effs)"
      using response x by auto
    from response_effects [OF this] consider "effs = [Post_Done]"
      | p k' sc h rq rs r where "effs = [Collect sc h rq rs, Start p k']" "k' \<in> {K_Http_Written, K_Tls_Written}"
          "down_response s' = Some r" "header Connection_key r = Some ConnectionClose"
      by blast
    then show ?thesis
    proof cases
      case 1
      then show ?thesis using e c app_inv_done [of "[]" v s'] by simp
    next
      case 2
      then show ?thesis using e c app_inv_written [OF 2(2,3,4)] by simp
    qed
  next
    case plain
    then have c: "cs = []" using i unfolding app_inv_def by auto
    show ?thesis using app_inv_next [OF plain_effects [OF x plain]] e c by simp
  qed
qed

lemma proxying_inv: "proxying v s ks d cs \<Longrightarrow> app_inv v s ks d cs"
proof (induction rule: proxying.induct)
  case (proxying_start sock junk cf s effs)
  then have "effs = [Start Op_Read K_First]" by (simp add: app_handle_def handle_request_def p_read_first_message_def)
  then show ?case using app_inv_wait [of K_First v s] by simp
qed (rule resume_inv)

text \<open>
  \<open>MitmApp\<close> keeps the contract of a request handler. A written response is one that closes the connection,
  and the continuation of a further plain request is never reached.
\<close>

definition app_ready :: "cont \<Rightarrow> ('c, 'i, 'h) mitm \<Rightarrow> bool" where
  "app_ready k s \<longleftrightarrow> k \<noteq> K_Http_Next \<and>
     (k \<in> {K_Http_Written, K_Tls_Written} \<longrightarrow>
        (\<exists>r. down_response s = Some r \<and> header Connection_key r = Some ConnectionClose))"

interpretation mitm_handler: request_handler "\<lambda>k (ec, msg, peer). resume v k ec msg peer" awaited dones app_ready
  for v :: "('c, 'i, 'h) app_env"
proof
  fix k out and s s' :: "('c, 'i, 'h) mitm" and effs
  assume r: "app_ready k s" and x: "(case out of (ec, msg, peer) \<Rightarrow> resume v k ec msg peer) s = Inr (s', effs)"
  obtain ec msg peer where o: "out = (ec, msg, peer)" by (cases out)
  define cs :: "(string \<times> string \<times> message option \<times> message option) list"
    where "cs = (if k \<in> {K_Http_Written, K_Tls_Written} then [([], [], None, None)] else [])"
  have "app_inv v s [k] 0 cs" using r by (auto simp: app_inv_def app_ready_def cs_def)
  then have "app_inv v s' (awaited effs) (dones effs) (cs @ collected effs)"
    using resume_inv [of v s k "[]" 0 cs ec msg peer s' effs] x o by simp
  then show "awaited effs = [] \<and> dones effs = 1 \<or> (\<exists>k'. awaited effs = [k'] \<and> dones effs = 0 \<and> app_ready k' s')"
    by (auto simp: app_inv_def app_ready_def split: if_splits)
qed

lemma proxying_live: "proxying v s ks d cs \<Longrightarrow> mitm_handler.live s ks d"
proof (induction rule: proxying.induct)
  case (proxying_start sock junk cf s effs)
  then have "effs = [Start Op_Read K_First]" by (simp add: app_handle_def handle_request_def p_read_first_message_def)
  moreover have "app_ready K_First s" by (simp add: app_ready_def)
  ultimately show ?case using mitm_handler.live_start [of K_First s] by simp
next
  case (proxying_resume s k ks d cs ec msg peer s' effs)
  then show ?case using mitm_handler.live_step [of s k ks d v "(ec, msg, peer)" s' effs] by simp
qed

text \<open>The identity a client sees is made from the certificate of the server it asked for.\<close>

definition id_inv :: "('c, 'i, 'h) app_env \<Rightarrow> ('c, 'i, 'h) mitm \<Rightarrow> cont list \<Rightarrow> bool" where
  "id_inv v s ks \<longleftrightarrow>
     (c_mode (down_socket s) \<noteq> NOTSECURE \<longrightarrow> c_mode (down_socket s) = SECURE_SERVER \<and>
        (\<exists>cert. a_certificate s = Some cert \<and> m_server_identity (down_socket s) = Some (v_build_identity v (a_host s) cert)) \<and>
        set ks \<subseteq> {K_Tls_Down_Shaken, K_Tls_Next, K_Tls_Reconnected, K_Tls_Response, K_Tls_Written}) \<and>
     (K_Tls_Ok_Written \<in> set ks \<longrightarrow>
        (\<exists>cert. a_certificate s = Some cert \<and> a_identity s = Some (v_build_identity v (a_host s) cert)))"

lemma id_inv_plain:
  assumes "c_mode (down_socket s) = NOTSECURE" "K_Tls_Ok_Written \<notin> set ks"
  shows "id_inv v s ks"
  using assms by (simp add: id_inv_def)

lemma id_inv_secured:
  assumes "id_inv v s ks" "c_mode (down_socket s) \<noteq> NOTSECURE" "down_socket s' = down_socket s" "a_host s' = a_host s"
    and "a_certificate s' = a_certificate s"
    and "set ks' \<subseteq> {K_Tls_Down_Shaken, K_Tls_Next, K_Tls_Reconnected, K_Tls_Response, K_Tls_Written}"
  shows "id_inv v s' ks'"
  using assms unfolding id_inv_def by auto

lemma awaited_next_only: "next_only K effs \<Longrightarrow> set (awaited effs) \<subseteq> K"
  by (auto simp: next_only_def)

lemma resume_keeps_down:
  assumes "resume v k ec msg peer s = Inr (s', effs)" "k \<noteq> K_Tls_Ok_Written"
  shows "down_socket s' = down_socket s \<and> (k \<noteq> K_Tls_Up_Shaken \<longrightarrow> K_Tls_Ok_Written \<notin> set (awaited effs))"
proof (cases k)
  case K_First
  then show ?thesis using assms on_first_effects [of v ec msg s s' effs] awaited_next_only by fastforce
next
  case K_Http_Next
  then show ?thesis
    using assms http_initiate_effects [of v s s' effs] by (auto simp: http_on_next_def app_end_defs split: if_splits)
next
  case K_Tls_Connected
  then show ?thesis using assms tls_on_connected_effects [of v ec s s' effs] awaited_next_only by fastforce
next
  case K_Tls_Up_Shaken
  then show ?thesis using assms tls_on_up_shaken_effects [of v ec peer s s' effs] by simp
next
  case K_Tls_Next
  then show ?thesis using assms tls_roundtrip_effects [of v ec msg s s' effs] awaited_next_only by fastforce
next
  case K_Tls_Reconnected
  then show ?thesis using assms tls_roundtrip_effects [of v ec msg s s' effs] awaited_next_only by fastforce
next
  case K_Http_Response
  then show ?thesis using assms response_effects [of v ec msg s s' effs] by auto
next
  case K_Tls_Response
  then show ?thesis using assms response_effects [of v ec msg s s' effs] by auto
next
  case K_Tun_Connected
  then show ?thesis
    using assms by (auto simp: tun_on_connected_def rbind_Inr_iff split: if_splits dest!: write_down_effects)
qed (use assms in \<open>auto simp: app_end_defs http_on_request_completed_def tls_on_request_completed_def
      http_downstream_read_message_def tls_downstream_read_message_def tls_on_down_shaken_def tun_on_ok_written_def
      rbind_Inr_iff split: if_splits\<close>)

text \<open>Behind the client's handshake only the round trips of the intercepted connection follow.\<close>

lemma resume_secured:
  assumes "resume v k ec msg peer s = Inr (s', effs)"
    and "k \<in> {K_Tls_Down_Shaken, K_Tls_Next, K_Tls_Reconnected, K_Tls_Response, K_Tls_Written}"
  shows "a_host s' = a_host s \<and> a_certificate s' = a_certificate s \<and>
         set (awaited effs) \<subseteq> {K_Tls_Down_Shaken, K_Tls_Next, K_Tls_Reconnected, K_Tls_Response, K_Tls_Written}"
proof -
  consider "k \<in> {K_Tls_Next, K_Tls_Reconnected}" | "k = K_Tls_Response" | "k = K_Tls_Down_Shaken" | "k = K_Tls_Written"
    using assms(2) by blast
  then show ?thesis
  proof cases
    case 1
    then have "tls_on_next v ec msg s = Inr (s', effs) \<or> tls_on_reconnected v ec s = Inr (s', effs)" using assms(1) by auto
    from tls_roundtrip_effects [OF this] show ?thesis using awaited_next_only by fastforce
  next
    case 2
    then have "tls_on_response v ec msg s = Inr (s', effs)" using assms(1) by simp
    then have "set (awaited effs) \<subseteq> {K_Tls_Written}"
      by (auto simp: tls_on_response_def app_end_defs rbind_Inr_iff Let_def split: if_splits dest!: write_down_body_effects)
    moreover have "a_host s' = a_host s \<and> a_certificate s' = a_certificate s"
      using response_effects [of v ec msg s s' effs] \<open>tls_on_response v ec msg s = Inr (s', effs)\<close> by blast
    ultimately show ?thesis by blast
  next
    case 3
    then show ?thesis using assms(1) by (auto simp: tls_on_down_shaken_def app_end_defs tls_downstream_read_message_def split: if_splits)
  next
    case 4
    then show ?thesis
      using assms(1) by (auto simp: tls_on_request_completed_def app_end_defs tls_downstream_read_message_def rbind_Inr_iff split: if_splits)
  qed
qed

lemma ok_written_secures:
  assumes "tls_on_ok_written ec s = Inr (s', effs)" "c_mode (down_socket s) = NOTSECURE"
    and "a_certificate s = Some cert" "a_identity s = Some (v_build_identity v (a_host s) cert)"
  shows "id_inv v s' (awaited effs)"
  using assms
  by (auto simp: tls_on_ok_written_def become_secure_server_def app_end_defs id_inv_def rbind_Inr_iff split: if_splits)

lemma resume_id_inv:
  assumes i: "id_inv v s [k]" and x: "resume v k ec msg peer s = Inr (s', effs)"
  shows "id_inv v s' (awaited effs)"
proof (cases "c_mode (down_socket s) = NOTSECURE")
  case False
  then have k: "k \<in> {K_Tls_Down_Shaken, K_Tls_Next, K_Tls_Reconnected, K_Tls_Response, K_Tls_Written}"
    using i unfolding id_inv_def by auto
  have "down_socket s' = down_socket s" using resume_keeps_down [OF x] k by auto
  then show ?thesis using id_inv_secured [OF i False] resume_secured [OF x k] by blast
next
  case True
  show ?thesis
  proof (cases "k = K_Tls_Ok_Written")
    case ok: True
    then obtain cert where "a_certificate s = Some cert" "a_identity s = Some (v_build_identity v (a_host s) cert)"
      using i unfolding id_inv_def by auto
    then show ?thesis using ok_written_secures True x ok by simp
  next
    case False
    note d = resume_keeps_down [OF x False]
    show ?thesis
    proof (cases "k = K_Tls_Up_Shaken")
      case up: True
      then have "tls_on_up_shaken v ec peer s = Inr (s', effs)" using x by simp
      from tls_on_up_shaken_effects [OF this] show ?thesis
        using True by (auto simp: id_inv_def next_only_def)
    next
      case other: False
      then show ?thesis using id_inv_plain d True by metis
    qed
  qed
qed

lemma proxying_id_inv: "proxying v s ks d cs \<Longrightarrow> id_inv v s ks"
proof (induction rule: proxying.induct)
  case (proxying_start sock junk cf s effs)
  then show ?case
    by (intro id_inv_plain)
      (auto simp: app_handle_def handle_request_def p_read_first_message_def socket_factory_server_def Connection_server_def)
next
  case (proxying_resume s k ks d cs ec msg peer s' effs)
  then have "ks = []" using proxying_inv [of v s "k # ks" d cs] unfolding app_inv_def by auto
  then show ?case using proxying_resume resume_id_inv by simp
qed

text \<open>A concrete environment: every host is intercepted, and identities are numbers.\<close>

definition sample_app_env :: "(nat, nat, int) app_env" where
  "sample_app_env = \<lparr>v_client = sample_env, v_parse_url = (\<lambda>_. sample_url), v_http_connect = 5,
     v_compile = (\<lambda>_. Some (Rep (Cls (\<lambda>_. True)))), v_store = 0, v_build_identity = (\<lambda>h c. length h + c)\<rparr>"

definition sample_filter :: capture_filter where
  "sample_filter = CaptureFilter_new [''.*'']"

lemma sample_started:
  "\<exists>s. proxying sample_app_env s [K_First] 0 [] \<and> a_filter s = sample_filter \<and> c_mode (down_socket s) = NOTSECURE \<and>
       down_wrtr s = MessageWriter_new"
proof -
  let ?sock = "socket_factory_server (e_config (v_client sample_app_env)) False :: (nat, nat) connection"
  obtain s :: "(nat, nat, int) mitm"
    where s: "app_handle ?sock (MitmApp_new sample_filter ?sock) = (s, [Start Op_Read K_First])"
      "a_filter s = sample_filter" "c_mode (down_socket s) = NOTSECURE" "down_wrtr s = MessageWriter_new"
    by (simp add: app_handle_def handle_request_def p_read_first_message_def MitmApp_new_def
        socket_factory_server_def Connection_server_def)
  then show ?thesis using proxying_start [where v = sample_app_env and junk = False, OF refl s(1)] by auto
qed

lemma sample_uri:
  "Uri_new (v_parse_url sample_app_env) t =
     Inr \<lparr>m_scheme = ''http'', m_user = [], m_password = [], m_user_and_password = [], m_host = ''h:80'',
          m_server = ''h'', m_port = 80, m_rel_path = ''/p'', m_abs_path = ''http://h:80/p'', m_search = []\<rparr>"
proof -
  have "int_to_string 80 = ''80''" by code_simp
  then show ?thesis
    by (simp add: sample_app_env_def Uri_new_def sample_url_def uri_port_def uri_path_value_def Let_def)
qed

lemma sample_collectable: "is_collectable (v_compile sample_app_env) ''h'' sample_filter = Inr True"
  by code_simp

section \<open>Properties\<close>

text \<open>
  C1. Every connection ends exactly once. Through any run of the proxy on one client connection, whatever
  the operations it starts deliver, it waits for exactly one operation, or it waits for none and the
  handler that ends the connection has been posted exactly once.
\<close>

theorem proxy_done_once:
  assumes "proxying v s ks d cs"
  shows "length ks + d = 1"
  by (rule mitm_handler.live_once [OF proxying_live [OF assms]])

theorem proxy_done_once_witness:
  "\<exists>s. proxying sample_app_env s [] 1 [] \<and> length ([] :: cont list) + (1 :: nat) = 1"
proof -
  obtain s where s: "proxying sample_app_env s [K_First] 0 []" using sample_started by blast
  have "resume sample_app_env K_First make_error_parse None 0 s = Inr (s, [Post_Done])"
    by (simp add: on_first_def app_end_defs)
  from proxying_resume [OF s this] have p: "proxying sample_app_env s [] 1 []" by simp
  show ?thesis using proxy_done_once [OF p] p by blast
qed

text \<open>
  C16. One exchange per connection. The response always says \<open>Connection: close\<close>, so the proxy never reads a
  second request of a plain client: at most one exchange is collected, it is collected before its response
  is written, and when the response is written the connection ends, also for a client that asked to keep
  it.
\<close>

theorem proxy_one_exchange:
  assumes "proxying v s ks d cs"
  shows "length cs \<le> 1 \<and> K_Http_Next \<notin> set ks \<and>
         (\<forall>k \<in> set ks. (k \<in> {K_Http_Written, K_Tls_Written}) = (cs \<noteq> []) \<and>
            (cs \<noteq> [] \<longrightarrow> (\<exists>r. down_response s = Some r \<and> header Connection_key r = Some ConnectionClose) \<and>
               (\<forall>ec msg peer s' effs. resume v k ec msg peer s = Inr (s', effs) \<longrightarrow> effs = [Post_Done])))"
proof -
  consider (over) "ks = []" "length cs \<le> 1"
    | (waiting) k where "ks = [k]" "k \<notin> {K_Http_Written, K_Tls_Written}" "k \<noteq> K_Http_Next" "cs = []"
    | (written) k r c where "ks = [k]" "k \<in> {K_Http_Written, K_Tls_Written}" "cs = [c]" "down_response s = Some r"
        "header Connection_key r = Some ConnectionClose"
    using proxying_inv [OF assms] unfolding app_inv_def One_nat_def length_Suc_conv length_0_conv
    by (elim disjE exE conjE) (auto split: if_splits)
  then show ?thesis
  proof cases
    case written
    have "effs = [Post_Done]" if "resume v k ec msg peer s = Inr (s', effs)" for ec msg peer s' effs
      using written_ends [OF that written(2,4,5)] .
    then show ?thesis using written by (auto simp del: resume.simps)
  qed auto
qed

theorem proxy_one_exchange_witness:
  "\<exists>s. proxying sample_app_env s [K_First] 0 [] \<and> K_Http_Next \<notin> set [K_First]"
proof -
  obtain s where s: "proxying sample_app_env s [K_First] 0 []" using sample_started by blast
  then show ?thesis using proxy_one_exchange [OF s] by blast
qed


lemma sample_connected_response:
  "\<exists>m mb. make_response_200_OK_connected (MessageBase_new 0 0) = Inr m \<and> serialize_headers (\<lambda>_. ''GET'') m = Inr mb"
proof -
  obtain c where c: "makeBufferChainSPtr_string [] = Inr c" "chain_inv c" "chain_content c = []"
    using makeBufferChainSPtr_string_ok [of "[]"] by auto
  then have z: "chain_size c = 0" by (simp add: chain_inv_def chain_size_def)
  have t: "nat_to_string 0 = ''0''" "trim ''0'' = ''0''" "int_to_string 200 = ''200''" by code_simp+
  let ?m = "set_header ContentLength ''0'' (remove_header TransferEncoding
     ((msg_status_code 200 (msg_reason ''OK'' (MessageBase_new 0 0)))\<lparr>m_body_chain_sptr := Some c\<rparr>))"
  have m: "make_response_200_OK_connected (MessageBase_new 0 0) = Inr ?m"
    using c z t by (simp add: make_response_200_OK_connected_def set_body_string_def Let_def)
  have "length (concat (head_pieces (\<lambda>_. ''GET'') ?m)) \<le> 1048576"
    using t by (simp add: head_pieces_def MessageBase_new_def msg_status_code_def msg_reason_def remove_header_def
        remove_at_key_def set_header_def set_at_key_def find_at_index_def crlf_def header_names)
  then show ?thesis using m serialize_headers_fits by blast
qed

lemma sample_intercepted:
  "\<exists>s. proxying sample_app_env s [K_Tls_Down_Shaken] 0 [] \<and> c_mode (down_socket s) = SECURE_SERVER"
proof -
  let ?v = "sample_app_env"
  let ?m = "(MessageBase_new 5 0)\<lparr>m_target := ''h:80''\<rparr>"
  obtain s where s: "proxying ?v s [K_First] 0 []" "a_filter s = sample_filter" "c_mode (down_socket s) = NOTSECURE"
      "down_wrtr s = MessageWriter_new"
    using sample_started by blast
  have mth: "m_method ?m = v_http_connect ?v" by (simp add: sample_app_env_def MessageBase_new_def)
  obtain s1 p1 where s1: "resume ?v K_First make_ok (Some ?m) 0 s = Inr (s1, [Start p1 K_Tls_Connected])"
      "c_mode (down_socket s1) = NOTSECURE" "down_wrtr s1 = MessageWriter_new"
      "\<exists>up. up_socket s1 = Some up \<and> c_mode up = NOTSECURE"
    using s sample_collectable mth
    by (simp add: on_first_def p_on_first_message_def sample_uri p_determine_action_def uri_host_no_port_def
        tls_handle_def MitmHttps_new_def socket_factory_client_def Connection_client_def Let_def)
  obtain up where up: "up_socket s1 = Some up" "c_mode up = NOTSECURE" using s1(4) by blast
  obtain s2 p2 where s2: "resume ?v K_Tls_Connected make_ok None 0 s1 = Inr (s2, [Start p2 K_Tls_Up_Shaken])"
      "c_mode (down_socket s2) = NOTSECURE" "down_wrtr s2 = MessageWriter_new"
      "\<exists>up. up_socket s2 = Some up \<and> c_mode up = SECURE_CLIENT"
    using s1 up by (simp add: tls_on_connected_def tls_handshake_upstream_def become_secure_client_def
        async_handshake_def p_start_handshake_def Let_def)
  obtain up2 where up2: "up_socket s2 = Some up2" "c_mode up2 = SECURE_CLIENT" using s2(4) by blast
  obtain m mb where m: "make_response_200_OK_connected (MessageBase_new 0 0) = Inr m" "serialize_headers (\<lambda>_. ''GET'') m = Inr mb"
    using sample_connected_response by blast
  have f: "fresh_msg ?v = MessageBase_new 0 0" "e_method_str (v_client ?v) = (\<lambda>_. ''GET'')"
    by (simp_all add: fresh_msg_def sample_app_env_def sample_env_def)
  obtain s3 p3 where s3: "resume ?v K_Tls_Up_Shaken make_ok None 3 s2 = Inr (s3, [Start p3 K_Tls_Ok_Written])"
      "c_mode (down_socket s3) = NOTSECURE" "a_identity s3 \<noteq> None"
    using s2 up2 m f by (simp add: tls_on_up_shaken_def p_handle_handshake_def get_server_certificate_def write_down_def
        async_write_head [OF m(2)] Let_def)
  obtain s4 p4 where s4: "resume ?v K_Tls_Ok_Written make_ok None 0 s3 = Inr (s4, [Start p4 K_Tls_Down_Shaken])"
      "c_mode (down_socket s4) = SECURE_SERVER"
    using s3 by (auto simp: tls_on_ok_written_def become_secure_server_def async_handshake_def p_start_handshake_def)
  have q1: "proxying ?v s1 [K_Tls_Connected] 0 []" using proxying_resume [OF s(1) s1(1)] by simp
  have q2: "proxying ?v s2 [K_Tls_Up_Shaken] 0 []" using proxying_resume [OF q1 s2(1)] by simp
  have q3: "proxying ?v s3 [K_Tls_Ok_Written] 0 []" using proxying_resume [OF q2 s3(1)] by simp
  have "proxying ?v s4 [K_Tls_Down_Shaken] 0 []" using proxying_resume [OF q3 s4(1)] by simp
  then show ?thesis using s4(2) by blast
qed


lemma connect_first:
  assumes "m_method m = v_http_connect v" "Uri_new (v_parse_url v) (m_target m) = Inr u" "\<not> ec_failed ec"
    and "is_collectable (v_compile v) (uri_host_no_port u) (a_filter s) = Inr b"
  shows "\<exists>s'. resume v K_First ec (Some m) peer s =
     Inr (s', [Start (Op_Conn [E_Resolve (uri_host_no_port u) (int_to_string (m_port u))])
                     (if b then K_Tls_Connected else K_Tun_Connected)])"
  using assms
  by (auto simp: on_first_def p_on_first_message_def p_determine_action_def tls_handle_def tun_handle_def
      MitmHttps_new_def async_connect_def socket_factory_client_def Connection_client_def Let_def)

text \<open>
  C17. What happens to a \<open>CONNECT\<close> request is decided by the filter and the host alone, whatever the port: a
  host that a filter matches is intercepted, any other is tunnelled, both after a connect to that host and
  port; a filter that does not compile throws.
\<close>

theorem connect_decided_by_host:
  assumes "m_method m = v_http_connect v" "Uri_new (v_parse_url v) (m_target m) = Inr u" "\<not> ec_failed ec"
  shows "case is_collectable (v_compile v) (uri_host_no_port u) (a_filter s) of
           Inl e \<Rightarrow> resume v K_First ec (Some m) peer s = Inl e
         | Inr b \<Rightarrow> \<exists>s'. resume v K_First ec (Some m) peer s =
             Inr (s', [Start (Op_Conn [E_Resolve (uri_host_no_port u) (int_to_string (m_port u))])
                             (if b then K_Tls_Connected else K_Tun_Connected)])"
proof (cases "is_collectable (v_compile v) (uri_host_no_port u) (a_filter s)")
  case (Inl e)
  then show ?thesis using assms by (simp add: on_first_def p_on_first_message_def p_determine_action_def)
next
  case (Inr b)
  then show ?thesis using connect_first [OF assms Inr] by (simp del: resume.simps)
qed

theorem connect_decided_by_host_witness:
  "\<exists>s s'. a_filter s = sample_filter \<and>
     resume sample_app_env K_First make_ok (Some ((MessageBase_new 5 0)\<lparr>m_target := ''h:80''\<rparr>)) 0 s =
       Inr (s', [Start (Op_Conn [E_Resolve ''h'' ''80'']) K_Tls_Connected])"
proof -
  obtain s where s: "a_filter s = sample_filter" "proxying sample_app_env s [K_First] 0 []" using sample_started by blast
  let ?m = "(MessageBase_new 5 0)\<lparr>m_target := ''h:80''\<rparr>"
  have m: "m_method ?m = v_http_connect sample_app_env" by (simp add: sample_app_env_def MessageBase_new_def)
  have "int_to_string 80 = ''80''" by code_simp
  then show ?thesis
    using connect_decided_by_host [OF m sample_uri make_ok_not_failed(1), of 0 s] s(1) sample_collectable
    by (auto simp: uri_host_no_port_def)
qed


lemma sample_request_first:
  "\<exists>s1. resume sample_app_env K_First make_ok (Some sample_request) 0 s =
     Inr (s1, [Start (Op_Request [Cl_Conn (E_Resolve ''h'' ''80'')]) K_Http_Response])"
proof -
  let ?v = "sample_app_env"
  have n: "''X-A'' \<noteq> Upgrade" "Connection_key \<noteq> Upgrade" "ProxyConnection \<noteq> Upgrade" by (simp_all add: header_names)
  have u: "to_upper ''Upgrade'' = Upgrade" "int_to_string 80 = ''80''" by code_simp+
  have up: "header ''Upgrade'' sample_request = None"
    using n u(1) by (simp add: header_def sample_request_def header_simps)
  have b: "m_body_chain_sptr sample_request = Some makeBufferChainSPtr"
    by (simp add: sample_request_def MessageBase_new_def)
  have mth: "m_method sample_request \<noteq> v_http_connect ?v"
    by (simp add: sample_app_env_def sample_request_def MessageBase_new_def)
  obtain r where r: "make_upstream_request (v_parse_url ?v) (fresh_msg ?v) sample_request = Inr r"
    using up b by (simp add: make_upstream_request_def request_transform_common_def set_body_def sample_uri Let_def)
  have "chain_size makeBufferChainSPtr \<le> max_size (m_buf_factory makeBufferChainSPtr)"
    by (simp add: chain_size_def makeBufferChainSPtr_def chain_new_def)
  then obtain a where a: "chain_amalgamate makeBufferChainSPtr = Inr a"
    using chain_amalgamate_ok makeBufferChainSPtr_inv by blast
  show ?thesis
    using r a b mth u(2)
    by (simp add: on_first_def p_on_first_message_def sample_uri http_handle_def MitmHttp_new_def uri_host_no_port_def
        http_initiate_upstream_roundtrip_def http_roundtrip_upstream_def client_async_write_chain_def
        client_p_async_write_def p_internal_connect_def client_async_connect_def client_new_def async_connect_def
        socket_factory_client_def Connection_client_def Let_def)
qed

lemma sample_response:
  "\<exists>d mb. make_downstream_response (MessageBase_new 0 0) (Some (MessageBase_new 1 200)) make_ok = Inr d \<and>
          serialize_headers (\<lambda>_. ''GET'') d = Inr mb"
proof -
  let ?d = "version_minor 1 (set_header Connection_key ConnectionClose (msg_status_code 200 (msg_reason [] (MessageBase_new 0 0))))"
  have t: "int_to_string 200 = ''200''" "trim ''CLOSE'' = ''CLOSE''" by code_simp+
  have "make_downstream_response (MessageBase_new 0 0) (Some (MessageBase_new 1 200)) make_ok = Inr ?d"
    by (simp add: make_downstream_response_def make_downstream_good_response_def MessageBase_new_def copy_except_def
        chain_size_def makeBufferChainSPtr_def chain_new_def Let_def)
  moreover have "length (concat (head_pieces (\<lambda>_. ''GET'') ?d)) \<le> 1048576"
    using t by (simp add: head_pieces_def MessageBase_new_def msg_status_code_def msg_reason_def version_minor_def
        set_header_def set_at_key_def find_at_index_def crlf_def header_names ConnectionClose_def)
  ultimately show ?thesis using serialize_headers_fits by blast
qed


text \<open>
  C28. Requests that bring the proxy down: a plain request with an \<open>Upgrade\<close> header fails an assertion, and one
  whose body is longer than a buffer of its chain may be makes the client throw out of the event loop.
\<close>

theorem hostile_requests_throw:
  assumes "m_method m \<noteq> v_http_connect v" "Uri_new (v_parse_url v) (m_target m) = Inr u" "\<not> ec_failed ec"
  shows "(header ''Upgrade'' m \<noteq> None \<longrightarrow> resume v K_First ec (Some m) peer s = Inl Assert_Failed) \<and>
         (header ''Upgrade'' m = None \<longrightarrow> m_body_chain_sptr m = Some ch \<longrightarrow> chain_size ch > max_size (m_buf_factory ch) \<longrightarrow>
            resume v K_First ec (Some m) peer s = Inl Alloc_Too_Big)"
proof -
  note first = on_first_def p_on_first_message_def http_handle_def MitmHttp_new_def http_initiate_upstream_roundtrip_def
    http_roundtrip_upstream_def
  have b: "\<exists>r. make_upstream_request (v_parse_url v) (fresh_msg v) m = Inr r"
    if "header ''Upgrade'' m = None" "m_body_chain_sptr m = Some ch"
    using that assms(2) by (simp add: make_upstream_request_def request_transform_common_def set_body_def Let_def)
  show ?thesis
  proof (intro conjI impI)
    assume "header ''Upgrade'' m \<noteq> None"
    then show "resume v K_First ec (Some m) peer s = Inl Assert_Failed"
      using assms by (simp add: first make_upstream_request_def Let_def)
  next
    assume a: "header ''Upgrade'' m = None" "m_body_chain_sptr m = Some ch" "max_size (m_buf_factory ch) < chain_size ch"
    obtain q where "make_upstream_request (v_parse_url v) (fresh_msg v) m = Inr q" using b [OF a(1,2)] by blast
    then show "resume v K_First ec (Some m) peer s = Inl Alloc_Too_Big"
      using assms a by (simp add: first client_async_write_chain_def chain_amalgamate_too_big Let_def)
  qed
qed

theorem hostile_requests_throw_witness:
  "resume sample_app_env K_First make_ok
     (Some ((MessageBase_new 1 0)\<lparr>m_headers := [\<lparr>fkey = Upgrade, fvalue = ''h2c''\<rparr>]\<rparr>)) 0
     (MitmApp_new sample_filter (Connection_server default_config False)) = Inl Assert_Failed"
proof -
  let ?m = "(MessageBase_new 1 0)\<lparr>m_headers := [\<lparr>fkey = Upgrade, fvalue = ''h2c''\<rparr>]\<rparr>"
  have m: "m_method ?m \<noteq> v_http_connect sample_app_env" by (simp add: sample_app_env_def MessageBase_new_def)
  have "to_upper ''Upgrade'' = Upgrade" by code_simp
  then have "header ''Upgrade'' ?m \<noteq> None" by (simp add: header_def header_simps)
  then show ?thesis using hostile_requests_throw [OF m sample_uri make_ok_not_failed(1)] by blast
qed

end
