(* ===== verification/Server.thy ===== *)
theory Server
  imports Marvin_Error
begin

text \<open>
  \<open>marvin/server/server_connection_manager.cpp\<close>, \<open>connection_handler.cpp\<close> and \<open>tcp_server.cpp\<close>: accepting
  connections up to a limit, serving each with a handler, and stopping. A connection handler is a name;
  the descriptor of its socket is the argument \<open>fd_of\<close>. The "allow more" call-back is always the server's
  \<open>p_start_accept\<close>, so only its presence is kept. The request handler of a connection is the environment:
  \<open>serve\<close> starts it, and its end is a call of \<open>deregister\<close>.
\<close>

section \<open>The connection manager\<close>

record manager =
  m_maxNumberOfConnections :: int
  m_allow_more_callback :: bool
  m_connections :: "nat set"
  m_fd_list :: "int set"

definition ServerConnectionManager_new :: "int \<Rightarrow> manager" where
  "ServerConnectionManager_new max_connections =
     \<lparr>m_maxNumberOfConnections = max_connections, m_allow_more_callback = False, m_connections = {}, m_fd_list = {}\<rparr>"

text \<open>The comparison of a \<open>size_t\<close> with an \<open>int\<close> converts the latter.\<close>

definition at_limit :: "manager \<Rightarrow> bool" where
  "at_limit g \<longleftrightarrow> card (m_connections g) \<ge> size_of_int (m_maxNumberOfConnections g)"

text \<open>The result tells whether the call-back is called at once.\<close>

definition allow_another_connection :: "manager \<Rightarrow> (manager \<times> bool) result" where
  "allow_another_connection g =
     (if m_allow_more_callback g then Inl Assert_Failed
      else if at_limit g then Inr (g\<lparr>m_allow_more_callback := True\<rparr>, False)
      else Inr (g, True))"

definition register_connection_handler :: "(nat \<Rightarrow> int) \<Rightarrow> nat \<Rightarrow> manager \<Rightarrow> manager result" where
  "register_connection_handler fd_of h g =
     (if fd_of h \<in> m_fd_list g then Inl Assert_Failed
      else if h \<in> m_connections g then Inl Assert_Failed
      else Inr (g\<lparr>m_connections := insert h (m_connections g), m_fd_list := insert (fd_of h) (m_fd_list g)\<rparr>))"

text \<open>The result tells whether the call-back is posted.\<close>

definition p_deregister :: "(nat \<Rightarrow> int) \<Rightarrow> nat \<Rightarrow> manager \<Rightarrow> (manager \<times> bool) result" where
  "p_deregister fd_of h g =
     (if fd_of h \<notin> m_fd_list g then Inl Assert_Failed
      else if h \<notin> m_connections g then Inl Assert_Failed
      else
        (let g1 = g\<lparr>m_connections := m_connections g - {h}, m_fd_list := m_fd_list g - {fd_of h}\<rparr> in
         if m_allow_more_callback g1 \<and> \<not> at_limit g1
         then Inr (g1\<lparr>m_allow_more_callback := False\<rparr>, True) else Inr (g1, False)))"

definition deregister :: "(nat \<Rightarrow> int) \<Rightarrow> nat \<Rightarrow> manager \<Rightarrow> (manager \<times> bool) result" where
  "deregister fd_of h g = p_deregister fd_of h g"

definition stop_all :: "manager \<Rightarrow> manager" where
  "stop_all g = g"

section \<open>The server\<close>

text \<open>
  The server with its event loop: posted calls of \<open>p_start_accept\<close>, accepts in progress, accepts that were
  cancelled and will complete with an error, a heartbeat wait, and whether the loop was stopped.
\<close>

record server =
  s_mgr :: manager
  m_terminate_requested :: bool
  s_acceptor_open :: bool
  s_posted :: nat
  s_accepting :: nat
  s_aborted :: nat
  s_heartbeat :: bool
  s_stopped :: bool

definition TcpServer_new :: "int \<Rightarrow> server" where
  "TcpServer_new numberOfConnections =
     \<lparr>s_mgr = ServerConnectionManager_new numberOfConnections, m_terminate_requested = False,
      s_acceptor_open = False, s_posted = 0, s_accepting = 0, s_aborted = 0, s_heartbeat = False, s_stopped = False\<rparr>"

definition p_start_heartbeat :: "server \<Rightarrow> server" where
  "p_start_heartbeat s = s\<lparr>s_heartbeat := True\<rparr>"

definition p_initialize :: "error_code \<Rightarrow> server \<Rightarrow> server result" where
  "p_initialize bind_err s =
     (if ec_failed bind_err then Inl Bind_Failed
      else Inr (p_start_heartbeat (s\<lparr>s_acceptor_open := True\<rparr>)))"

definition p_start_accept :: "server \<Rightarrow> server" where
  "p_start_accept s = s\<lparr>s_accepting := Suc (s_accepting s)\<rparr>"

definition listen :: "error_code \<Rightarrow> server \<Rightarrow> server result" where
  "listen bind_err s = rbind (p_initialize bind_err s) (\<lambda>s. Inr (s\<lparr>s_posted := Suc (s_posted s)\<rparr>))"

definition terminate :: "server \<Rightarrow> server" where
  "terminate s = s\<lparr>m_terminate_requested := True\<rparr>"

definition p_do_stop :: "server \<Rightarrow> server" where
  "p_do_stop s = s\<lparr>m_terminate_requested := True\<rparr>"

text \<open>The handler of the heartbeat timer, after the wait has ended.\<close>

definition p_on_heartbeat :: "server \<Rightarrow> server" where
  "p_on_heartbeat s =
     (if m_terminate_requested s
      then s\<lparr>s_mgr := stop_all (s_mgr s), s_aborted := s_aborted s + s_accepting s, s_accepting := 0\<rparr>
      else p_start_heartbeat s)"

text \<open>The completion of an accept for handler \<open>h\<close>; the flag tells whether the handler starts to serve.\<close>

definition p_handle_accept :: "(nat \<Rightarrow> int) \<Rightarrow> nat \<Rightarrow> error_code \<Rightarrow> server \<Rightarrow> (server \<times> bool) result" where
  "p_handle_accept fd_of h err s =
     (if \<not> s_acceptor_open s then Inr (s, False)
      else if \<not> ec_failed err then
        rbind (register_connection_handler fd_of h (s_mgr s)) (\<lambda>g1.
        rbind (allow_another_connection g1) (\<lambda>(g2, now).
          (let s1 = s\<lparr>s_mgr := g2\<rparr> in Inr (if now then p_start_accept s1 else s1, True))))
      else Inr (s\<lparr>s_stopped := True\<rparr>, False))"

text \<open>The end of a connection: the handler calls \<open>deregister\<close>.\<close>

definition on_handler_done :: "(nat \<Rightarrow> int) \<Rightarrow> nat \<Rightarrow> server \<Rightarrow> server result" where
  "on_handler_done fd_of h s =
     rbind (deregister fd_of h (s_mgr s)) (\<lambda>(g, post).
       Inr (s\<lparr>s_mgr := g, s_posted := (if post then Suc (s_posted s) else s_posted s)\<rparr>))"

section \<open>Runs\<close>

text \<open>
  What may happen while the loop runs. A new connection has a descriptor that no open connection has, as
  the operating system guarantees. Accepts fail only when they were cancelled.
\<close>

datatype sv_action =
    Run_Posted
  | Accepted nat
  | Accept_Aborted nat
  | Handler_Done nat
  | Heartbeat
  | Terminate

fun sv_enabled :: "(nat \<Rightarrow> int) \<Rightarrow> sv_action \<Rightarrow> server \<Rightarrow> bool" where
  "sv_enabled fd_of Run_Posted s \<longleftrightarrow> s_posted s > 0"
| "sv_enabled fd_of (Accepted h) s \<longleftrightarrow> s_accepting s > 0 \<and> h \<notin> m_connections (s_mgr s) \<and> fd_of h \<notin> fd_of ` m_connections (s_mgr s)"
| "sv_enabled fd_of (Accept_Aborted h) s \<longleftrightarrow> s_aborted s > 0"
| "sv_enabled fd_of (Handler_Done h) s \<longleftrightarrow> h \<in> m_connections (s_mgr s)"
| "sv_enabled fd_of Heartbeat s \<longleftrightarrow> s_heartbeat s"
| "sv_enabled fd_of Terminate s \<longleftrightarrow> True"

fun sv_step :: "(nat \<Rightarrow> int) \<Rightarrow> error_code \<Rightarrow> sv_action \<Rightarrow> server \<Rightarrow> server result" where
  "sv_step fd_of aborted Run_Posted s = Inr (p_start_accept (s\<lparr>s_posted := s_posted s - 1\<rparr>))"
| "sv_step fd_of aborted (Accepted h) s =
     rbind (p_handle_accept fd_of h make_error_ok (s\<lparr>s_accepting := s_accepting s - 1\<rparr>)) (\<lambda>(s', served). Inr s')"
| "sv_step fd_of aborted (Accept_Aborted h) s =
     rbind (p_handle_accept fd_of h aborted (s\<lparr>s_aborted := s_aborted s - 1\<rparr>)) (\<lambda>(s', served). Inr s')"
| "sv_step fd_of aborted (Handler_Done h) s = on_handler_done fd_of h s"
| "sv_step fd_of aborted Heartbeat s = Inr (p_on_heartbeat (s\<lparr>s_heartbeat := False\<rparr>))"
| "sv_step fd_of aborted Terminate s = Inr (terminate s)"

inductive serving :: "(nat \<Rightarrow> int) \<Rightarrow> error_code \<Rightarrow> server \<Rightarrow> server \<Rightarrow> bool" for fd_of aborted where
  serving_refl: "serving fd_of aborted s s"
| serving_step: "serving fd_of aborted s s1 \<Longrightarrow> \<not> s_stopped s1 \<Longrightarrow> sv_enabled fd_of a s1 \<Longrightarrow>
     sv_step fd_of aborted a s1 = Inr s2 \<Longrightarrow> serving fd_of aborted s s2"

section \<open>Invariant\<close>

definition sv_inv :: "(nat \<Rightarrow> int) \<Rightarrow> server \<Rightarrow> bool" where
  "sv_inv fd_of s \<longleftrightarrow>
     s_acceptor_open s \<and>
     1 \<le> m_maxNumberOfConnections (s_mgr s) \<and> m_maxNumberOfConnections (s_mgr s) < 2 ^ 31 \<and>
     finite (m_connections (s_mgr s)) \<and> inj_on fd_of (m_connections (s_mgr s)) \<and>
     m_fd_list (s_mgr s) = fd_of ` m_connections (s_mgr s) \<and>
     int (card (m_connections (s_mgr s))) \<le> m_maxNumberOfConnections (s_mgr s) \<and>
     (m_allow_more_callback (s_mgr s) \<longrightarrow> int (card (m_connections (s_mgr s))) = m_maxNumberOfConnections (s_mgr s)) \<and>
     (\<not> m_allow_more_callback (s_mgr s) \<and> \<not> s_stopped s \<longrightarrow>
        int (card (m_connections (s_mgr s))) < m_maxNumberOfConnections (s_mgr s)) \<and>
     (\<not> s_stopped s \<longrightarrow>
        s_accepting s + s_posted s + s_aborted s + (if m_allow_more_callback (s_mgr s) then 1 else 0) = 1)"

lemma at_limit_iff:
  "1 \<le> m_maxNumberOfConnections g \<Longrightarrow> m_maxNumberOfConnections g < 2 ^ 31 \<Longrightarrow>
     at_limit g \<longleftrightarrow> int (card (m_connections g)) \<ge> m_maxNumberOfConnections g"
  by (simp add: at_limit_def size_of_int_def nat_le_iff)

lemma sv_inv_listen:
  assumes "1 \<le> n" "n < 2 ^ 31" "listen err (TcpServer_new n) = Inr s"
  shows "sv_inv fd_of s"
  using assms
  by (auto simp: listen_def p_initialize_def TcpServer_new_def ServerConnectionManager_new_def sv_inv_def
      p_start_heartbeat_def split: if_splits)

lemma accepted_inv:
  assumes "sv_inv fd_of s" "\<not> s_stopped s" "sv_enabled fd_of (Accepted h) s"
  shows "\<exists>s'. sv_step fd_of ab (Accepted h) s = Inr s' \<and> sv_inv fd_of s'"
proof -
  let ?g = "s_mgr s"
  let ?g1 = "?g\<lparr>m_connections := insert h (m_connections ?g), m_fd_list := insert (fd_of h) (m_fd_list ?g)\<rparr>"
  have e: "s_accepting s = 1" "s_posted s = 0" "s_aborted s = 0" "\<not> m_allow_more_callback ?g" "h \<notin> m_connections ?g"
      "fd_of h \<notin> m_fd_list ?g" "fd_of h \<notin> fd_of ` m_connections ?g"
    using assms by (auto simp: sv_inv_def split: if_splits)
  have fin: "finite (m_connections ?g)" using assms(1) by (simp add: sv_inv_def)
  have c: "card (insert h (m_connections ?g)) = Suc (card (m_connections ?g))" using e(5) fin by simp
  have lt: "int (card (m_connections ?g)) < m_maxNumberOfConnections ?g" using assms(1,2) e(4) by (simp add: sv_inv_def)
  have b: "1 \<le> m_maxNumberOfConnections ?g" "m_maxNumberOfConnections ?g < 2 ^ 31" using assms(1) by (simp_all add: sv_inv_def)
  have r: "register_connection_handler fd_of h ?g = Inr ?g1" using e by (simp add: register_connection_handler_def)
  have l: "at_limit ?g1 \<longleftrightarrow> int (Suc (card (m_connections ?g))) \<ge> m_maxNumberOfConnections ?g"
    using at_limit_iff [of ?g1] b c by simp
  show ?thesis
    using assms(1,2) e c lt b r l fin
    by (cases "at_limit ?g1")
      (auto simp: p_handle_accept_def allow_another_connection_def p_start_accept_def sv_inv_def inj_on_insert Let_def)
qed

lemma handler_done_inv:
  assumes "sv_inv fd_of s" "\<not> s_stopped s" "h \<in> m_connections (s_mgr s)"
  shows "\<exists>s'. on_handler_done fd_of h s = Inr s' \<and> sv_inv fd_of s'"
proof -
  let ?g = "s_mgr s"
  let ?g1 = "?g\<lparr>m_connections := m_connections ?g - {h}, m_fd_list := m_fd_list ?g - {fd_of h}\<rparr>"
  have fin: "finite (m_connections ?g)" using assms(1) by (simp add: sv_inv_def)
  have c: "card (m_connections ?g - {h}) = card (m_connections ?g) - 1" "0 < card (m_connections ?g)"
    using assms(3) fin by (auto simp: card_gt_0_iff)
  have fd: "fd_of h \<in> m_fd_list ?g" "m_fd_list ?g - {fd_of h} = fd_of ` (m_connections ?g - {h})"
    using assms(1,3) by (auto simp: sv_inv_def inj_on_def)
  have b: "1 \<le> m_maxNumberOfConnections ?g" "m_maxNumberOfConnections ?g < 2 ^ 31"
      "int (card (m_connections ?g)) \<le> m_maxNumberOfConnections ?g" using assms(1) by (simp_all add: sv_inv_def)
  have l: "\<not> at_limit ?g1" using at_limit_iff [of ?g1] b c by simp
  have j: "inj_on fd_of (m_connections ?g - {h})" using assms(1) by (auto simp: sv_inv_def inj_on_def)
  show ?thesis
    using assms fin c fd b l j
    by (cases "m_allow_more_callback ?g")
      (auto simp: on_handler_done_def deregister_def p_deregister_def sv_inv_def Let_def)
qed

lemma sv_step_inv:
  assumes "sv_inv fd_of s" "\<not> s_stopped s" "sv_enabled fd_of a s" "ec_failed ab"
  shows "\<exists>s'. sv_step fd_of ab a s = Inr s' \<and> sv_inv fd_of s'"
proof (cases a)
  case (Accepted h)
  then show ?thesis using accepted_inv assms by blast
next
  case (Handler_Done h)
  then show ?thesis using handler_done_inv assms by simp
qed (use assms in \<open>auto simp: sv_inv_def p_start_accept_def p_handle_accept_def p_on_heartbeat_def
      p_start_heartbeat_def stop_all_def terminate_def split: if_splits\<close>)

lemma serving_inv:
  "serving fd_of ab s0 s \<Longrightarrow> sv_inv fd_of s0 \<Longrightarrow> ec_failed ab \<Longrightarrow> sv_inv fd_of s"
proof (induction rule: serving.induct)
  case (serving_step s s1 a s2)
  then show ?case using sv_step_inv [of fd_of s1 a ab] by auto
qed

lemma sv_step_limit:
  "sv_step fd_of ab a s = Inr s' \<Longrightarrow> m_maxNumberOfConnections (s_mgr s') = m_maxNumberOfConnections (s_mgr s)"
  by (cases a) (auto simp: p_start_accept_def p_handle_accept_def on_handler_done_def deregister_def p_deregister_def
      register_connection_handler_def allow_another_connection_def p_on_heartbeat_def p_start_heartbeat_def
      stop_all_def terminate_def rbind_Inr_iff Let_def split: if_splits prod.splits)

lemma serving_limit:
  assumes "listen err (TcpServer_new n) = Inr s0" "serving fd_of ab s0 s"
  shows "m_maxNumberOfConnections (s_mgr s) = n"
proof -
  have "m_maxNumberOfConnections (s_mgr s0) = n"
    using assms(1) by (auto simp: listen_def p_initialize_def TcpServer_new_def ServerConnectionManager_new_def
        p_start_heartbeat_def split: if_splits)
  with assms(2) show ?thesis by (induction rule: serving.induct) (auto dest: sv_step_limit)
qed

lemma no_stop_step:
  assumes "sv_step fd_of ab a s = Inr s'" "sv_enabled fd_of a s"
    and "\<not> s_heartbeat s" "s_aborted s = 0" "\<not> s_stopped s"
  shows "\<not> s_heartbeat s' \<and> s_aborted s' = 0 \<and> \<not> s_stopped s'"
  using assms
  by (cases a) (auto simp: p_start_accept_def p_handle_accept_def on_handler_done_def deregister_def terminate_def
      rbind_Inr_iff Let_def split: if_splits prod.splits)

section \<open>Properties\<close>

text \<open>
  C7. The server never serves more connections than configured, never stops accepting while it could, and
  never trips one of its assertions: in every run from \<open>listen\<close>, with a limit of at least one, the open
  connections are at most the limit and their descriptors are exactly the recorded ones; while the loop
  runs there is exactly one accept in progress, cancelled or about to be started, unless the limit is
  reached and the accept waits for a connection to end; and every possible event is handled without an
  exception.
\<close>

theorem server_respects_limit:
  assumes "1 \<le> n" "n < 2 ^ 31" "listen err (TcpServer_new n) = Inr s0" "ec_failed ab"
    and "serving fd_of ab s0 s"
  shows "int (card (m_connections (s_mgr s))) \<le> n \<and>
         m_fd_list (s_mgr s) = fd_of ` m_connections (s_mgr s) \<and>
         (s_stopped s \<or> (if m_allow_more_callback (s_mgr s)
            then s_accepting s + s_posted s + s_aborted s = 0 \<and> int (card (m_connections (s_mgr s))) = n
            else s_accepting s + s_posted s + s_aborted s = 1)) \<and>
         (s_stopped s \<or> \<not> sv_enabled fd_of a s \<or> (\<exists>s'. sv_step fd_of ab a s = Inr s'))"
proof -
  have i: "sv_inv fd_of s" using serving_inv [OF assms(5) sv_inv_listen [OF assms(1-3)] assms(4)] .
  have n: "m_maxNumberOfConnections (s_mgr s) = n" using serving_limit [OF assms(3,5)] .
  have step: "s_stopped s \<or> \<not> sv_enabled fd_of a s \<or> (\<exists>s'. sv_step fd_of ab a s = Inr s')"
    using sv_step_inv [OF i _ _ assms(4), of a] by blast
  have acc: "s_stopped s \<or> (if m_allow_more_callback (s_mgr s)
            then s_accepting s + s_posted s + s_aborted s = 0 \<and> int (card (m_connections (s_mgr s))) = n
            else s_accepting s + s_posted s + s_aborted s = 1)"
    using i n by (auto simp: sv_inv_def split: if_splits)
  show ?thesis using i n step acc by (simp add: sv_inv_def)
qed

theorem server_respects_limit_witness:
  "\<exists>s0. listen make_error_ok (TcpServer_new 35) = Inr s0 \<and> int (card (m_connections (s_mgr s0))) \<le> 35 \<and>
        (\<exists>s'. sv_step (\<lambda>h. int h) make_error_parse Run_Posted s0 = Inr s')"
proof -
  obtain s0 where s0: "listen make_error_ok (TcpServer_new 35) = Inr s0" "s_posted s0 = 1" "\<not> s_stopped s0"
      "m_maxNumberOfConnections (s_mgr s0) = 35"
    by (simp add: listen_def p_initialize_def p_start_heartbeat_def TcpServer_new_def ServerConnectionManager_new_def)
  show ?thesis
    using server_respects_limit [of 35 make_error_ok s0 make_error_parse "\<lambda>h. int h" s0 Run_Posted] s0
      serving_refl [of "\<lambda>h. int h" make_error_parse s0] by auto
qed

text \<open>
  C40. A request to terminate is lost when it meets the server at its limit. The heartbeat that sees it
  cancels accepts, of which there are none, and does not rearm; from then on, whatever happens to the
  connections, the loop is not stopped and no heartbeat will run again, although connections end and new
  ones are accepted.
\<close>

theorem terminate_lost_at_limit:
  assumes "m_terminate_requested s" "s_accepting s = 0" "s_aborted s = 0" "\<not> s_stopped s"
    and "sv_step fd_of ab Heartbeat s = Inr s1" "serving fd_of ab s1 s2"
  shows "\<not> s_stopped s2 \<and> \<not> s_heartbeat s2"
proof -
  have s1: "\<not> s_heartbeat s1 \<and> s_aborted s1 = 0 \<and> \<not> s_stopped s1"
    using assms(1-5) by (auto simp: p_on_heartbeat_def)
  from assms(6) s1 have "\<not> s_heartbeat s2 \<and> s_aborted s2 = 0 \<and> \<not> s_stopped s2"
    by (induction rule: serving.induct) (auto dest: no_stop_step)
  then show ?thesis by simp
qed

theorem terminate_lost_at_limit_witness:
  "\<exists>s1. sv_step (\<lambda>h. int h) make_error_parse Heartbeat
      ((TcpServer_new 1)\<lparr>s_mgr := \<lparr>m_maxNumberOfConnections = 1, m_allow_more_callback = True, m_connections = {0}, m_fd_list = {0}\<rparr>,
         s_acceptor_open := True, s_heartbeat := True, m_terminate_requested := True\<rparr>) = Inr s1 \<and>
     \<not> s_stopped s1 \<and> \<not> s_heartbeat s1"
proof -
  let ?s = "(TcpServer_new 1)\<lparr>s_mgr := \<lparr>m_maxNumberOfConnections = 1, m_allow_more_callback = True, m_connections = {0}, m_fd_list = {0}\<rparr>,
         s_acceptor_open := True, s_heartbeat := True, m_terminate_requested := True\<rparr>"
  obtain s1 where s1: "sv_step (\<lambda>h. int h) make_error_parse Heartbeat ?s = Inr s1" by simp
  have "m_terminate_requested ?s" "s_accepting ?s = 0" "s_aborted ?s = 0" "\<not> s_stopped ?s"
    by (simp_all add: TcpServer_new_def)
  then show ?thesis using terminate_lost_at_limit [OF _ _ _ _ s1 serving_refl] s1 by blast
qed

end
