(* ===== verification/Certificates.thy ===== *)
theory Certificates
  imports Marvin_Prelude
begin

text \<open>
  \<open>marvin/certificates/env_utils.cpp\<close> and \<open>certificates.cpp\<close>: where the proxy finds its certificate store, and
  the one object that holds it. The environment of the process is a map, read by \<open>getenv\<close> and changed by
  \<open>setenv\<close>. \<open>boost::filesystem\<close> (paths are their texts), the \<open>cert\<close> library and OpenSSL are arguments.
\<close>

section \<open>Environment variables\<close>

type_synonym environment = "string \<rightharpoonup> string"

record fs_lib =
  fs_append :: "string \<Rightarrow> string \<Rightarrow> string"
  fs_basename :: "string \<Rightarrow> string"
  fs_same :: "string \<Rightarrow> string \<Rightarrow> bool"
  fs_current_path :: string
  fs_is_directory :: "string \<Rightarrow> bool"
  fs_exists :: "string \<Rightarrow> bool"
  fs_is_regular_file :: "string \<Rightarrow> bool"

definition kMarvinEnvKey_MarvinHome :: string where "kMarvinEnvKey_MarvinHome = ''MARVIN_HOME''"
definition kMarvinDotDirectoryName :: string where "kMarvinDotDirectoryName = ''.marvin''"
definition kMarvinCaConfigFileName :: string where "kMarvinCaConfigFileName = ''ca_config.json''"
definition kMarvinCertStoreName :: string where "kMarvinCertStoreName = ''cert_store''"

definition validWorkingDir :: "fs_lib \<Rightarrow> environment \<Rightarrow> bool" where
  "validWorkingDir fs env =
     (if fs_basename fs (fs_current_path fs) \<noteq> ''marvin++'' then
        (case env ''HOME'' of
           None \<Rightarrow> False
         | Some h \<Rightarrow> fs_same fs h (fs_current_path fs))
      else True)"

definition getEnv :: "string \<Rightarrow> environment \<Rightarrow> string option" where
  "getEnv name env = env name"

definition getEnvMarvinHome :: "environment \<Rightarrow> string option" where
  "getEnvMarvinHome env = env ''MARVIN_HOME''"

definition getEnvUserHome :: "environment \<Rightarrow> string option" where
  "getEnvUserHome env = env ''HOME''"

definition validEnvVariables :: "fs_lib \<Rightarrow> environment \<Rightarrow> bool" where
  "validEnvVariables fs env =
     (case getEnvMarvinHome env of
        None \<Rightarrow> False
      | Some mh_p \<Rightarrow>
          (case getEnvUserHome env of
             None \<Rightarrow> False
           | Some uh_p \<Rightarrow>
               if fs_same fs uh_p mh_p then True
               else if fs_same fs mh_p (fs_append fs uh_p ''Projects/marvin++'') then True
               else False))"

definition setEnvMarvinHome :: "string \<Rightarrow> environment \<Rightarrow> environment" where
  "setEnvMarvinHome h env = env(''MARVIN_HOME'' \<mapsto> h)"

text \<open>A string made of the null pointer that \<open>getenv\<close> returns for an unset variable is an error.\<close>

definition setMarvinHomeToUserHome :: "environment \<Rightarrow> environment result" where
  "setMarvinHomeToUserHome env =
     rbind (deref (env ''HOME'')) (\<lambda>home. Inr (env(''MARVIN_HOME'' \<mapsto> home)))"

definition setMarvinHomeToProjectHome :: "fs_lib \<Rightarrow> environment \<Rightarrow> environment result" where
  "setMarvinHomeToProjectHome fs env =
     rbind (deref (env ''HOME'')) (\<lambda>home. Inr (env(''MARVIN_HOME'' \<mapsto> fs_append fs home ''Projects/marvin++'')))"

section \<open>The certificates object\<close>

text \<open>
  Of the \<open>cert\<close> library: loading a store from a directory, the path of its bundle of root certificates and
  building an identity with its authority.
\<close>

record ('s, 'c, 'i) cert_lib =
  cl_load :: "string \<Rightarrow> 's result"
  cl_root_certs :: "'s \<Rightarrow> string"
  cl_buildMitmIdentity :: "'s \<Rightarrow> string \<Rightarrow> 'c \<Rightarrow> 'i"

text \<open>The store, the bundle that was loaded into the \<open>X509_STORE\<close>, and the reference count of the latter.\<close>

record 's certificates =
  m_cert_store_sptr :: 's
  m_X509_bundle :: string
  m_X509_refs :: nat

definition load_certificates :: "fs_lib \<Rightarrow> ('s, 'c, 'i) cert_lib \<Rightarrow> string \<Rightarrow> 's certificates result" where
  "load_certificates fs lib marvin_home =
     (let p = fs_append fs (fs_append fs marvin_home kMarvinDotDirectoryName) kMarvinCertStoreName in
      if \<not> fs_is_directory fs p then Inl No_Cert_Dir
      else rbind (cl_load lib p) (\<lambda>st.
        Inr \<lparr>m_cert_store_sptr = st, m_X509_bundle = cl_root_certs lib st, m_X509_refs = 2\<rparr>))"

definition Certificates_path :: "fs_lib \<Rightarrow> ('s, 'c, 'i) cert_lib \<Rightarrow> string \<Rightarrow> 's certificates result" where
  "Certificates_path fs lib marvin_home = load_certificates fs lib marvin_home"

definition Certificates_env :: "fs_lib \<Rightarrow> ('s, 'c, 'i) cert_lib \<Rightarrow> environment \<Rightarrow> 's certificates result" where
  "Certificates_env fs lib env =
     (case getEnvMarvinHome env of
        None \<Rightarrow> Inl No_Marvin_Home
      | Some mh \<Rightarrow>
          if \<not> validEnvVariables fs env then Inl Bad_Environment
          else if \<not> validWorkingDir fs env then Inl Bad_Working_Dir
          else load_certificates fs lib mh)"

text \<open>The singleton: the object there is, if any. A constructor that throws leaves it as it was.\<close>

definition certificates_init ::
    "fs_lib \<Rightarrow> ('s, 'c, 'i) cert_lib \<Rightarrow> string \<Rightarrow> 's certificates option \<Rightarrow> 's certificates option result" where
  "certificates_init fs lib marvin_home inst = rbind (Certificates_path fs lib marvin_home) (\<lambda>c. Inr (Some c))"

definition getInstance ::
    "fs_lib \<Rightarrow> ('s, 'c, 'i) cert_lib \<Rightarrow> environment \<Rightarrow> 's certificates option \<Rightarrow> ('s certificates option \<times> 's certificates) result" where
  "getInstance fs lib env inst =
     (case inst of
        None \<Rightarrow> rbind (Certificates_env fs lib env) (\<lambda>c. Inr (Some c, c))
      | Some c \<Rightarrow> Inr (Some c, c))"

definition get_X509_STORE_ptr :: "'s certificates \<Rightarrow> 's certificates \<times> string" where
  "get_X509_STORE_ptr c = (c\<lparr>m_X509_refs := Suc (m_X509_refs c)\<rparr>, m_X509_bundle c)"

definition build_server_mitm_certificate :: "('s, 'c, 'i) cert_lib \<Rightarrow> string \<Rightarrow> 'c \<Rightarrow> 's certificates \<Rightarrow> 'i" where
  "build_server_mitm_certificate lib host original_cert c = cl_buildMitmIdentity lib (m_cert_store_sptr c) host original_cert"

text \<open>\<open>createStore\<close> as the calls it makes of the file system and the library, in order.\<close>

datatype store_call =
    Remove_All string
  | Make_Empty string
  | Create_Authority string
  | Save_Config string
  | Load_Config
  | Load_Cert_Auth
  | Root_Certs_From_Mozilla
  | Root_Certs_Mozilla_Active

definition createStore :: "fs_lib \<Rightarrow> string \<Rightarrow> string \<Rightarrow> store_call list result" where
  "createStore fs store_path ca_config_file_path =
     (if \<not> fs_exists fs ca_config_file_path then Inl No_Ca_Config
      else Inr ((if fs_exists fs store_path then [Remove_All store_path] else []) @
        [Make_Empty store_path, Create_Authority ca_config_file_path, Save_Config ca_config_file_path,
         Load_Config, Load_Cert_Auth]))"

text \<open>
  \<open>apps/config/config.cpp\<close>, the tool that sets up the store: its checks and then its calls. Before it
  overwrites a store it waits for a line of input, which it does not look at.
\<close>

definition config_main :: "fs_lib \<Rightarrow> environment \<Rightarrow> string \<Rightarrow> store_call list result" where
  "config_main fs env instr =
     (if \<not> validWorkingDir fs env then Inl Bad_Working_Dir
      else if \<not> validEnvVariables fs env then Inl Bad_Environment
      else rbind (deref (getEnvMarvinHome env)) (\<lambda>marvin_home.
        (let marvin_dot_dir = fs_append fs marvin_home kMarvinDotDirectoryName;
             marvin_ca_config_file = fs_append fs marvin_dot_dir kMarvinCaConfigFileName;
             marvin_cert_store = fs_append fs marvin_dot_dir kMarvinCertStoreName in
         if \<not> fs_is_directory fs marvin_home then Inl No_Marvin_Home
         else if \<not> fs_is_directory fs marvin_dot_dir then Inl No_Dot_Dir
         else if \<not> fs_is_regular_file fs marvin_ca_config_file then Inl No_Ca_Config
         else Inr ((if fs_exists fs marvin_cert_store then [Remove_All marvin_cert_store] else []) @
           [Make_Empty marvin_cert_store, Create_Authority marvin_ca_config_file,
            Root_Certs_From_Mozilla, Root_Certs_Mozilla_Active,
            Save_Config marvin_ca_config_file, Load_Config, Load_Cert_Auth]))))"

section \<open>Properties\<close>

text \<open>The two homes the code knows are valid ones, whatever the path library, provided that a path is the same as itself.\<close>

lemma marvin_home_set:
  assumes "\<And>p. fs_same fs p p" "env ''HOME'' = Some h"
    and "setMarvinHomeToUserHome env = Inr env' \<or> setMarvinHomeToProjectHome fs env = Inr env'"
  shows "validEnvVariables fs env'" "validWorkingDir fs env' = validWorkingDir fs env"
    "getEnvMarvinHome env' = Some h \<or> getEnvMarvinHome env' = Some (fs_append fs h ''Projects/marvin++'')"
  using assms
  by (auto simp: setMarvinHomeToUserHome_def setMarvinHomeToProjectHome_def validEnvVariables_def validWorkingDir_def
      getEnvMarvinHome_def getEnvUserHome_def)


definition sample_fs :: fs_lib where
  "sample_fs = \<lparr>fs_append = (\<lambda>p q. p @ ''/'' @ q), fs_basename = (\<lambda>p. p), fs_same = (=),
     fs_current_path = ''/home/m'', fs_is_directory = (\<lambda>p. p = ''/home/m/.marvin/cert_store''), fs_exists = (\<lambda>p. True),
     fs_is_regular_file = (\<lambda>p. False)\<rparr>"

definition sample_cert_lib :: "(nat, nat, nat) cert_lib" where
  "sample_cert_lib = \<lparr>cl_load = (\<lambda>p. Inr (length p)), cl_root_certs = (\<lambda>st. ''roots.pem''),
     cl_buildMitmIdentity = (\<lambda>st h c. st + length h + c)\<rparr>"


text \<open>
  A store is never wiped without a configuration to build the new one from: the only call that removes
  files is the first, it removes exactly the store, and it is made only if the configuration exists.
\<close>

lemma createStore_checks_first:
  assumes "createStore fs store cfg = Inr calls" "Remove_All p \<in> set calls"
  shows "fs_exists fs cfg \<and> p = store \<and> hd calls = Remove_All store \<and> Make_Empty store \<in> set (tl calls)"
  using assms by (auto simp: createStore_def split: if_splits)

text \<open>
  The tool and the proxy agree: in an environment in which the tool succeeds, the directory it fills is the
  one the certificates object is loaded from once it exists, and the only directory it removes.
\<close>

lemma config_fills_what_is_loaded:
  assumes "config_main fs env instr = Inr calls"
    and "\<And>p. fs_is_directory fs2 p = (fs_is_directory fs p \<or> Make_Empty p \<in> set calls)"
    and "fs_append fs2 = fs_append fs" "fs_same fs2 = fs_same fs" "fs_basename fs2 = fs_basename fs"
      "fs_current_path fs2 = fs_current_path fs"
  shows "\<exists>p. set calls \<inter> range Make_Empty = {Make_Empty p} \<and> set calls \<inter> range Remove_All \<subseteq> {Remove_All p} \<and>
     getInstance fs2 lib env None = rbind (cl_load lib p) (\<lambda>st.
       (let c = \<lparr>m_cert_store_sptr = st, m_X509_bundle = cl_root_certs lib st, m_X509_refs = 2\<rparr> in Inr (Some c, c)))"
proof -
  obtain mh where m: "getEnvMarvinHome env = Some mh" "validWorkingDir fs env" "validEnvVariables fs env"
    using assms(1) by (auto simp: config_main_def rbind_Inr_iff deref_Inr_iff split: if_splits)
  let ?p = "fs_append fs (fs_append fs mh kMarvinDotDirectoryName) kMarvinCertStoreName"
  have calls: "set calls \<inter> range Make_Empty = {Make_Empty ?p}" "set calls \<inter> range Remove_All \<subseteq> {Remove_All ?p}"
    using assms(1) m by (auto simp: config_main_def Let_def split: if_splits)
  then have "fs_is_directory fs2 ?p" using assms(2) by blast
  moreover have "validWorkingDir fs2 env" "validEnvVariables fs2 env"
    using m(2,3) unfolding validWorkingDir_def validEnvVariables_def assms(3-6) .
  ultimately have "getInstance fs2 lib env None = rbind (cl_load lib ?p) (\<lambda>st.
       (let c = \<lparr>m_cert_store_sptr = st, m_X509_bundle = cl_root_certs lib st, m_X509_refs = 2\<rparr> in Inr (Some c, c)))"
    using m(1) assms(3)
    by (cases "cl_load lib ?p") (simp_all add: getInstance_def Certificates_env_def load_certificates_def Let_def)
  then show ?thesis using calls by blast
qed

end
