(* ===== verification/Ctl_App.thy ===== *)
theory Ctl_App
  imports Collectors Msg_Writer Connection Server Certificates Request_Handler
begin

text \<open>
  \<open>apps/simple_proxy\<close>: the proxy as a program. \<open>simple_proxy.cpp\<close> reads its options and starts two servers, one
  that proxies and one that is the control interface; \<open>ctl_thread.cpp\<close> holds the request handler \<open>CtlApp\<close> of
  the latter, which changes the capture filter the proxy uses and stops both servers;
  \<open>simple_proxy_cli.cpp\<close> turns commands into requests of the control interface.

  The state of \<open>CtlApp\<close> includes what it reaches by reference: the capture filter shared with the proxy and
  the two servers (the proxy's may not have been made yet by its thread). Reads and writes are effects
  with the continuation that their completion calls. The parsing of the command line (CLI11) and curl,
  which carries the request, are the environment. \<open>to_string\<close> of the response, whose value is dropped, is left
  out.
\<close>

section \<open>Starting the program\<close>

text \<open>The options as CLI11 has parsed them; \<^term>\<open>None\<close> for an option that was not given.\<close>

record proxy_options =
  o_proxy_port :: "int option"
  o_marvin_home :: "string option"
  o_regexes :: "string list option"
  o_ports :: "int list option"
  o_show_bodies :: "bool option"
  o_ctl_port :: "int option"

record startup =
  su_proxy_port :: int
  su_ctl_port :: int
  su_filter :: capture_filter

text \<open>
  \<open>main\<close> up to the start of the threads: \<^term>\<open>None\<close> is the exit with status 1; the certificates object is
  made from the option.
\<close>

definition simple_proxy_main ::
    "fs_lib \<Rightarrow> ('s, 'c, 'i) cert_lib \<Rightarrow> proxy_options \<Rightarrow> (startup \<times> 's certificates option) option result" where
  "simple_proxy_main fs lib opts =
     (let show_message_bodies = (o_show_bodies opts \<noteq> None);
          proxy_port = (case o_proxy_port opts of None \<Rightarrow> 9992 | Some p \<Rightarrow> p) in
      case o_marvin_home opts of
        None \<Rightarrow> Inr None
      | Some marvin_home \<Rightarrow>
          rbind (certificates_init fs lib marvin_home None) (\<lambda>inst.
            (let cf = (case o_regexes opts of
                         Some rs \<Rightarrow> CaptureFilter_new rs
                       | None \<Rightarrow> CaptureFilter_new [''.*'']);
                 cf = set_show_message_bodies show_message_bodies cf;
                 ctl_port = (case o_ctl_port opts of None \<Rightarrow> 9993 | Some p \<Rightarrow> p) in
             Inr (Some (\<lparr>su_proxy_port = proxy_port, su_ctl_port = ctl_port, su_filter = cf\<rparr>, inst)))))"

text \<open>What the threads do first: make a server and listen.\<close>

definition thread_start :: "int \<Rightarrow> error_code \<Rightarrow> server result" where
  "thread_start numberOfConnections bind_err = listen bind_err (TcpServer_new numberOfConnections)"

section \<open>Commands\<close>

record control_request =
  rq_method :: string
  rq_path :: string

text \<open>The jump table of the command line tool, with the arguments of the commands.\<close>

definition cli_request :: "string \<Rightarrow> string \<Rightarrow> string \<Rightarrow> control_request option" where
  "cli_request filter_id_number filter_regex cmd =
     map_of
       [(''stop'', \<lparr>rq_method = ''GET'', rq_path = ''/stop''\<rparr>),
        (''filter_list'', \<lparr>rq_method = ''GET'', rq_path = ''/filter_list''\<rparr>),
        (''filter_remove'', \<lparr>rq_method = ''DELETE'', rq_path = ''/filter_remove/'' @ filter_id_number\<rparr>),
        (''filter_add'', \<lparr>rq_method = ''POST'', rq_path = ''/filter_add/'' @ filter_regex\<rparr>),
        (''bodies_off'', \<lparr>rq_method = ''POST'', rq_path = ''/bodies_off''\<rparr>),
        (''bodies_on'', \<lparr>rq_method = ''POST'', rq_path = ''/bodies_on''\<rparr>)] cmd"

section \<open>CtlApp\<close>

datatype ctl_handler = H_Stop | H_Filter | H_Bodies

datatype ctl_cont = KC_Read | KC_Written | KC_Stop_Written | KC_Delayed

datatype ctl_effect =
    C_Read
  | C_Write "wr_effect list" ctl_cont
  | C_Timer int
  | C_Conn "nat conn_effect list"
  | C_Done

record ('c, 'i) ctl_app =
  ctl_socket :: "('c, 'i) connection"
  ctl_wrtr :: msg_writer
  ctl_request :: "message option"
  mitm_filter :: capture_filter
  mitm_server :: "server option"
  ctl_server :: server

text \<open>The names of methods and the indeterminate members of a new message.\<close>

record ctl_env =
  ce_method_str :: "int \<Rightarrow> string"
  ce_junk_method :: int
  ce_junk_status :: int

definition is_number :: "string \<Rightarrow> bool" where
  "is_number s \<longleftrightarrow> s \<noteq> [] \<and> list_all is_digit s"

definition make_200_response :: "ctl_env \<Rightarrow> string \<Rightarrow> message result" where
  "make_200_response v body =
     (let msg = MessageBase_new (ce_junk_method v) (ce_junk_status v);
          msg = set_is_request False msg;
          msg = msg_status_code 200 msg;
          msg = msg_reason ''OK'' msg;
          msg = msg_version 1 1 msg;
          msg = set_header ContentType ''plain/text'' msg in
      set_body_string body msg)"

definition make_response :: "ctl_env \<Rightarrow> int \<Rightarrow> string \<Rightarrow> string \<Rightarrow> message result" where
  "make_response v code status body =
     (let msg = MessageBase_new (ce_junk_method v) (ce_junk_status v);
          msg = set_is_request False msg;
          msg = msg_status_code code msg;
          msg = msg_reason status msg;
          msg = msg_version 1 1 msg in
      rbind (makeBufferChainSPtr_string body) (\<lambda>bchain.
        Inr (set_header ContentLength (nat_to_string (length body)) msg)))"

text \<open>\<open>boost::split\<close> at every occurrence of a character.\<close>

fun split_at :: "char \<Rightarrow> string \<Rightarrow> string list" where
  "split_at c [] = [[]]"
| "split_at c (x # xs) =
     (if x = c then [] # split_at c xs
      else case split_at c xs of [] \<Rightarrow> [[x]] | w # ws \<Rightarrow> (x # w) # ws)"

definition split_path :: "string \<Rightarrow> string list" where
  "split_path p = split_at (CHR ''/'') (if p \<noteq> [] \<and> hd p = CHR ''/'' then tl p else p)"

text \<open>The patterns \<open>/stop\<close>, \<open>/filter.*\<close> and \<open>/bodies_.*\<close> with their handlers.\<close>

definition ctl_dispatch_table :: "(regex \<times> ctl_handler) list" where
  "ctl_dispatch_table =
     [(lit_re (=) ''/sto'' (Cls (\<lambda>c. c = CHR ''p'')), H_Stop),
      (lit_re (=) ''/filter'' (Rep (Cls dot)), H_Filter),
      (lit_re (=) ''/bodies_'' (Rep (Cls dot)), H_Bodies)]"

fun dispatch_find :: "string \<Rightarrow> (regex \<times> ctl_handler) list \<Rightarrow> ctl_handler option" where
  "dispatch_find path [] = None"
| "dispatch_find path ((pattern, h) # table) =
     (if regex_match path pattern then Some h else dispatch_find path table)"

definition ctl_handle :: "('c, 'i) connection \<Rightarrow> ('c, 'i) ctl_app \<Rightarrow> ('c, 'i) ctl_app \<times> ctl_effect list" where
  "ctl_handle sock s = (s\<lparr>ctl_socket := sock, ctl_wrtr := MessageWriter_new\<rparr>, [C_Read])"

definition ctl_on_read_error :: "error_code \<Rightarrow> ctl_effect list" where
  "ctl_on_read_error err = [C_Done]"

definition ctl_on_write_error :: "error_code \<Rightarrow> ctl_effect list" where
  "ctl_on_write_error err = [C_Done]"

definition ctl_respond ::
    "ctl_env \<Rightarrow> string \<Rightarrow> ctl_cont \<Rightarrow> ('c, 'i) ctl_app \<Rightarrow> (('c, 'i) ctl_app \<times> ctl_effect list) result" where
  "ctl_respond v body k s =
     rbind (make_200_response v body) (\<lambda>m.
     rbind (async_write_string (ce_method_str v) m body (ctl_wrtr s)) (\<lambda>(w, effs).
       Inr (s\<lparr>ctl_wrtr := w\<rparr>, [C_Write effs k])))"

definition p_req_resp_cycle_complete :: "('c, 'i) ctl_app \<Rightarrow> (('c, 'i) ctl_app \<times> ctl_effect list) result" where
  "p_req_resp_cycle_complete s =
     rbind (deref (ctl_request s)) (\<lambda>req.
       (let keep_alive = (case header Connection_key req of Some conhdr \<Rightarrow> conhdr = ''Keep-Alive'' | None \<Rightarrow> False) in
        if keep_alive then Inr (s, [C_Read])
        else rbind (conn_shutdown (ctl_socket s)) (\<lambda>effs. Inr (s, [C_Conn effs, C_Done]))))"

definition ctl_on_completed :: "('c, 'i) ctl_app \<Rightarrow> (('c, 'i) ctl_app \<times> ctl_effect list) result" where
  "ctl_on_completed s = p_req_resp_cycle_complete s"

definition p_invalid_request :: "ctl_env \<Rightarrow> ('c, 'i) ctl_app \<Rightarrow> (('c, 'i) ctl_app \<times> ctl_effect list) result" where
  "p_invalid_request v s = ctl_respond v ''INVALID REQUEST'' KC_Written s"

definition p_handle_echo :: "ctl_env \<Rightarrow> ('c, 'i) ctl_app \<Rightarrow> (('c, 'i) ctl_app \<times> ctl_effect list) result" where
  "p_handle_echo v s = ctl_respond v ''THIS IS A RESPONSE BODY'' KC_Written s"

definition p_handle_smart_echo :: "ctl_env \<Rightarrow> ('c, 'i) ctl_app \<Rightarrow> (('c, 'i) ctl_app \<times> ctl_effect list) result" where
  "p_handle_smart_echo v s = ctl_respond v ''INVALID REQUEST'' KC_Written s"

definition p_non_specific_response :: "ctl_env \<Rightarrow> ('c, 'i) ctl_app \<Rightarrow> (('c, 'i) ctl_app \<times> ctl_effect list) result" where
  "p_non_specific_response v s = ctl_respond v ''THIS IS A RESPONSE BODY'' KC_Written s"

text \<open>\<open>std::stoi\<close> throws for a number that is not an \<open>int\<close>.\<close>

definition p_handle_delay ::
    "ctl_env \<Rightarrow> string list \<Rightarrow> ('c, 'i) ctl_app \<Rightarrow> (('c, 'i) ctl_app \<times> ctl_effect list) result" where
  "p_handle_delay v bits s =
     (if length bits = 3 \<and> is_number (bits ! 2) then
        (if dec_value (bits ! 2) \<ge> 2 ^ 31 then Inl Out_Of_Bounds
         else Inr (s, [C_Timer (int (dec_value (bits ! 2)))]))
      else p_invalid_request v s)"

definition p_handle_stop :: "ctl_env \<Rightarrow> ('c, 'i) ctl_app \<Rightarrow> (('c, 'i) ctl_app \<times> ctl_effect list) result" where
  "p_handle_stop v s = ctl_respond v ''stop not yet implemented'' KC_Stop_Written s"

text \<open>
  The branches of \<open>p_handle_filter\<close>: the new list of patterns and the text written so far. The index is
  an \<open>int\<close>, compared with a size.
\<close>

definition edit_filters :: "string list \<Rightarrow> string list \<Rightarrow> string list \<times> string" where
  "edit_filters bits vec_regexs =
     (if hd bits = ''filter_list'' then (vec_regexs, [])
      else if hd bits = ''filter_remove'' then
        (if length bits > 1 then
           (let i_s = bits ! 1 in
            if is_number i_s then
              (let i = atoi i_s in
               if size_of_int i < length vec_regexs then (vector_erase (size_of_int i) vec_regexs, [])
               else (vec_regexs, ''Index : '' @ int_to_string i @ '' is too big.'' @ endl))
            else (vec_regexs, ''bad request '' @ bits ! 1 @ '' is not an index '' @ endl))
         else (vec_regexs, ''list_remove requires a regex string as a parameter '' @ endl))
      else if hd bits = ''filter_add'' then
        (if length bits > 1 then (vec_regexs @ [bits ! 1], [])
         else (vec_regexs, ''list_add requires an index  parameter '' @ endl))
      else (vec_regexs, hd bits @ '' is an invalid request'' @ endl))"

definition filters_text :: "string list \<Rightarrow> string" where
  "filters_text fs =
     endl @ ''Host regexes: '' @ endl @ concat (map (\<lambda>rex. ''host regex: '' @ rex @ endl) fs) @ ''complete ------'' @ endl"

definition p_handle_filter ::
    "ctl_env \<Rightarrow> string list \<Rightarrow> ('c, 'i) ctl_app \<Rightarrow> (('c, 'i) ctl_app \<times> ctl_effect list) result" where
  "p_handle_filter v bits s =
     (let (hosts_2, os) = edit_filters bits (m_filters (mitm_filter s));
          s = s\<lparr>mitm_filter := set_filters hosts_2 (mitm_filter s)\<rparr> in
      ctl_respond v (os @ filters_text (m_filters (mitm_filter s))) KC_Written s)"

definition p_handle_bodies ::
    "ctl_env \<Rightarrow> string list \<Rightarrow> ('c, 'i) ctl_app \<Rightarrow> (('c, 'i) ctl_app \<times> ctl_effect list) result" where
  "p_handle_bodies v bits s =
     (let cf = (if hd bits = ''bodies_on'' then set_show_message_bodies True (mitm_filter s)
                else if hd bits = ''bodies_off'' then set_show_message_bodies False (mitm_filter s)
                else mitm_filter s);
          s = s\<lparr>mitm_filter := cf\<rparr> in
      ctl_respond v (''Show message bodies: '' @ (if m_show_message_bodies cf then ''1'' else ''0'') @ endl @
        ''complete ------'' @ endl) KC_Written s)"

text \<open>The handlers of the dispatch table split the target of the message again.\<close>

fun run_handler ::
    "ctl_env \<Rightarrow> ctl_handler \<Rightarrow> message \<Rightarrow> ('c, 'i) ctl_app \<Rightarrow> (('c, 'i) ctl_app \<times> ctl_effect list) result" where
  "run_handler v H_Stop msg s = p_handle_stop v s"
| "run_handler v H_Filter msg s = p_handle_filter v (split_path (m_target msg)) s"
| "run_handler v H_Bodies msg s = p_handle_bodies v (split_path (m_target msg)) s"

definition p_internal_handle_read ::
    "ctl_env \<Rightarrow> error_code \<Rightarrow> message option \<Rightarrow> ('c, 'i) ctl_app \<Rightarrow> (('c, 'i) ctl_app \<times> ctl_effect list) result" where
  "p_internal_handle_read v err msg s =
     (if ec_failed err then Inr (s, ctl_on_read_error err)
      else rbind (deref msg) (\<lambda>req.
        (let s = s\<lparr>ctl_request := Some req\<rparr> in
         case dispatch_find (m_target req) ctl_dispatch_table of
           Some h \<Rightarrow> run_handler v h req s
         | None \<Rightarrow> p_invalid_request v s)))"

text \<open>The continuations of the writes.\<close>

definition ctl_on_written :: "error_code \<Rightarrow> ('c, 'i) ctl_app \<Rightarrow> (('c, 'i) ctl_app \<times> ctl_effect list) result" where
  "ctl_on_written err s = (if ec_failed err then Inr (s, ctl_on_write_error err) else p_req_resp_cycle_complete s)"

definition ctl_on_stop_written :: "error_code \<Rightarrow> ('c, 'i) ctl_app \<Rightarrow> (('c, 'i) ctl_app \<times> ctl_effect list) result" where
  "ctl_on_stop_written err s =
     (if ec_failed err then Inr (s, ctl_on_write_error err)
      else rbind (deref (mitm_server s)) (\<lambda>ms.
        p_req_resp_cycle_complete (s\<lparr>mitm_server := Some (terminate ms), ctl_server := terminate (ctl_server s)\<rparr>)))"

fun ctl_resume ::
    "ctl_env \<Rightarrow> ctl_cont \<Rightarrow> error_code \<Rightarrow> message option \<Rightarrow> ('c, 'i) ctl_app \<Rightarrow> (('c, 'i) ctl_app \<times> ctl_effect list) result" where
  "ctl_resume v KC_Read err msg s = p_internal_handle_read v err msg s"
| "ctl_resume v KC_Written err msg s = ctl_on_written err s"
| "ctl_resume v KC_Stop_Written err msg s = ctl_on_stop_written err s"
| "ctl_resume v KC_Delayed err msg s = p_handle_echo v s"

section \<open>Dispatch\<close>

lemma split_at_nonempty [simp]: "split_at c xs \<noteq> []"
  by (induction xs) (auto split: list.splits)

lemma split_at_word: "c \<notin> set xs \<Longrightarrow> split_at c xs = [xs]"
  by (induction xs) auto

lemma split_at_sep: "c \<notin> set xs \<Longrightarrow> split_at c (xs @ c # ys) = xs # split_at c ys"
  by (induction xs) auto

lemma split_at_first: "hd (split_at c xs) = takeWhile (\<lambda>x. x \<noteq> c) xs"
  by (induction xs) (auto split: list.splits)

lemma split_at_nth0 [simp]: "split_at c xs ! 0 = takeWhile (\<lambda>x. x \<noteq> c) xs"
  by (simp add: split_at_first hd_conv_nth [symmetric])

text \<open>What a command of the control interface is split into.\<close>

lemma split_path_command:
  "CHR ''/'' \<notin> set cmd \<Longrightarrow> split_path (CHR ''/'' # cmd) = [cmd]"
  "CHR ''/'' \<notin> set cmd \<Longrightarrow> split_path (CHR ''/'' # cmd @ CHR ''/'' # arg) = cmd # split_at (CHR ''/'') arg"
  by (simp_all add: split_path_def split_at_word split_at_sep)

lemma dispatch_find_iff:
  "dispatch_find path ctl_dispatch_table =
     (if path = ''/stop'' then Some H_Stop
      else if \<exists>sub. path = ''/filter'' @ sub \<and> list_all dot sub then Some H_Filter
      else if \<exists>sub. path = ''/bodies_'' @ sub \<and> list_all dot sub then Some H_Bodies
      else None)"
proof -
  have "''/sto'' @ ''p'' = ''/stop''" by simp
  then show ?thesis
    by (simp only: ctl_dispatch_table_def dispatch_find.simps regex_match_prefix regex_match_word)
qed

section \<open>Responses\<close>

lemma length_nat_to_string: "n < 10 ^ k \<Longrightarrow> 0 < k \<Longrightarrow> length (nat_to_string n) \<le> k"
proof (induction k arbitrary: n)
  case (Suc k)
  show ?case
  proof (cases "n < 10")
    case False
    then have "0 < k" using Suc.prems(1) by (cases k) auto
    moreover have "n div 10 < 10 ^ k" using Suc.prems(1) by (simp add: div_less_iff_less_mult mult.commute)
    ultimately show ?thesis using Suc.IH False by (simp add: nat_to_string.simps [of n])
  qed (simp add: nat_to_string.simps [of n])
qed simp

lemma make_200_response_ok:
  assumes "length body \<le> 1048576"
  shows "\<exists>m mb. make_200_response v body = Inr m \<and> serialize_headers mstr m = Inr mb \<and> contig_inv mb"
proof -
  obtain c where c: "makeBufferChainSPtr_string body = Inr c" "chain_inv c" "chain_content c = body"
    using makeBufferChainSPtr_string_ok [OF assms] by blast
  then have z: "chain_size c = length body" by (simp add: chain_inv_def chain_size_def)
  have t: "trim ''plain/text'' = ''plain/text''" "int_to_string 200 = ''200''" "int_to_string 1 = ''1''"
    "to_upper ''CONTENT-TYPE'' = ''CONTENT-TYPE''" "to_upper ''CONTENT-LENGTH'' = ''CONTENT-LENGTH''"
    "to_upper ''TRANSFER-ENCODING'' = ''TRANSFER-ENCODING''" by code_simp+
  let ?m = "set_header ContentLength (nat_to_string (length body)) (remove_header TransferEncoding
     ((set_header ContentType ''plain/text'' (msg_version 1 1 (msg_reason ''OK'' (msg_status_code 200 (set_is_request False
        (MessageBase_new (ce_junk_method v) (ce_junk_status v)))))))\<lparr>m_body_chain_sptr := Some c\<rparr>))"
  have "make_200_response v body = Inr ?m"
    using c z by (simp add: make_200_response_def set_body_string_def Let_def)
  moreover have "length (concat (head_pieces mstr ?m)) \<le> 1048576"
    using t length_nat_to_string [of "length body" 7] assms
    by (simp add: head_pieces_def MessageBase_new_def msg_status_code_def msg_reason_def msg_version_def set_is_request_def
        remove_header_def remove_at_key_def set_header_def set_at_key_def find_at_index_def crlf_def header_names)
  ultimately show ?thesis using serialize_headers_fits by blast
qed

text \<open>A response is sent as its head and its body, and nothing else of the handler changes.\<close>

lemma ctl_respond_ok:
  assumes "body \<noteq> []" "length body \<le> 1048576"
  shows "\<exists>w mb. ctl_respond v body k s = Inr (s\<lparr>ctl_wrtr := w\<rparr>, [C_Write [Write_Contig mb] k])"
proof -
  obtain m mb where m: "make_200_response v body = Inr m" "serialize_headers (ce_method_str v) m = Inr mb"
    using make_200_response_ok [OF assms(2)] by blast
  obtain c where "makeBufferChainSPtr_string body = Inr c" using makeBufferChainSPtr_string_ok [OF assms(2)] by blast
  then show ?thesis
    using m assms(1) by (auto simp: ctl_respond_def async_write_string_def async_write_head)
qed

lemma ctl_respond_effects:
  "ctl_respond v body k s = Inr (s', effs) \<Longrightarrow> (\<exists>w es. s' = s\<lparr>ctl_wrtr := w\<rparr> \<and> effs = [C_Write es k])"
  by (auto simp: ctl_respond_def rbind_Inr_iff)

section \<open>Commands and their effect\<close>

lemma length_filters_text:
  "length (filters_text fs) = 32 + sum_list (map (\<lambda>r. 13 + length r) fs)"
  by (induction fs) (simp_all add: filters_text_def endl_def)

lemma filters_text_erase: "length (filters_text (vector_erase i fs)) \<le> length (filters_text fs)"
proof -
  define g where "g xs = sum_list (map (\<lambda>r. 13 + length r) xs)" for xs :: "string list"
  have app: "g (xs @ ys) = g xs + g ys" for xs ys by (simp add: g_def)
  have "g (butlast fs) \<le> g fs" by (cases fs rule: rev_cases) (simp_all add: app)
  moreover have "g (take i fs @ drop (Suc i) fs) \<le> g fs"
  proof (cases "i < length fs")
    case True
    then have "g fs = g (take i fs) + g [fs ! i] + g (drop (Suc i) fs)" by (metis add.assoc app id_take_nth_drop append_Cons append_Nil)
    then show ?thesis by (simp add: app)
  qed simp
  ultimately show ?thesis by (simp add: length_filters_text vector_erase_def g_def [symmetric])
qed

lemma is_number_nat_to_string [simp]: "is_number (nat_to_string n)"
  by (auto simp: is_number_def list_all_iff dest: nat_to_string_digits)

lemma number_plain: "CHR ''/'' \<notin> set (nat_to_string n)" "list_all dot (nat_to_string n)"
  by (auto simp: list_all_iff dot_def is_digit_def Let_def dest!: nat_to_string_digits)

lemma edit_remove:
  "n < 2 ^ 31 \<Longrightarrow> edit_filters [''filter_remove'', nat_to_string n] fs =
     (if n < length fs then (vector_erase n fs, []) else (fs, ''Index : '' @ nat_to_string n @ '' is too big.'' @ endl))"
  "\<not> is_number w \<Longrightarrow> edit_filters [''filter_remove'', w] fs = (fs, ''bad request '' @ w @ '' is not an index '' @ endl)"
  by (simp_all add: edit_filters_def atoi_nat_to_string int_to_string_def)

text \<open>A filter command from its arrival: the filters are edited, all of them are shown, the response is written.\<close>

lemma filter_request:
  assumes "m_target m = ''/filter'' @ sub" "list_all dot sub" "\<not> ec_failed err"
    and "edit_filters (split_path (m_target m)) (m_filters (mitm_filter s)) = (fs, os)"
    and "length os + length (filters_text fs) \<le> 1048576"
  shows "\<exists>w mb. ctl_resume v KC_Read err (Some m) s =
    Inr (s\<lparr>ctl_request := Some m, mitm_filter := set_filters fs (mitm_filter s), ctl_wrtr := w\<rparr>,
         [C_Write [Write_Contig mb] KC_Written])"
proof -
  let ?s = "s\<lparr>ctl_request := Some m, mitm_filter := set_filters fs (mitm_filter s)\<rparr>"
  have d: "dispatch_find (m_target m) ctl_dispatch_table = Some H_Filter"
    using assms(1,2) by (subst dispatch_find_iff) auto
  have ne: "os @ filters_text fs \<noteq> []" by (simp add: filters_text_def)
  have "\<exists>w mb. ctl_respond v (os @ filters_text fs) KC_Written ?s = Inr (?s\<lparr>ctl_wrtr := w\<rparr>, [C_Write [Write_Contig mb] KC_Written])"
    by (rule ctl_respond_ok [OF ne]) (use assms(5) in simp)
  moreover have "ctl_resume v KC_Read err (Some m) s = ctl_respond v (os @ filters_text fs) KC_Written ?s"
    using assms(3,4) d by (simp add: p_internal_handle_read_def p_handle_filter_def set_filters_def Let_def)
  ultimately show ?thesis by simp
qed

lemma edit_add:
  assumes "m_target m = ''/filter'' @ ''_add/'' @ rex"
  shows "edit_filters (split_path (m_target m)) fs = (fs @ [takeWhile (\<lambda>c. c \<noteq> CHR ''/'') rex], [])"
  using assms split_path_command(2) [of "''filter_add''" rex] by (simp add: edit_filters_def)

text \<open>
  C21. The commands of the command line tool change the proxy's filters as their names say, and each is
  answered. \<open>filter_list\<close> changes nothing, \<open>filter_add\<close> appends its pattern, \<open>filter_remove\<close> with a number removes
  the filter with that index and leaves the list alone when there is none; \<open>filter_remove all\<close> and
  \<open>filter_remove *\<close>, which the tool offers, remove nothing; and a pattern with a slash is cut there. The
  other members of the filter keep their values. (The listing must fit a buffer.)
\<close>

theorem cli_edits_filters:
  assumes "cli_request idn rex cmd = Some rq" "m_target m = rq_path rq" "\<not> ec_failed err"
    and "list_all dot rex" "n < 2 ^ 31" "idn \<in> {nat_to_string n, ''*'', ''all''}"
    and "length (filters_text (m_filters (mitm_filter s))) + length rex + 100 \<le> 1048576"
    and "cmd \<in> {''filter_list'', ''filter_remove'', ''filter_add''}"
  shows "\<exists>s' es. ctl_resume v KC_Read err (Some m) s = Inr (s', [C_Write es KC_Written]) \<and>
     mitm_filter s' = (mitm_filter s)\<lparr>m_filters :=
       (let fs = m_filters (mitm_filter s) in
        if cmd = ''filter_add'' then fs @ [takeWhile (\<lambda>c. c \<noteq> CHR ''/'') rex]
        else if cmd = ''filter_remove'' \<and> idn = nat_to_string n \<and> n < length fs then take n fs @ drop (Suc n) fs
        else fs)\<rparr>"
proof -
  let ?fs = "m_filters (mitm_filter s)"
  have short: "length (nat_to_string n) \<le> 10" using length_nat_to_string [of n 10] assms(5) by simp
  have idn: "CHR ''/'' \<notin> set idn" "list_all dot idn" "length idn \<le> 10"
    using assms(6) number_plain short by (auto simp: dot_def)
  have same: "f\<lparr>m_filters := m_filters f\<rparr> = f" for f :: capture_filter by simp
  have request: ?thesis
    if "m_target m = ''/filter'' @ sub" "list_all dot sub"
      "edit_filters (split_path (m_target m)) ?fs = (fs', os)" "length os + length (filters_text fs') \<le> 1048576"
      "fs' = (if cmd = ''filter_add'' then ?fs @ [takeWhile (\<lambda>c. c \<noteq> CHR ''/'') rex]
        else if cmd = ''filter_remove'' \<and> idn = nat_to_string n \<and> n < length ?fs then take n ?fs @ drop (Suc n) ?fs
        else ?fs)" for sub fs' os
  proof -
    note h = that
    obtain w mb where "ctl_resume v KC_Read err (Some m) s =
        Inr (s\<lparr>ctl_request := Some m, mitm_filter := set_filters fs' (mitm_filter s), ctl_wrtr := w\<rparr>,
             [C_Write [Write_Contig mb] KC_Written])"
      using filter_request [OF h(1,2) assms(3) h(3,4)] by blast
    then show ?thesis unfolding Let_def h(5) [symmetric] by (intro exI conjI, assumption) (simp add: set_filters_def)
  qed
  consider (list) "cmd = ''filter_list''" | (remove) "cmd = ''filter_remove''" | (add) "cmd = ''filter_add''"
    using assms(8) by blast
  then show ?thesis
  proof cases
    case list
    then have t: "m_target m = ''/filter'' @ ''_list''" using assms(1,2) by (auto simp: cli_request_def)
    have "edit_filters (split_path (m_target m)) ?fs = (?fs, [])"
      using t split_path_command(1) [of "''filter_list''"] by (simp add: edit_filters_def)
    from request [OF t _ this] show ?thesis using assms(7) list by (simp add: dot_def)
  next
    case add
    then have t: "m_target m = ''/filter'' @ ''_add/'' @ rex" using assms(1,2) by (auto simp: cli_request_def)
    let ?r = "takeWhile (\<lambda>c. c \<noteq> CHR ''/'') rex"
    have "edit_filters (split_path (m_target m)) ?fs = (?fs @ [?r], [])" by (rule edit_add [OF t])
    moreover have "length (filters_text (?fs @ [?r])) \<le> 1048576"
      using assms(7) length_takeWhile_le [of "\<lambda>c. c \<noteq> CHR ''/''" rex] by (simp add: length_filters_text)
    ultimately show ?thesis using request [OF t] assms(4) add by (simp add: dot_def)
  next
    case remove
    then have t: "m_target m = ''/filter'' @ ''_remove/'' @ idn" using assms(1,2) by (auto simp: cli_request_def)
    have sp: "split_path (m_target m) = [''filter_remove'', idn]"
      using t split_path_command(2) [of "''filter_remove''" idn] idn(1) by (simp add: split_at_word)
    have d: "list_all dot (''_remove/'' @ idn)" using idn(2) by (simp add: dot_def)
    have w: "\<not> is_number ''*''" "\<not> is_number ''all''" by code_simp+
    show ?thesis
    proof (cases "idn = nat_to_string n \<and> n < length ?fs")
      case True
      then have "edit_filters (split_path (m_target m)) ?fs = (vector_erase n ?fs, [])"
        using sp edit_remove(1) [OF assms(5)] by simp
      moreover have "length (filters_text (vector_erase n ?fs)) \<le> 1048576"
        using filters_text_erase [of n ?fs] assms(7) by simp
      ultimately show ?thesis using request [OF t d] remove True by (simp add: vector_erase_def)
    next
      case False
      then obtain os where "edit_filters (split_path (m_target m)) ?fs = (?fs, os)" "length os \<le> 100"
        using sp edit_remove(1) [OF assms(5)] edit_remove(2) [OF w(1)] edit_remove(2) [OF w(2)] assms(6) short
        by (auto simp: endl_def)
      then show ?thesis using request [OF t d] remove False assms(7) by auto
    qed
  qed
qed

definition sample_ctl :: "(nat, nat) ctl_app" where
  "sample_ctl =
     \<lparr>ctl_socket = Connection_server default_config False, ctl_wrtr = MessageWriter_new, ctl_request = None,
      mitm_filter = CaptureFilter_new [''a'', ''b''], mitm_server = Some (TcpServer_new 35), ctl_server = TcpServer_new 35\<rparr>"

definition sample_ctl_env :: ctl_env where
  "sample_ctl_env = \<lparr>ce_method_str = (\<lambda>_. ''GET''), ce_junk_method = 0, ce_junk_status = 0\<rparr>"

theorem cli_edits_filters_witness:
  "(\<exists>s' es. ctl_resume sample_ctl_env KC_Read make_ok (Some ((MessageBase_new 1 0)\<lparr>m_target := ''/filter_remove/0''\<rparr>)) sample_ctl =
      Inr (s', [C_Write es KC_Written]) \<and> m_filters (mitm_filter s') = [''b'']) \<and>
   (\<exists>s' es. ctl_resume sample_ctl_env KC_Read make_ok (Some ((MessageBase_new 1 0)\<lparr>m_target := ''/filter_remove/all''\<rparr>)) sample_ctl =
      Inr (s', [C_Write es KC_Written]) \<and> m_filters (mitm_filter s') = [''a'', ''b''])"
proof -
  have z: "nat_to_string 0 = ''0''" by code_simp
  have f: "m_filters (mitm_filter sample_ctl) = [''a'', ''b'']" by (simp add: sample_ctl_def CaptureFilter_new_def)
  have l: "length (filters_text (m_filters (mitm_filter sample_ctl))) + length [] + 100 \<le> 1048576"
    unfolding f length_filters_text by simp
  have r: "cli_request idn [] ''filter_remove'' = Some \<lparr>rq_method = ''DELETE'', rq_path = ''/filter_remove/'' @ idn\<rparr>" for idn
    by (simp add: cli_request_def)
  note run = cli_edits_filters [OF r _ make_ok_not_failed(1) _ _ _ l, where n = 0 and v = sample_ctl_env]
  have "(\<exists>s' es. ctl_resume sample_ctl_env KC_Read make_ok (Some ((MessageBase_new 1 0)\<lparr>m_target := ''/filter_remove/0''\<rparr>)) sample_ctl =
      Inr (s', [C_Write es KC_Written]) \<and> m_filters (mitm_filter s') = [''b''])"
    using run [of "(MessageBase_new 1 0)\<lparr>m_target := ''/filter_remove/0''\<rparr>" "''0''"] z f
    by (auto simp del: ctl_resume.simps)
  moreover have "(\<exists>s' es. ctl_resume sample_ctl_env KC_Read make_ok (Some ((MessageBase_new 1 0)\<lparr>m_target := ''/filter_remove/all''\<rparr>)) sample_ctl =
      Inr (s', [C_Write es KC_Written]) \<and> m_filters (mitm_filter s') = [''a'', ''b''])"
    using run [of "(MessageBase_new 1 0)\<lparr>m_target := ''/filter_remove/all''\<rparr>" "''all''"] z f
    by (auto simp del: ctl_resume.simps)
  ultimately show ?thesis by blast
qed

text \<open>The commands that switch the display of bodies change that flag only; \<open>main\<close> sets it for any value of its option.\<close>

lemma cli_switches_bodies:
  assumes "cli_request idn rex cmd = Some rq" "m_target m = rq_path rq" "\<not> ec_failed err"
    and "cmd \<in> {''bodies_on'', ''bodies_off''}"
  shows "\<exists>s' es. ctl_resume v KC_Read err (Some m) s = Inr (s', [C_Write es KC_Written]) \<and>
     mitm_filter s' = (mitm_filter s)\<lparr>m_show_message_bodies := (cmd = ''bodies_on'')\<rparr>"
proof -
  have t: "m_target m = ''/bodies_'' @ drop 7 cmd" "m_target m = CHR ''/'' # cmd" "CHR ''/'' \<notin> set cmd" "list_all dot (drop 7 cmd)"
    using assms(1,2,4) by (auto simp: cli_request_def dot_def)
  then have d: "dispatch_find (m_target m) ctl_dispatch_table = Some H_Bodies"
    using assms(4) by (subst dispatch_find_iff) auto
  have b: "split_path (m_target m) = [cmd]" unfolding t(2) by (rule split_path_command(1) [OF t(3)])
  define cf where "cf = (mitm_filter s)\<lparr>m_show_message_bodies := (cmd = ''bodies_on'')\<rparr>"
  let ?s = "s\<lparr>ctl_request := Some m, mitm_filter := cf\<rparr>"
  let ?body = "''Show message bodies: '' @ (if m_show_message_bodies cf then ''1'' else ''0'') @ endl @ ''complete ------'' @ endl"
  have n: "?body \<noteq> []" "length ?body \<le> 1048576" by (simp_all add: endl_def)
  obtain w mb where "ctl_respond v ?body KC_Written ?s = Inr (?s\<lparr>ctl_wrtr := w\<rparr>, [C_Write [Write_Contig mb] KC_Written])"
    using ctl_respond_ok [OF n, of v KC_Written ?s] by blast
  moreover have "ctl_resume v KC_Read err (Some m) s = ctl_respond v ?body KC_Written ?s"
    using assms(3,4) d b
    by (auto simp: p_internal_handle_read_def p_handle_bodies_def set_show_message_bodies_def cf_def Let_def)
  ultimately show ?thesis by (intro exI conjI) (auto simp: cf_def)
qed

lemma show_bodies_option:
  assumes "simple_proxy_main fs lib opts = Inr (Some (su, inst))"
  shows "m_show_message_bodies (su_filter su) \<longleftrightarrow> o_show_bodies opts \<noteq> None"
  using assms by (auto simp: simple_proxy_main_def rbind_Inr_iff set_show_message_bodies_def Let_def split: option.splits)

section \<open>The life of a control connection\<close>

fun ctl_awaited :: "ctl_effect list \<Rightarrow> ctl_cont list" where
  "ctl_awaited [] = []"
| "ctl_awaited (C_Read # es) = KC_Read # ctl_awaited es"
| "ctl_awaited (C_Write ws k # es) = k # ctl_awaited es"
| "ctl_awaited (C_Timer ms # es) = KC_Delayed # ctl_awaited es"
| "ctl_awaited (_ # es) = ctl_awaited es"

fun ctl_dones :: "ctl_effect list \<Rightarrow> nat" where
  "ctl_dones [] = 0"
| "ctl_dones (C_Done # es) = Suc (ctl_dones es)"
| "ctl_dones (_ # es) = ctl_dones es"

text \<open>A control connection: the continuations awaited and the calls of the done call-back so far.\<close>

inductive controlling :: "ctl_env \<Rightarrow> ('c, 'i) ctl_app \<Rightarrow> ctl_cont list \<Rightarrow> nat \<Rightarrow> bool" for v where
  controlling_start: "\<not> m_closed_already sock \<Longrightarrow> ctl_handle sock s0 = (s, effs) \<Longrightarrow>
     controlling v s (ctl_awaited effs) (ctl_dones effs)"
| controlling_resume: "controlling v s (k # ks) d \<Longrightarrow> ctl_resume v k err msg s = Inr (s', effs) \<Longrightarrow>
     controlling v s' (ks @ ctl_awaited effs) (d + ctl_dones effs)"

definition ctl_ready :: "ctl_cont \<Rightarrow> ('c, 'i) ctl_app \<Rightarrow> bool" where
  "ctl_ready k s \<longleftrightarrow> \<not> m_closed_already (ctl_socket s) \<and>
     (k = KC_Read \<or> k \<in> {KC_Written, KC_Stop_Written} \<and> ctl_request s \<noteq> None)"

lemma read_effects:
  assumes "ctl_resume v KC_Read err msg s = Inr (s', effs)"
  shows "ctl_socket s' = ctl_socket s \<and>
    (effs = [C_Done] \<or> (\<exists>es k. effs = [C_Write es k] \<and> k \<in> {KC_Written, KC_Stop_Written} \<and> ctl_request s' \<noteq> None))"
proof -
  have handler: "run_handler v h m q = Inr (s', effs) \<Longrightarrow>
      ctl_socket s' = ctl_socket q \<and> ctl_request s' = ctl_request q \<and> (\<exists>es k. effs = [C_Write es k] \<and> k \<in> {KC_Written, KC_Stop_Written})"
    for h m q
    by (cases h) (auto simp: p_handle_stop_def p_handle_filter_def p_handle_bodies_def Let_def case_prod_beta dest!: ctl_respond_effects)
  show ?thesis
    using assms
    by (auto simp: p_internal_handle_read_def ctl_on_read_error_def p_invalid_request_def rbind_Inr_iff deref_Inr_iff Let_def
        split: if_splits option.splits dest!: handler ctl_respond_effects)
qed

lemma cycle_complete_ok:
  assumes "ctl_request s = Some req" "\<not> m_closed_already (ctl_socket s)"
  shows "p_req_resp_cycle_complete s =
     Inr (s, if header Connection_key req = Some ''Keep-Alive'' then [C_Read] else [C_Conn [E_Sock_Shutdown], C_Done])"
  using assms by (auto simp: p_req_resp_cycle_complete_def conn_shutdown_def Let_def split: option.splits)

lemma written_effects:
  assumes "ctl_ready k s" "k \<noteq> KC_Read" "ctl_resume v k err msg s = Inr (s', effs)"
  shows "effs = [C_Done] \<or> effs = [C_Conn [E_Sock_Shutdown], C_Done] \<or> effs = [C_Read] \<and> \<not> m_closed_already (ctl_socket s')"
proof -
  obtain req where req: "ctl_request s = Some req" "\<not> m_closed_already (ctl_socket s)" "k \<in> {KC_Written, KC_Stop_Written}"
    using assms(1,2) by (auto simp: ctl_ready_def)
  then show ?thesis
    using assms(3)
    by (auto simp: ctl_on_written_def ctl_on_stop_written_def ctl_on_write_error_def rbind_Inr_iff deref_Inr_iff
        cycle_complete_ok [where req = req] split: if_splits)
qed

text \<open>\<open>CtlApp\<close> keeps the contract of a request handler.\<close>

interpretation ctl_handler: request_handler "\<lambda>k (err, msg). ctl_resume v k err msg" ctl_awaited ctl_dones ctl_ready
  for v :: ctl_env
proof
  fix k out and s s' :: "('c, 'i) ctl_app" and effs
  assume r: "ctl_ready k s" and x: "(case out of (err, msg) \<Rightarrow> ctl_resume v k err msg) s = Inr (s', effs)"
  obtain err msg where o: "out = (err, msg)" by (cases out)
  show "ctl_awaited effs = [] \<and> ctl_dones effs = 1 \<or>
      (\<exists>k'. ctl_awaited effs = [k'] \<and> ctl_dones effs = 0 \<and> ctl_ready k' s')"
  proof (cases "k = KC_Read")
    case True
    then show ?thesis using r x o read_effects [of v err msg s s' effs] by (auto simp: ctl_ready_def)
  next
    case False
    then show ?thesis using x o written_effects [OF r, of v err msg s' effs] by (auto simp: ctl_ready_def)
  qed
qed

lemma controlling_live: "controlling v s ks d \<Longrightarrow> ctl_handler.live s ks d"
proof (induction rule: controlling.induct)
  case (controlling_start sock s0 s effs)
  then have "ctl_ready KC_Read s" "effs = [C_Read]" by (auto simp: ctl_handle_def ctl_ready_def)
  then show ?case using ctl_handler.live_start [of KC_Read s] by simp
next
  case (controlling_resume s k ks d err msg s' effs)
  then show ?case using ctl_handler.live_step [of s k ks d v "(err, msg)" s' effs] by simp
qed



end
