(* ===== verification/Proxy_Cli.thy ===== *)
theory Proxy_Cli
  imports Ctl_App Mitm_Apps
begin

text \<open>
  \<open>apps/simple_proxy/simple_proxy_cli.cpp\<close>, the command line tool that sends a command to the control interface with
  \<open>curl\<close> and shows the answer, and the thread objects of \<open>mitm_thread.hpp\<close> and \<open>ctl_thread.hpp\<close>. The parser of the
  command line and the \<open>curl\<close> process are arguments: the lines \<open>curl\<close> writes, its exit code, and when it is seen to run.
  What the tool prints is a string.
\<close>

section \<open>The jump table\<close>

record control_response =
  return_code :: int
  cr_output :: "string list"

text \<open>A handler prints a text and makes a request.\<close>

type_synonym command_handler = "string \<times> control_request"

definition register_handler :: "string \<Rightarrow> command_handler \<Rightarrow> (string \<rightharpoonup> command_handler) \<Rightarrow> (string \<rightharpoonup> command_handler)" where
  "register_handler cmd h table = table(cmd \<mapsto> h)"

definition call_handler :: "(string \<rightharpoonup> command_handler) \<Rightarrow> string \<Rightarrow> command_handler result" where
  "call_handler table cmd =
     (case table cmd of
        None \<Rightarrow> Inl (Marvin_Exception (''command : '' @ cmd @ '' not found''))
      | Some h \<Rightarrow> Inr h)"

text \<open>The command line: the subcommand, its arguments, and the value of \<open>--crash\<close> where it is given.\<close>

record cli_args =
  ca_argv :: "string list"
  ca_subcommand :: string
  ca_id_number :: string
  ca_regex :: string
  ca_crash :: "bool option"

definition cli_jump_table :: "cli_args \<Rightarrow> string \<rightharpoonup> command_handler" where
  "cli_jump_table a =
     (register_handler ''bodies_on'' (''Subcommand: stop'' @ endl, \<lparr>rq_method = ''POST'', rq_path = ''/bodies_on''\<rparr>)
     (register_handler ''bodies_off'' (''Subcommand: bodies_off'' @ endl, \<lparr>rq_method = ''POST'', rq_path = ''/bodies_off''\<rparr>)
     (register_handler ''filter_add'' (''Subcommand: filter_add'' @ endl, \<lparr>rq_method = ''POST'', rq_path = ''/filter_add/'' @ ca_regex a\<rparr>)
     (register_handler ''filter_remove'' (''Subcommand: filter_remove'' @ endl, \<lparr>rq_method = ''DELETE'', rq_path = ''/filter_remove/'' @ ca_id_number a\<rparr>)
     (register_handler ''filter_list'' (''Subcommand: filter_list'' @ endl, \<lparr>rq_method = ''GET'', rq_path = ''/filter_list''\<rparr>)
     (register_handler ''stop''
        ((case ca_crash a of None \<Rightarrow> [] | Some b \<Rightarrow> ''Subcommand: stop: '' @ (if b then ''1'' else ''0'') @ endl) @ ''Subcommand: stop'' @ endl,
         \<lparr>rq_method = ''GET'', rq_path = ''/stop''\<rparr>) Map.empty))))))"

section \<open>Sending a request\<close>

text \<open>A run of \<open>curl\<close>: \<open>cu_running k\<close> is what the \<open>k\<close>-th test of \<open>running()\<close> answers.\<close>

record curl_run =
  cu_lines :: "string list"
  cu_running :: "nat \<Rightarrow> bool"
  cu_exit_code :: int

definition curl_arguments :: "control_request \<Rightarrow> string list" where
  "curl_arguments req = [''-X'', rq_method req, ''-sS'', ''--raw'', ''http://localhost:9993'' @ rq_path req]"

fun read_lines :: "(nat \<Rightarrow> bool) \<Rightarrow> nat \<Rightarrow> string list \<Rightarrow> string list" where
  "read_lines running k [] = []"
| "read_lines running k (line # rest) = (if running k then line # read_lines running (Suc k) rest else [])"

definition send_request :: "(string list \<Rightarrow> curl_run) \<Rightarrow> control_request \<Rightarrow> control_response" where
  "send_request curl req =
     (let run = curl (curl_arguments req) in
      \<lparr>return_code = cu_exit_code run, cr_output = read_lines (cu_running run) 0 (cu_lines run)\<rparr>)"

definition display_response :: "control_response \<Rightarrow> string" where
  "display_response resp =
     ''Response return code is : '' @ int_to_string (return_code resp) @ endl @
     (if return_code resp = 0 then concat (map (\<lambda>line. line @ endl) (cr_output resp)) else ''Request failed '' @ endl)"

definition argv_text :: "string list \<Rightarrow> string" where
  "argv_text argv = ''argv: '' @ concat (map (\<lambda>s. '' '' @ s) argv) @ endl"

definition cli_main :: "(string list \<Rightarrow> curl_run) \<Rightarrow> cli_args \<Rightarrow> string result" where
  "cli_main curl a =
     (let out = argv_text (ca_argv a) in
      case cli_jump_table a (ca_subcommand a) of
        None \<Rightarrow> Inl Index_Out_Of_Range
      | Some (txt, req) \<Rightarrow> Inr (out @ txt @ display_response (send_request curl req)))"

section \<open>The threads\<close>

text \<open>
  The thread of the proxy: the server its function makes, and the collector, an address, that the first
  connection makes. The control thread has a server only.
\<close>

record mitm_thread =
  mt_server :: "server option"
  mt_filter :: capture_filter
  mt_collector :: "nat option"

definition MitmThread_new :: "capture_filter \<Rightarrow> mitm_thread" where
  "MitmThread_new cf = \<lparr>mt_server = None, mt_filter = cf, mt_collector = None\<rparr>"

definition mitm_thread_listen :: "int \<Rightarrow> error_code \<Rightarrow> mitm_thread \<Rightarrow> mitm_thread result" where
  "mitm_thread_listen numberOfConnections bind_err mt =
     rbind (thread_start numberOfConnections bind_err) (\<lambda>sv. Inr (mt\<lparr>mt_server := Some sv\<rparr>))"

text \<open>The application made for a connection; \<open>fresh\<close> is the address of a new collector.\<close>

definition mitm_make_app ::
    "nat \<Rightarrow> ('c, 'i) connection \<Rightarrow> mitm_thread \<Rightarrow> mitm_thread \<times> nat \<times> ('c, 'i, 'h) mitm" where
  "mitm_make_app fresh sock mt =
     (let collector = (case mt_collector mt of None \<Rightarrow> fresh | Some c \<Rightarrow> c) in
      (mt\<lparr>mt_collector := Some collector\<rparr>, collector, MitmApp_new (mt_filter mt) sock))"

text \<open>\<open>terminate\<close> goes through the pointer that the thread sets once it runs.\<close>

definition mitm_thread_terminate :: "mitm_thread \<Rightarrow> mitm_thread result" where
  "mitm_thread_terminate mt = rbind (deref (mt_server mt)) (\<lambda>sv. Inr (mt\<lparr>mt_server := Some (terminate sv)\<rparr>))"

section \<open>What the tool shows\<close>

lemma jump_table_requests:
  "map_option snd (cli_jump_table a cmd) = cli_request (ca_id_number a) (ca_regex a) cmd"
  by (simp add: cli_jump_table_def register_handler_def cli_request_def)

lemma read_lines_prefix: "\<exists>n \<le> length ls. read_lines running k ls = take n ls"
proof (induction ls arbitrary: k)
  case (Cons l ls)
  then obtain n where "n \<le> length ls" "read_lines running (Suc k) ls = take n ls" by blast
  then show ?case
    by (cases "running k") (auto intro: exI [of _ "Suc n"] exI [of _ 0])
qed simp

lemma read_lines_all: "(\<forall>i < length ls. running (k + i)) \<Longrightarrow> read_lines running k ls = ls"
proof (induction ls arbitrary: k)
  case (Cons l ls)
  have "running (Suc k + i)" if "i < length ls" for i using Cons.prems [rule_format, of "Suc i"] that by simp
  then show ?case using Cons.IH [of "Suc k"] Cons.prems [rule_format, of 0] by simp
qed simp

text \<open>
  The tool asks the control interface for the request of its subcommand and shows the lines \<open>curl\<close> has written by the
  time it is first seen to have ended, which are all of them only if it still runs when the last one is
  read: an answer that is complete before the first test is not shown at all, with return code 0. The
  subcommand \<open>start\<close>, which the parser accepts, has no handler and ends the tool with an exception.
\<close>

theorem cli_shows_answer:
  assumes "cli_request (ca_id_number a) (ca_regex a) (ca_subcommand a) = Some req"
    and "run = curl (curl_arguments req)" "cu_exit_code run = 0"
  shows "\<exists>pre n. n \<le> length (cu_lines run) \<and>
      cli_main curl a = Inr (pre @ ''Response return code is : 0'' @ endl @ concat (map (\<lambda>l. l @ endl) (take n (cu_lines run)))) \<and>
      ((\<forall>i < length (cu_lines run). cu_running run i) \<longrightarrow> n = length (cu_lines run)) \<and>
      (\<not> cu_running run 0 \<longrightarrow> n = 0 \<or> cu_lines run = [])"
proof -
  obtain msg where t: "cli_jump_table a (ca_subcommand a) = Some (msg, req)"
    using jump_table_requests [of a "ca_subcommand a"] assms(1) by auto
  have z: "int_to_string 0 = ''0''" by code_simp
  let ?pre = "argv_text (ca_argv a) @ msg"
  let ?r = "read_lines (cu_running run) 0 (cu_lines run)"
  have m: "cli_main curl a = Inr (?pre @ ''Response return code is : 0'' @ endl @ concat (map (\<lambda>l. l @ endl) ?r))"
    using t z assms(2,3) by (simp add: cli_main_def send_request_def display_response_def Let_def)
  obtain n where n: "n \<le> length (cu_lines run)" "?r = take n (cu_lines run)" using read_lines_prefix by blast
  have "(\<forall>i < length (cu_lines run). cu_running run i) \<longrightarrow> n = length (cu_lines run)"
    using read_lines_all [of "cu_lines run" "cu_running run" 0] n by (metis add_0 length_take min.absorb2)
  moreover have "\<not> cu_running run 0 \<longrightarrow> n = 0 \<or> cu_lines run = []" using n by (cases "cu_lines run") auto
  ultimately show ?thesis using m n by metis
qed

theorem cli_shows_answer_witness:
  "cli_request [] [] ''filter_list'' = Some \<lparr>rq_method = ''GET'', rq_path = ''/filter_list''\<rparr> \<and>
   (\<exists>pre. cli_main (\<lambda>args. \<lparr>cu_lines = [''a''], cu_running = (\<lambda>i. False), cu_exit_code = 0\<rparr>)
      \<lparr>ca_argv = [], ca_subcommand = ''filter_list'', ca_id_number = [], ca_regex = [], ca_crash = None\<rparr> =
      Inr (pre @ ''Response return code is : 0'' @ endl))"
proof -
  let ?a = "\<lparr>ca_argv = [], ca_subcommand = ''filter_list'', ca_id_number = [], ca_regex = [], ca_crash = None\<rparr>"
  let ?run = "\<lparr>cu_lines = [''a''], cu_running = (\<lambda>i. False), cu_exit_code = 0\<rparr>"
  have r: "cli_request [] [] ''filter_list'' = Some \<lparr>rq_method = ''GET'', rq_path = ''/filter_list''\<rparr>" by (simp add: cli_request_def)
  then show ?thesis
    using cli_shows_answer [of ?a "\<lparr>rq_method = ''GET'', rq_path = ''/filter_list''\<rparr>" ?run "\<lambda>args. ?run"] by auto
qed

lemma start_has_no_handler: "ca_subcommand a = ''start'' \<Longrightarrow> cli_main curl a = Inl Index_Out_Of_Range"
  by (simp add: cli_main_def cli_jump_table_def register_handler_def)

text \<open>
  All connections of the proxy share the filter of its thread, the one the control interface edits, and one
  collector. A request to stop that comes before the thread has made its server meets a null pointer.
\<close>

lemma apps_share_collector:
  assumes "mitm_make_app f1 sock1 mt = (mt1, c1, app1 :: ('c, 'i, 'h) mitm)" "mitm_make_app f2 sock2 mt1 = (mt2, c2, app2 :: ('c, 'i, 'h) mitm)"
  shows "c1 = c2" "mt_filter mt2 = mt_filter mt" "a_filter app1 = mt_filter mt" "a_filter app2 = mt_filter mt"
  using assms by (auto simp: mitm_make_app_def MitmApp_new_def Let_def split: option.splits)

lemma terminate_before_listen: "mitm_thread_terminate (MitmThread_new cf) = Inl Null_Deref"
  by (simp add: mitm_thread_terminate_def MitmThread_new_def)

end
