(* ===== verification/Handshake.thy ===== *)
theory Handshake
  imports Certificates Connection
begin

text \<open>
  \<open>apps/handshake\<close>: the tool that tries a TLS handshake with a server and checks that the certificate it gets
  is for that host. \<open>check_host.cpp\<close> splits the alternative names of a certificate and matches a host against
  them; \<open>marvin_handshaker.cpp\<close> connects, completes a handshake and builds the identity the proxy would show.
  The connection and the certificates object are those of their theories. The other handshaker and the
  program around both are in \<open>Contact_Server\<close>.
\<close>

section \<open>Host names\<close>

definition to_lower_char :: "char \<Rightarrow> char" where
  "to_lower_char c = (let n = of_char c :: nat in if 65 \<le> n \<and> n \<le> 90 then char_of (n + 32) else c)"

definition to_lower :: "string \<Rightarrow> string" where
  "to_lower s = map to_lower_char s"

text \<open>The loop over \<open>std::getline\<close>: pieces end at a delimiter or at the end of a non-empty rest.\<close>

function split_string :: "string \<Rightarrow> char \<Rightarrow> string list" where
  "split_string s d =
     (if s = [] then []
      else takeWhile (\<lambda>c. c \<noteq> d) s # split_string (drop 1 (dropWhile (\<lambda>c. c \<noteq> d) s)) d)"
  by pat_completeness auto
termination
proof (relation "measure (\<lambda>(s, d). length s)")
  fix s :: string and d
  assume "s \<noteq> []"
  then show "((drop 1 (dropWhile (\<lambda>c. c \<noteq> d) s), d), (s, d)) \<in> measure (\<lambda>(s, d). length s)"
    using length_dropWhile_le [of "\<lambda>c. c \<noteq> d" s] by (cases s) auto
qed simp

declare split_string.simps [simp del]

text \<open>\<open>boost::replace_all_copy\<close> with an empty replacement, from left to right; \<open>std::string::find\<close>.\<close>

function remove_all :: "string \<Rightarrow> string \<Rightarrow> string" where
  "remove_all pat [] = []"
| "remove_all pat (c # cs) =
     (if pat \<noteq> [] \<and> take (length pat) (c # cs) = pat then remove_all pat (drop (length pat) (c # cs))
      else c # remove_all pat cs)"
  by pat_completeness auto
termination
  by (relation "measure (\<lambda>(pat, s). length s)") (auto simp: neq_Nil_conv)

fun contains_sub :: "string \<Rightarrow> string \<Rightarrow> bool" where
  "contains_sub pat [] \<longleftrightarrow> pat = []"
| "contains_sub pat (c # cs) \<longleftrightarrow> take (length pat) (c # cs) = pat \<or> contains_sub pat cs"

definition splitDNSNames :: "string \<Rightarrow> string list" where
  "splitDNSNames dns_names =
     (let no_spaces = remove_all '' '' dns_names;
          tokens = split_string no_spaces (CHR '','') in
      map (\<lambda>ent. remove_all ''dns:'' (to_lower ent)) (filter (\<lambda>ent. contains_sub ''dns:'' (to_lower ent)) tokens))"

text \<open>
  The loop of \<open>matchHostAgainstDnsName\<close> from iteration \<open>i\<close>; the indices run from the right. The third branch
  of the source repeats the condition of the second and is never taken.
\<close>

function match_loop :: "string list \<Rightarrow> string list \<Rightarrow> nat \<Rightarrow> bool \<Rightarrow> bool" where
  "match_loop res_host res_dns i match =
     (if i < length res_host then
        (let j_host = length res_host - 1 - i; j_dns = length res_dns - 1 - i in
         if res_host ! j_host = res_dns ! j_dns then
           (if j_host = 0 \<and> j_dns > 0 \<and> res_dns ! (j_dns - 1) \<noteq> ''*'' then False
            else match_loop res_host res_dns (Suc i) True)
         else if res_dns ! j_dns \<noteq> ''*'' then False
         else match_loop res_host res_dns (Suc i) match)
      else match)"
  by pat_completeness auto
termination
  by (relation "measure (\<lambda>(h, d, i, m). length h - i)") auto

declare match_loop.simps [simp del]

definition matchHostAgainstDnsName :: "string \<Rightarrow> string \<Rightarrow> bool" where
  "matchHostAgainstDnsName host dns_name =
     (let res_host = split_string host (CHR ''.''); res_dns = split_string dns_name (CHR ''.'') in
      if length res_host > length res_dns then False else match_loop res_host res_dns 0 False)"

definition matchHostAgainstDnsAltString :: "string \<Rightarrow> string \<Rightarrow> bool" where
  "matchHostAgainstDnsAltString host altNames = list_ex (matchHostAgainstDnsName host) (splitDNSNames altNames)"

section \<open>What a match means\<close>

lemma split_string_Nil [simp]: "split_string [] d = []"
  by (simp add: split_string.simps)

lemma split_string_word: "d \<notin> set w \<Longrightarrow> w \<noteq> [] \<Longrightarrow> split_string w d = [w]"
proof -
  assume "d \<notin> set w" "w \<noteq> []"
  then have t: "takeWhile (\<lambda>c. c \<noteq> d) w = w" "dropWhile (\<lambda>c. c \<noteq> d) w = []"
    by (auto simp: takeWhile_eq_all_conv dropWhile_eq_Nil_conv)
  show ?thesis by (subst split_string.simps) (use \<open>w \<noteq> []\<close> in \<open>simp only: t if_False drop_Nil split_string_Nil\<close>)
qed

lemma split_string_sep: "d \<notin> set w \<Longrightarrow> split_string (w @ d # rest) d = w # split_string rest d"
proof -
  assume "d \<notin> set w"
  then have "takeWhile (\<lambda>c. c \<noteq> d) (w @ d # rest) = w" "dropWhile (\<lambda>c. c \<noteq> d) (w @ d # rest) = d # rest"
    by (induction w) auto
  then show ?thesis by (subst split_string.simps) simp
qed

text \<open>
  Label by label from the right: a label of the pattern is the host's or an asterisk, and one of them at
  least is the host's.
\<close>

definition label_ok :: "string \<Rightarrow> string \<Rightarrow> bool" where
  "label_ok h p \<longleftrightarrow> h = p \<or> p = ''*''"

definition host_matches :: "string list \<Rightarrow> string list \<Rightarrow> bool" where
  "host_matches hs ps \<longleftrightarrow>
     (\<exists>front rear. ps = front @ rear \<and> list_all2 label_ok hs rear \<and> (\<exists>i<length hs. hs ! i = rear ! i) \<and>
        (front \<noteq> [] \<and> hd hs = hd rear \<longrightarrow> last front = ''*''))"

lemma match_loop_iff:
  assumes "length hs \<le> length ps" "i \<le> length hs" "rear = drop (length ps - length hs) ps"
  shows "match_loop hs ps i m \<longleftrightarrow>
     (\<forall>k < length hs - i. label_ok (hs ! k) (rear ! k)) \<and>
     (i < length hs \<and> length hs < length ps \<and> hs ! 0 = rear ! 0 \<longrightarrow> ps ! (length ps - length hs - 1) = ''*'') \<and>
     (m \<or> (\<exists>k < length hs - i. hs ! k = rear ! k))"
  using assms(2)
proof (induction "length hs - i" arbitrary: i m)
  case 0
  then show ?case by (simp add: match_loop.simps)
next
  case (Suc n)
  define k where "k = length hs - 1 - i"
  have k: "i < length hs" "k < length hs" "length hs - i = Suc k" "length hs - Suc i = k" "k = 0 \<longleftrightarrow> \<not> Suc i < length hs"
    using Suc.hyps(2) by (auto simp: k_def)
  have jd: "length ps - 1 - i = length ps - length hs + k" using k(1) assms(1) by (simp add: k_def)
  have b: "rear ! k = ps ! (length ps - 1 - i)" using assms(1,3) k(2) unfolding jd by simp
  have IH: "match_loop hs ps (Suc i) m' \<longleftrightarrow>
     (\<forall>j<k. label_ok (hs ! j) (rear ! j)) \<and>
     (k \<noteq> 0 \<and> length hs < length ps \<and> hs ! 0 = rear ! 0 \<longrightarrow> ps ! (length ps - length hs - 1) = ''*'') \<and>
     (m' \<or> (\<exists>j<k. hs ! j = rear ! j))" for m'
    using Suc.hyps(1) [of "Suc i" m'] Suc.hyps(2) k by simp
  have step: "match_loop hs ps i m =
     (if hs ! k = rear ! k then
        (if k = 0 \<and> length hs < length ps \<and> ps ! (length ps - length hs - 1) \<noteq> ''*'' then False
         else match_loop hs ps (Suc i) True)
      else if rear ! k \<noteq> ''*'' then False else match_loop hs ps (Suc i) m)"
  proof -
    have e: "k = 0 \<and> 0 < length ps - 1 - i \<and> ps ! (length ps - 1 - i - 1) \<noteq> ''*'' \<longleftrightarrow>
        k = 0 \<and> length hs < length ps \<and> ps ! (length ps - length hs - 1) \<noteq> ''*''"
      using jd assms(1) by auto
    show ?thesis
      by (subst match_loop.simps) (simp only: k(1) if_True Let_def k_def [symmetric] b e)
  qed
  show ?case
    unfolding step IH k(3) All_less_Suc Ex_less_Suc using k(1) by (auto simp: label_ok_def)
qed

text \<open>
  C25. Which patterns a host matches. The labels of the host are matched from the right against the last labels
  of the pattern, each equal to its label or matched by an asterisk at any place, one of them at least
  equal; further labels of the pattern on the left are only looked at when the first label of the host
  is matched literally, and then only the nearest, which must be an asterisk. So \<open>google.com\<close> matches
  \<open>*.google.com\<close>, but also \<open>evil.*.google.com\<close>, and \<open>x.com\<close> matches \<open>bank.*.com\<close>.
\<close>

theorem host_match_iff:
  "matchHostAgainstDnsName host dns \<longleftrightarrow>
     host_matches (split_string host (CHR ''.'')) (split_string dns (CHR ''.''))"
proof -
  let ?hs = "split_string host (CHR ''.'')" and ?ps = "split_string dns (CHR ''.'')"
  let ?m = "length ?ps - length ?hs"
  show ?thesis
  proof (cases "length ?hs \<le> length ?ps")
    case False
    then show ?thesis by (auto simp: matchHostAgainstDnsName_def host_matches_def Let_def dest: list_all2_lengthD)
  next
    case True
    define rear where "rear = drop ?m ?ps"
    have fb: "?ps = front @ b \<and> length b = length ?hs \<longleftrightarrow> front = take ?m ?ps \<and> b = rear" for front b
      using True by (auto simp: rear_def)
    have hm: "host_matches ?hs ?ps \<longleftrightarrow> list_all2 label_ok ?hs rear \<and> (\<exists>i<length ?hs. ?hs ! i = rear ! i) \<and>
        (take ?m ?ps \<noteq> [] \<and> hd ?hs = hd rear \<longrightarrow> last (take ?m ?ps) = ''*'')"
      (is "_ \<longleftrightarrow> ?R")
    proof
      assume "host_matches ?hs ?ps"
      then obtain front b where f: "?ps = front @ b" "list_all2 label_ok ?hs b" "\<exists>i<length ?hs. ?hs ! i = b ! i"
          "front \<noteq> [] \<and> hd ?hs = hd b \<longrightarrow> last front = ''*''"
        unfolding host_matches_def by blast
      have "?ps = front @ b \<and> length b = length ?hs" using f(1) list_all2_lengthD [OF f(2)] by auto
      then have "front = take ?m ?ps" "b = rear" unfolding fb by blast+
      then show ?R using f by blast
    next
      assume ?R
      moreover have "?ps = take ?m ?ps @ rear" by (simp add: rear_def)
      ultimately show "host_matches ?hs ?ps" unfolding host_matches_def by blast
    qed
    have lb: "length rear = length ?hs" using True by (simp add: rear_def)
    have A: "list_all2 label_ok ?hs rear \<longleftrightarrow> (\<forall>k<length ?hs. label_ok (?hs ! k) (rear ! k))"
      using lb by (auto simp: list_all2_conv_all_nth)
    have B: "take ?m ?ps \<noteq> [] \<longleftrightarrow> length ?hs < length ?ps" using True by auto
    have C: "last (take ?m ?ps) = ?ps ! (?m - 1)" if "length ?hs < length ?ps"
      using that by (subst last_conv_nth) auto
    have D: "hd ?hs = hd rear \<longleftrightarrow> ?hs ! 0 = rear ! 0" if "0 < length ?hs"
      using that lb by (cases rear; cases ?hs) simp_all
    have "host_matches ?hs ?ps \<longleftrightarrow> match_loop ?hs ?ps 0 False"
      unfolding hm match_loop_iff [OF True le0 rear_def] A B diff_zero
      using C D by (cases "0 < length ?hs") (simp_all, blast)
    then show ?thesis using True by (simp add: matchHostAgainstDnsName_def Let_def)
  qed
qed

lemma wildcard_misplaced:
  "matchHostAgainstDnsName ''google.com'' ''*.google.com''"
  "matchHostAgainstDnsName ''google.com'' ''evil.*.google.com''"
  "matchHostAgainstDnsName ''x.com'' ''bank.*.com''"
  "\<not> matchHostAgainstDnsName ''Google.com'' ''google.com''"
  by code_simp+

section \<open>Alternative names\<close>

lemma remove_all_blank: "remove_all '' '' s = filter (\<lambda>c. c \<noteq> CHR '' '') s"
  by (induction s) auto

lemma remove_all_absent: "pat \<noteq> [] \<Longrightarrow> \<not> contains_sub pat s \<Longrightarrow> remove_all pat s = s"
  by (induction s) auto

lemma contains_sub_prefix [simp]: "contains_sub pat (pat @ s)"
  by (cases "pat @ s") (simp_all, metis append_eq_conv_conj)

lemma remove_all_prefix:
  assumes "pat \<noteq> []" "\<not> contains_sub pat s"
  shows "remove_all pat (pat @ s) = s"
proof -
  obtain c cs where p: "pat = c # cs" using assms(1) by (cases pat) auto
  show ?thesis using remove_all_absent [OF assms] by (simp add: p)
qed

lemma to_lower_append [simp]: "to_lower (s @ t) = to_lower s @ to_lower t"
  by (simp add: to_lower_def)

fun render_names :: "string list \<Rightarrow> string" where
  "render_names [] = []"
| "render_names [n] = ''DNS:'' @ n"
| "render_names (n # ns) = ''DNS:'' @ n @ '', '' @ render_names ns"

definition name_ok :: "string \<Rightarrow> bool" where
  "name_ok n \<longleftrightarrow> CHR '' '' \<notin> set n \<and> CHR '','' \<notin> set n \<and> \<not> contains_sub ''dns:'' (to_lower n)"

lemma split_rendered:
  assumes "list_all name_ok ns"
  shows "split_string (remove_all '' '' (render_names ns)) (CHR '','') = map ((@) ''DNS:'') ns"
  using assms
proof (induction ns rule: render_names.induct)
  case (2 n)
  then have "filter (\<lambda>c. c \<noteq> CHR '' '') n = n" by (auto simp: name_ok_def filter_id_conv)
  then show ?case using 2 split_string_word [of "CHR '',''" "''DNS:'' @ n"] by (simp add: remove_all_blank name_ok_def)
next
  case (3 n m ns)
  then have f: "filter (\<lambda>c. c \<noteq> CHR '' '') n = n" by (auto simp: name_ok_def filter_id_conv)
  then have "remove_all '' '' (render_names (n # m # ns)) = (''DNS:'' @ n) @ CHR '','' # remove_all '' '' (render_names (m # ns))"
    by (simp add: remove_all_blank)
  then show ?case using 3 split_string_sep [of "CHR '',''" "''DNS:'' @ n"] by (simp add: name_ok_def)
qed simp

text \<open>
  Alternative names as OpenSSL prints them are split into the names, in order and in lower case; a host is
  accepted exactly when one of them matches it.
\<close>

theorem alt_names_roundtrip:
  assumes "list_all name_ok ns"
  shows "splitDNSNames (render_names ns) = map to_lower ns \<and>
    (matchHostAgainstDnsAltString host (render_names ns) \<longleftrightarrow> (\<exists>n \<in> set ns. matchHostAgainstDnsName host (to_lower n)))"
proof -
  have "to_lower ''DNS:'' = ''dns:''" by code_simp
  then have q: "to_lower (''DNS:'' @ n) = ''dns:'' @ to_lower n" for n by (simp only: to_lower_append)
  have "contains_sub ''dns:'' (to_lower (''DNS:'' @ n))" for n unfolding q by (rule contains_sub_prefix)
  then have F: "filter (\<lambda>ent. contains_sub ''dns:'' (to_lower ent)) (map ((@) ''DNS:'') ns) = map ((@) ''DNS:'') ns"
    by (auto simp only: filter_id_conv set_map image_iff)
  have R: "remove_all ''dns:'' (to_lower (''DNS:'' @ n)) = to_lower n" if "n \<in> set ns" for n
    unfolding q using assms that by (intro remove_all_prefix) (auto simp: list_all_iff name_ok_def)
  have "splitDNSNames (render_names ns) = map to_lower ns"
    unfolding splitDNSNames_def Let_def split_rendered [OF assms] F map_map
    by (rule map_cong [OF refl]) (simp only: o_def R)
  then show ?thesis by (simp add: matchHostAgainstDnsAltString_def list_ex_iff)
qed

theorem alt_names_roundtrip_witness:
  "splitDNSNames ''DNS:*.A.com, DNS:b.org'' = [''*.a.com'', ''b.org'']"
proof -
  have "list_all name_ok [''*.A.com'', ''b.org'']" "render_names [''*.A.com'', ''b.org''] = ''DNS:*.A.com, DNS:b.org''"
    "map to_lower [''*.A.com'', ''b.org''] = [''*.a.com'', ''b.org'']"
    by code_simp+
  then show ?thesis using alt_names_roundtrip [of "[''*.A.com'', ''b.org'']" "[]"] by metis
qed

section \<open>The handshaker\<close>

datatype hk_cont = HK_Connected | HK_Shaken

datatype hk_effect =
    HK_Conn "nat conn_effect list" hk_cont
  | HK_Callback error_code

record ('c, 'i) handshaker =
  hk_host :: string
  hk_socket :: "('c, 'i) connection"
  hk_certificate :: "'c option"
  hk_identity :: "'i option"

text \<open>What the handshaker reaches outside itself; \<open>hv_store\<close> names the \<open>X509_STORE\<close> of the certificates object.\<close>

record ('s, 'c, 'i) hk_env =
  hv_config :: conn_config
  hv_fs :: fs_lib
  hv_lib :: "('s, 'c, 'i) cert_lib"
  hv_environment :: environment
  hv_store :: nat

definition Handshaker_new :: "conn_config \<Rightarrow> string \<Rightarrow> ('c, 'i) handshaker" where
  "Handshaker_new cfg host =
     \<lparr>hk_host = host, hk_socket = socket_factory_client cfg ''https'' host ''443'', hk_certificate = None, hk_identity = None\<rparr>"

definition hk_handshake :: "('c, 'i) handshaker \<Rightarrow> hk_effect list" where
  "hk_handshake h = [HK_Conn (async_connect (hk_socket h)) HK_Connected]"

definition p_on_connect_error :: "error_code \<Rightarrow> hk_effect list" where
  "p_on_connect_error err = [HK_Callback err]"

definition p_on_handshake_error :: "error_code \<Rightarrow> hk_effect list" where
  "p_on_handshake_error err = [HK_Callback err]"

definition p_on_handshake_ok :: "hk_effect list" where
  "p_on_handshake_ok = [HK_Callback make_error_ok]"

definition p_handshake_upstream ::
    "('s, 'c, 'i) hk_env \<Rightarrow> 's certificates option \<Rightarrow> ('c, 'i) handshaker \<Rightarrow>
      ('s certificates option \<times> ('c, 'i) handshaker \<times> hk_effect list) result" where
  "p_handshake_upstream v inst h =
     rbind (getInstance (hv_fs v) (hv_lib v) (hv_environment v) inst) (\<lambda>(inst, certificates).
     (let (certificates, bundle) = get_X509_STORE_ptr certificates in
      rbind (become_secure_client (hv_store v) (hk_socket h)) (\<lambda>sock.
      rbind (async_handshake sock) (\<lambda>effs.
        Inr (Some certificates, h\<lparr>hk_socket := sock\<rparr>, [HK_Conn effs HK_Shaken])))))"

definition hk_on_connected ::
    "('s, 'c, 'i) hk_env \<Rightarrow> error_code \<Rightarrow> 's certificates option \<Rightarrow> ('c, 'i) handshaker \<Rightarrow>
      ('s certificates option \<times> ('c, 'i) handshaker \<times> hk_effect list) result" where
  "hk_on_connected v err inst h =
     (if ec_failed err then Inr (inst, h, p_on_connect_error err) else p_handshake_upstream v inst h)"

text \<open>The handler of the handshake; \<open>certificates\<close> was captured by reference and is the one object there is.\<close>

definition hk_on_shaken ::
    "('s, 'c, 'i) hk_env \<Rightarrow> error_code \<Rightarrow> 'c \<Rightarrow> 's certificates option \<Rightarrow> ('c, 'i) handshaker \<Rightarrow>
      ('s certificates option \<times> ('c, 'i) handshaker \<times> hk_effect list) result" where
  "hk_on_shaken v err peer inst h =
     (let (sock, posts :: nat conn_effect list) = p_handle_handshake peer err (hk_socket h);
          h = h\<lparr>hk_socket := sock\<rparr> in
      if ec_failed err then Inr (inst, h, p_on_handshake_error err)
      else
        rbind (get_server_certificate sock) (\<lambda>cert.
        rbind (deref inst) (\<lambda>certificates.
          Inr (inst,
               h\<lparr>hk_certificate := Some cert,
                 hk_identity := Some (build_server_mitm_certificate (hv_lib v) (hk_host h) cert certificates)\<rparr>,
               p_on_handshake_ok))))"

definition getServerCertificate :: "('c, 'i) handshaker \<Rightarrow> 'c option" where
  "getServerCertificate h = hk_certificate h"

text \<open>A whole handshake: the connect ends with the first code, the TLS handshake with the second.\<close>

definition run_handshake ::
    "('s, 'c, 'i) hk_env \<Rightarrow> error_code \<Rightarrow> error_code \<Rightarrow> 'c \<Rightarrow> 's certificates option \<Rightarrow> string \<Rightarrow>
      ('s certificates option \<times> ('c, 'i) handshaker \<times> hk_effect list) result" where
  "run_handshake v e1 e2 peer inst host =
     (let h = Handshaker_new (hv_config v) host; effs = hk_handshake h in
      rbind (hk_on_connected v e1 inst h) (\<lambda>(inst, h, es1).
        if \<exists>ce. es1 = [HK_Conn ce HK_Shaken]
        then rbind (hk_on_shaken v e2 peer inst h) (\<lambda>(inst, h, es2). Inr (inst, h, effs @ es1 @ es2))
        else Inr (inst, h, effs @ es1)))"

fun hk_callbacks :: "hk_effect list \<Rightarrow> error_code list" where
  "hk_callbacks [] = []"
| "hk_callbacks (HK_Callback e # es) = e # hk_callbacks es"
| "hk_callbacks (HK_Conn ce k # es) = hk_callbacks es"

text \<open>
  A handshake reports once, and what it builds is what the proxy would show. Given a certificates object,
  however the connect and the TLS handshake end, the call-back is called exactly once, with the first
  error; when there is none the certificate is the one the server presented and the identity is built
  from it, for that host, with the authority of the loaded store.
\<close>

lemma run_handshake_outcome:
  assumes "getInstance (hv_fs v) (hv_lib v) (hv_environment v) inst = Inr (Some c, c)"
  shows "\<exists>inst' h effs. run_handshake v e1 e2 peer inst host = Inr (inst', h, effs) \<and>
     inst' = (if ec_failed e1 then inst else Some (c\<lparr>m_X509_refs := Suc (m_X509_refs c)\<rparr>)) \<and>
     hk_callbacks effs = [if ec_failed e1 then e1 else if ec_failed e2 then e2 else make_error_ok] \<and>
     getServerCertificate h = (if ec_failed e1 \<or> ec_failed e2 then None else Some peer) \<and>
     hk_identity h = map_option (cl_buildMitmIdentity (hv_lib v) (m_cert_store_sptr c) host) (getServerCertificate h)"
proof -
  let ?sock = "socket_factory_client (hv_config v) ''https'' host ''443'' :: ('b, 'c) connection"
  have n: "c_mode ?sock = NOTSECURE" by (simp add: socket_factory_client_def Connection_client_def)
  note defs = run_handshake_def Handshaker_new_def hk_handshake_def hk_on_connected_def p_on_connect_error_def
    p_handshake_upstream_def hk_on_shaken_def p_on_handshake_error_def p_on_handshake_ok_def getServerCertificate_def
    get_X509_STORE_ptr_def build_server_mitm_certificate_def Let_def
  show ?thesis
    using assms n
    by (cases "ec_failed e1"; cases "ec_failed e2")
      (simp_all add: defs become_secure_client_def async_handshake_def p_start_handshake_def p_handle_handshake_def
        get_server_certificate_def)
qed

end
