(* ===== verification/Contact_Server.thy ===== *)
theory Contact_Server
  imports Handshake
begin

text \<open>
  The rest of \<open>apps/handshake\<close>: \<open>cert_handshaker.cpp\<close>, the handshake over plain \<open>boost\<close> sockets, \<open>contact_server.hpp\<close>,
  which runs one of the two handshakers for a host or for the hosts of a file and prints what it found, and
  the \<open>main\<close> of \<open>handshake.cpp\<close>. What the program prints is a string that the operations extend. The resolver,
  the sockets and TLS are the environment: how resolving, connecting and the TLS handshake end for a server and
  which certificate it shows. The \<open>cert\<close> library's functions on certificates, the command line parser and the file
  system are arguments.
\<close>

definition tool_nl :: string where
  "tool_nl = [CHR 0x0A]"

section \<open>The handshaker over plain sockets\<close>

record ('c, 'i) hs_client =
  hs_port :: string
  hs_server :: string
  hs_saved_server_certificate_pem :: string
  hs_saved_certificate :: "'c option"
  hs_ctx_sptr :: "tls_context option"
  hs_socket_sptr :: "'i tls_stream option"
  hs_success :: bool

datatype hs_effect =
    HS_Connect "string list"
  | HS_Handshake
  | HS_Post_Callback error_code

text \<open>How things outside end, by server: the endpoints or the error of the resolver, the connect, the TLS handshake, the peer.\<close>

record 'c net_event =
  ne_resolve :: "error_code + string list"
  ne_connect :: error_code
  ne_handshake :: error_code
  ne_peer :: 'c

text \<open>The functions of the \<open>cert\<close> library on certificates; \<^term>\<open>None\<close> for a subject without a common name.\<close>

record ('c, 'i) x509_lib =
  xl_pem :: "'c \<Rightarrow> string"
  xl_common_name :: "'c \<Rightarrow> string option"
  xl_identity_common_name :: "'i \<Rightarrow> string option"
  xl_alt_names :: "'c \<Rightarrow> string option"
  xl_alt_names_member :: "'c \<Rightarrow> string"

record ('s, 'c, 'i) contact_env =
  ct_hk :: "('s, 'c, 'i) hk_env"
  ct_x509 :: "('c, 'i) x509_lib"
  ct_message :: "error_code \<Rightarrow> string"
  ct_debug_trace :: bool
  ct_net :: "string \<Rightarrow> 'c net_event"

definition hs_client_new :: "string \<Rightarrow> string \<Rightarrow> ('c, 'i) hs_client" where
  "hs_client_new port server =
     \<lparr>hs_port = port, hs_server = server, hs_saved_server_certificate_pem = [], hs_saved_certificate = None,
      hs_ctx_sptr = None, hs_socket_sptr = None, hs_success = False\<rparr>"

definition ct_getInstance ::
    "('s, 'c, 'i) contact_env \<Rightarrow> 's certificates option \<Rightarrow> ('s certificates option \<times> 's certificates) result" where
  "ct_getInstance v inst = getInstance (hv_fs (ct_hk v)) (hv_lib (ct_hk v)) (hv_environment (ct_hk v)) inst"

definition makeSecure ::
    "('s, 'c, 'i) contact_env \<Rightarrow> 's certificates option \<Rightarrow> ('c, 'i) hs_client \<Rightarrow>
      ('s certificates option \<times> ('c, 'i) hs_client) result" where
  "makeSecure v inst c =
     rbind (ct_getInstance v inst) (\<lambda>(inst, certificats).
     (let (certificats, bundle) = get_X509_STORE_ptr certificats;
          ctx = tls_context_new\<lparr>tc_verify_peer := True, tc_store := Some (hv_store (ct_hk v))\<rparr> in
      Inr (Some certificats, c\<lparr>hs_ctx_sptr := Some ctx, hs_socket_sptr := Some (Client_Stream ctx None)\<rparr>)))"

text \<open>\<open>SSL_set_tlsext_host_name\<close> on a stream.\<close>

fun set_sni :: "string \<Rightarrow> 'i tls_stream \<Rightarrow> 'i tls_stream" where
  "set_sni host (Client_Stream ctx sni) = Client_Stream ctx (Some host)"
| "set_sni host (Server_Stream i) = Server_Stream i"

text \<open>
  The resolver is synchronous and throws. The name to match, and a verify call-back that only passes on what it
  is given, are put into the context when the stream has been made.
\<close>

definition client_handshake ::
    "error_code + string list \<Rightarrow> ('c, 'i) hs_client \<Rightarrow> (('c, 'i) hs_client \<times> hs_effect list) result" where
  "client_handshake resolved c =
     (case resolved of
        Inl err \<Rightarrow> Inl (System_Error (ec_value err))
      | Inr endpoints \<Rightarrow>
          rbind (deref (hs_socket_sptr c)) (\<lambda>stream.
          rbind (deref (hs_ctx_sptr c)) (\<lambda>ctx.
            Inr (c\<lparr>hs_socket_sptr := Some (set_sni (hs_server c) stream), hs_ctx_sptr := Some (set1_param (hs_server c) ctx)\<rparr>,
                 [HS_Connect endpoints]))))"

definition p_postCallback :: "error_code \<Rightarrow> hs_effect list" where
  "p_postCallback err = [HS_Post_Callback err]"

text \<open>
  The verify call-back, which passes on what OpenSSL found; \<open>subject\<close> is what OpenSSL writes as the name. It is put into
  the context after the stream, so that no handshake of this stream runs it.
\<close>

definition verify_certificate :: "string \<Rightarrow> bool \<Rightarrow> string \<Rightarrow> bool \<times> string" where
  "verify_certificate subject preverified out =
     (preverified, out @ ''XXVerifying '' @ subject @ tool_nl @ ''Preverified '' @ (if preverified then ''1'' else ''0'') @ tool_nl)"

definition client_p_handle_connect :: "error_code \<Rightarrow> hs_effect list" where
  "client_p_handle_connect err = (if \<not> ec_failed err then [HS_Handshake] else p_postCallback err)"

definition saveServerCertificate :: "('c, 'i) x509_lib \<Rightarrow> 'c \<Rightarrow> ('c, 'i) hs_client \<Rightarrow> ('c, 'i) hs_client" where
  "saveServerCertificate xl cert c =
     c\<lparr>hs_saved_server_certificate_pem := xl_pem xl cert, hs_saved_certificate := Some cert\<rparr>"

definition client_p_handle_handshake ::
    "('s, 'c, 'i) contact_env \<Rightarrow> error_code \<Rightarrow> 'c \<Rightarrow> ('c, 'i) hs_client \<Rightarrow> string \<Rightarrow> ('c, 'i) hs_client \<times> string \<times> hs_effect list" where
  "client_p_handle_handshake v err peer c out =
     (if \<not> ec_failed err then
        ((saveServerCertificate (ct_x509 v) peer c)\<lparr>hs_success := True\<rparr>, out, p_postCallback err)
      else (c, (if ct_debug_trace v then out @ ''Handshake failed: '' @ ct_message v err @ tool_nl else out), p_postCallback err))"

section \<open>What the tool finds\<close>

record mitm_result =
  r_ok :: bool
  r_host :: string
  r_orig_cn :: string
  r_orig_san :: string

text \<open>
  Looking up a common name that is not there dereferences the end of the map. The second component is what
  is printed.
\<close>

definition xmitmWorked ::
    "('c, 'i) x509_lib \<Rightarrow> 'c \<Rightarrow> string \<Rightarrow> 'i \<Rightarrow> (mitm_result \<times> string) result" where
  "xmitmWorked xl cert host identity =
     rbind (deref (xl_common_name xl cert)) (\<lambda>orig_cn.
     rbind (deref (xl_identity_common_name xl identity)) (\<lambda>new_cn.
     (let sss = xl_alt_names_member xl cert;
          orig_san_string = (case xl_alt_names xl cert of Some s \<Rightarrow> s | None \<Rightarrow> ''NOVALUE'');
          orig_san2_string = xl_alt_names_member xl cert;
          b3 = matchHostAgainstDnsAltString host orig_san2_string;
          b4 = matchHostAgainstDnsAltString host orig_san_string;
          b5 = matchHostAgainstDnsName host orig_cn;
          printed = (if \<not> ((b3 \<and> b4) \<or> b5)
                     then tool_nl @ tool_nl @ ''orig_cn '' @ orig_cn @ tool_nl @ tool_nl @ ''orig_san2_string '' @ orig_san2_string @ tool_nl @ tool_nl @
                       ''orig_san_string '' @ orig_san_string @ tool_nl @ tool_nl
                     else []) in
      Inr (\<lparr>r_ok = b3 \<or> b5, r_host = host, r_orig_cn = orig_cn, r_orig_san = sss\<rparr>, printed))))"

definition buildMitmCert ::
    "('s, 'c, 'i) contact_env \<Rightarrow> string \<Rightarrow> 'c \<Rightarrow> 's certificates option \<times> string \<Rightarrow>
      ('s certificates option \<times> string \<times> mitm_result) result" where
  "buildMitmCert v host cert s =
     (case s of (inst, out) \<Rightarrow>
        rbind (ct_getInstance v inst) (\<lambda>(inst, certificates).
        rbind (xmitmWorked (ct_x509 v) cert host (build_server_mitm_certificate (hv_lib (ct_hk v)) host cert certificates)) (\<lambda>(r, txt).
          Inr (inst, out @ txt, r))))"

definition error_line :: "('s, 'c, 'i) contact_env \<Rightarrow> string \<Rightarrow> error_code \<Rightarrow> string" where
  "error_line v server err = ''handshake callback : '' @ server @ '' err: ['' @ ct_message v err @ '']'' @ tool_nl"

definition verdict_line :: "string \<Rightarrow> mitm_result \<Rightarrow> string" where
  "verdict_line server r =
     (if r_ok r then ''OK : '' @ server else ''FAILED : '' @ server) @ '' original-CN:  '' @ r_orig_cn r @ tool_nl"

text \<open>The call-back both handshakers are given; the certificate is the one the handshaker has saved by then.\<close>

definition handshake_callback ::
    "('s, 'c, 'i) contact_env \<Rightarrow> string \<Rightarrow> 'c option \<Rightarrow> error_code \<Rightarrow> 's certificates option \<times> string \<Rightarrow>
      ('s certificates option \<times> string) result" where
  "handshake_callback v server saved err s =
     (if ec_failed err then Inr (fst s, snd s @ error_line v server err)
      else
        rbind (deref saved) (\<lambda>cert.
        rbind (buildMitmCert v server cert s) (\<lambda>(inst, out, r).
          Inr (inst, out @ verdict_line server r))))"

text \<open>\<open>io.run()\<close>: the handlers run one after another, each started by the one before, until nothing is left to wait for.\<close>

definition cert_run ::
    "('s, 'c, 'i) contact_env \<Rightarrow> string \<Rightarrow> 's certificates option \<times> string \<Rightarrow> ('c, 'i) hs_client \<Rightarrow>
      ('s certificates option \<times> string) result" where
  "cert_run v server s c =
     (let ne = ct_net v server in
      case client_p_handle_connect (ne_connect ne) of
        [HS_Handshake] \<Rightarrow>
          (let (c, out, posted) = client_p_handle_handshake v (ne_handshake ne) (ne_peer ne) c (snd s) in
           case posted of
             [HS_Post_Callback err] \<Rightarrow> handshake_callback v server (hs_saved_certificate c) err (fst s, out)
           | _ \<Rightarrow> Inr (fst s, out))
      | [HS_Post_Callback err] \<Rightarrow> handshake_callback v server (hs_saved_certificate c) err s
      | _ \<Rightarrow> Inr s)"

definition certContactServer ::
    "('s, 'c, 'i) contact_env \<Rightarrow> string \<Rightarrow> 's certificates option \<times> string \<Rightarrow> ('s certificates option \<times> string) result" where
  "certContactServer v server s =
     rbind (ct_getInstance v (fst s)) (\<lambda>(inst, certificats).
     (let (certificats, bundle) = get_X509_STORE_ptr certificats;
          c = hs_client_new ''https'' server in
      rbind (makeSecure v (Some certificats) c) (\<lambda>(inst, c).
      rbind (client_handshake (ne_resolve (ct_net v server)) c) (\<lambda>(c, effs).
        cert_run v server (inst, snd s) c))))"

definition marvinContactServer ::
    "('s, 'c, 'i) contact_env \<Rightarrow> string \<Rightarrow> 's certificates option \<times> string \<Rightarrow> ('s certificates option \<times> string) result" where
  "marvinContactServer v server s =
     (let ne = ct_net v server in
      rbind (run_handshake (ct_hk v) (ne_connect ne) (ne_handshake ne) (ne_peer ne) (fst s) server) (\<lambda>(inst, h, effs).
        rfold (handshake_callback v server (getServerCertificate h)) (hk_callbacks effs) (inst, snd s)))"

definition contactServer ::
    "bool \<Rightarrow> ('s, 'c, 'i) contact_env \<Rightarrow> string \<Rightarrow> 's certificates option \<times> string \<Rightarrow>
      ('s certificates option \<times> string) result" where
  "contactServer marvin_flag v server s =
     (if marvin_flag then marvinContactServer v server (fst s, snd s @ ''Using marvin handshaker :: '')
      else certContactServer v server s)"

definition handleHostName ::
    "bool \<Rightarrow> ('s, 'c, 'i) contact_env \<Rightarrow> int \<Rightarrow> string \<Rightarrow> 's certificates option \<times> string \<Rightarrow>
      ('s certificates option \<times> string) result" where
  "handleHostName marvin_flag v count host s =
     (if \<not> contains_sub ''//'' host
      then contactServer marvin_flag v host (fst s, snd s @ ''handshake '' @ int_to_string count @ '' with : '' @ host @ '' '')
      else Inr (fst s, snd s @ ''SKIPPING handshake with : '' @ host @ tool_nl))"

text \<open>
  The file: \<open>canonical\<close> throws for a path that is not there; the stream is opened for reading and writing, \<^term>\<open>None\<close>
  when that fails. \<open>tf_shown\<close> is how \<open>boost\<close> prints the path.
\<close>

record tool_fs =
  tf_canonical :: "string \<Rightarrow> string result"
  tf_shown :: "string \<Rightarrow> string"
  tf_is_regular_file :: "string \<Rightarrow> bool"
  tf_open :: "string \<Rightarrow> string option"

fun handle_lines ::
    "bool \<Rightarrow> ('s, 'c, 'i) contact_env \<Rightarrow> int \<Rightarrow> string list \<Rightarrow> 's certificates option \<times> string \<Rightarrow>
      ('s certificates option \<times> string) result" where
  "handle_lines marvin_flag v i [] s = Inr s"
| "handle_lines marvin_flag v i (line # rest) s =
     rbind (handleHostName marvin_flag v i line s) (handle_lines marvin_flag v (i + 1) rest)"

definition handleFile ::
    "tool_fs \<Rightarrow> bool \<Rightarrow> ('s, 'c, 'i) contact_env \<Rightarrow> string \<Rightarrow> 's certificates option \<times> string \<Rightarrow>
      ('s certificates option \<times> string) result" where
  "handleFile tf marvin_flag v file_name s =
     rbind (tf_canonical tf file_name) (\<lambda>xx.
     (let out = snd s;
          out = (if \<not> tf_is_regular_file tf file_name
                 then out @ ''file : '' @ file_name @ '' is not a file or does not exist'' @ tf_shown tf xx @ tool_nl else out) in
      case tf_open tf file_name of
        None \<Rightarrow> Inr (fst s, out @ ''file : '' @ file_name @ '' could not open'' @ tool_nl)
      | Some content \<Rightarrow> handle_lines marvin_flag v 1 (split_string content (CHR 0x0A)) (fst s, out)))"

section \<open>The program\<close>

record hs_options =
  vm_help :: bool
  vm_marvin :: bool
  vm_host :: "string option"
  vm_file :: "string option"

definition handshake_main ::
    "tool_fs \<Rightarrow> string \<Rightarrow> ('s, 'c, 'i) contact_env \<Rightarrow> hs_options \<Rightarrow> 's certificates option \<Rightarrow>
      (int \<times> 's certificates option \<times> string) result" where
  "handshake_main tf desc v vm inst =
     (if vm_help vm then Inr (1, inst, desc @ tool_nl)
      else
        rbind
          (case (vm_host vm, vm_file vm) of
             (Some h, Some f) \<Rightarrow> Inr (inst, ''cannot specify both server and file options'' @ tool_nl)
           | (Some h, None) \<Rightarrow> handleHostName (vm_marvin vm) v 1 h (inst, ''handshake with host : '' @ h @ tool_nl)
           | (None, Some f) \<Rightarrow> handleFile tf (vm_marvin vm) v f (inst, ''handshake with host listed in  : '' @ f @ tool_nl)
           | (None, None) \<Rightarrow> Inr (inst, ''Compression level was not set'' @ tool_nl))
          (\<lambda>(inst, out). Inr (0, inst, out)))"


section \<open>What is printed of a server\<close>

text \<open>
  The report on a server: the first error, or the outcome of the match of the server's own certificate, with
  the identity built by the authority of the store.
\<close>

definition first_error :: "'c net_event \<Rightarrow> error_code" where
  "first_error ne = (if ec_failed (ne_connect ne) then ne_connect ne else ne_handshake ne)"

definition contact_report :: "('s, 'c, 'i) contact_env \<Rightarrow> 's \<Rightarrow> string \<Rightarrow> string result" where
  "contact_report v st server =
     (let ne = ct_net v server; e = first_error ne in
      if ec_failed e then Inr (error_line v server e)
      else rbind (xmitmWorked (ct_x509 v) (ne_peer ne) server (cl_buildMitmIdentity (hv_lib (ct_hk v)) st server (ne_peer ne))) (\<lambda>(r, txt).
        Inr (txt @ verdict_line server r)))"

definition certs_ready :: "('s, 'c, 'i) contact_env \<Rightarrow> 's \<Rightarrow> 's certificates option \<Rightarrow> bool" where
  "certs_ready v st inst \<longleftrightarrow> (\<exists>c. ct_getInstance v inst = Inr (Some c, c) \<and> m_cert_store_sptr c = st)"

lemma certs_ready_Some [simp]: "certs_ready v st (Some c) \<longleftrightarrow> m_cert_store_sptr c = st"
  by (auto simp: certs_ready_def ct_getInstance_def getInstance_def)

lemma certs_readyE:
  assumes "certs_ready v st inst"
  obtains c where "getInstance (hv_fs (ct_hk v)) (hv_lib (ct_hk v)) (hv_environment (ct_hk v)) inst = Inr (Some c, c)"
    and "m_cert_store_sptr c = st"
  using assms by (auto simp: certs_ready_def ct_getInstance_def)

text \<open>Of the outcome of an operation of the tool: what is on the screen, or the exception that ends the program.\<close>

definition tool_screen :: "('s certificates option \<times> string) result \<Rightarrow> string result" where
  "tool_screen r = rbind r (\<lambda>s. Inr (snd s))"

text \<open>The call-back prints the report, given the certificate of the server where there was no error.\<close>

lemma handshake_callback_report:
  assumes "certs_ready v st inst" "ne = ct_net v server"
    and "err = first_error ne \<or> \<not> ec_failed err \<and> \<not> ec_failed (first_error ne)"
    and "\<not> ec_failed (first_error ne) \<Longrightarrow> saved = Some (ne_peer ne)"
  shows "\<exists>inst'. certs_ready v st inst' \<and>
    handshake_callback v server saved err (inst, out) = rbind (contact_report v st server) (\<lambda>t. Inr (inst', out @ t))"
proof (cases "ec_failed (first_error ne)")
  case True
  then have "err = first_error ne" using assms(3) by blast
  then show ?thesis
    using True assms(1,2) by (intro exI [of _ inst]) (simp add: handshake_callback_def contact_report_def Let_def)
next
  case False
  obtain c where c: "getInstance (hv_fs (ct_hk v)) (hv_lib (ct_hk v)) (hv_environment (ct_hk v)) inst = Inr (Some c, c)"
      "m_cert_store_sptr c = st"
    using assms(1) by (rule certs_readyE)
  have "\<not> ec_failed err" "saved = Some (ne_peer ne)" using False assms(3,4) by auto
  moreover have "contact_report v st server = rbind (xmitmWorked (ct_x509 v) (ne_peer ne) server
      (cl_buildMitmIdentity (hv_lib (ct_hk v)) st server (ne_peer ne))) (\<lambda>(r, txt). Inr (txt @ verdict_line server r))"
    using False by (simp add: contact_report_def assms(2) Let_def)
  ultimately show ?thesis
    using c
    by (intro exI [of _ "Some c"])
      (simp add: handshake_callback_def buildMitmCert_def ct_getInstance_def build_server_mitm_certificate_def rbind_assoc
        case_prod_unfold)
qed

lemma marvin_contact_report:
  assumes "certs_ready v st inst"
  shows "\<exists>inst'. certs_ready v st inst' \<and>
    marvinContactServer v server (inst, out) = rbind (contact_report v st server) (\<lambda>t. Inr (inst', out @ t))"
proof -
  define ne where "ne = ct_net v server"
  obtain c where c: "getInstance (hv_fs (ct_hk v)) (hv_lib (ct_hk v)) (hv_environment (ct_hk v)) inst = Inr (Some c, c)"
      "m_cert_store_sptr c = st"
    using assms by (rule certs_readyE)
  obtain inst1 h effs where r: "run_handshake (ct_hk v) (ne_connect ne) (ne_handshake ne) (ne_peer ne) inst server = Inr (inst1, h, effs)"
      "certs_ready v st inst1" "hk_callbacks effs = [if ec_failed (first_error ne) then first_error ne else make_error_ok]"
      "\<not> ec_failed (first_error ne) \<Longrightarrow> getServerCertificate h = Some (ne_peer ne)"
    using run_handshake_outcome [OF c(1), of "ne_connect ne" "ne_handshake ne" "ne_peer ne" server] c assms
    by (auto simp: first_error_def split: if_splits)
  have "(if ec_failed (first_error ne) then first_error ne else make_error_ok) = first_error ne \<or>
     \<not> ec_failed (if ec_failed (first_error ne) then first_error ne else make_error_ok) \<and> \<not> ec_failed (first_error ne)"
    by simp
  from handshake_callback_report [OF r(2) ne_def this r(4)] obtain inst' where "certs_ready v st inst'"
    "handshake_callback v server (getServerCertificate h) (if ec_failed (first_error ne) then first_error ne else make_error_ok) (inst1, out) =
       rbind (contact_report v st server) (\<lambda>t. Inr (inst', out @ t))"
    by blast
  then show ?thesis using r(1,3) by (auto simp: marvinContactServer_def rfold_fun Let_def ne_def [symmetric])
qed

lemma cert_contact_report:
  assumes "certs_ready v st inst" "ne_resolve (ct_net v server) = Inr eps" "\<not> ct_debug_trace v"
  shows "\<exists>inst'. certs_ready v st inst' \<and>
    certContactServer v server (inst, out) = rbind (contact_report v st server) (\<lambda>t. Inr (inst', out @ t))"
proof -
  define ne where "ne = ct_net v server"
  obtain c where c: "getInstance (hv_fs (ct_hk v)) (hv_lib (ct_hk v)) (hv_environment (ct_hk v)) inst = Inr (Some c, c)"
      "m_cert_store_sptr c = st"
    using assms(1) by (rule certs_readyE)
  define c' where "c' = c\<lparr>m_X509_refs := Suc (Suc (m_X509_refs c))\<rparr>"
  have ready: "certs_ready v st (Some c')" using c(2) by (simp add: c'_def)
  obtain cl where run: "certContactServer v server (inst, out) = cert_run v server (Some c', out) cl"
    using c(1) assms(2)
    by (simp add: certContactServer_def makeSecure_def client_handshake_def hs_client_new_def ct_getInstance_def getInstance_def
        get_X509_STORE_ptr_def c'_def Let_def)
  have "\<exists>saved. cert_run v server (Some c', out) cl = handshake_callback v server saved (first_error ne) (Some c', out) \<and>
      (\<not> ec_failed (first_error ne) \<longrightarrow> saved = Some (ne_peer ne))"
    using assms(3)
    by (auto simp: cert_run_def client_p_handle_connect_def client_p_handle_handshake_def p_postCallback_def
        saveServerCertificate_def first_error_def ne_def Let_def)
  then show ?thesis using run handshake_callback_report [OF ready ne_def] by metis
qed


lemma contact_report_run:
  assumes "certs_ready v st inst" "marvin_flag \<or> \<not> isl (ne_resolve (ct_net v server)) \<and> \<not> ct_debug_trace v"
  shows "\<exists>inst'. certs_ready v st inst' \<and>
    contactServer marvin_flag v server (inst, out) =
      rbind (contact_report v st server) (\<lambda>t. Inr (inst', out @ (if marvin_flag then ''Using marvin handshaker :: '' else []) @ t))"
proof (cases marvin_flag)
  case True
  then show ?thesis
    using marvin_contact_report [OF assms(1), of server "out @ ''Using marvin handshaker :: ''"] by (simp add: contactServer_def)
next
  case False
  then obtain eps where "ne_resolve (ct_net v server) = Inr eps" using assms(2) by (cases "ne_resolve (ct_net v server)") auto
  then show ?thesis using False assms cert_contact_report [OF assms(1)] by (simp add: contactServer_def)
qed

section \<open>Properties\<close>

text \<open>
  C26. The two handshakers of the tool agree. Given the certificates, a server whose name resolves and the same
  ends of the connect and of the TLS handshake, both print the same: the first error, or whether the
  certificate the server has shown is for that host, with its common name. Only the one over plain sockets
  stops the program when the name does not resolve.
\<close>

theorem handshakers_agree:
  assumes "certs_ready v st inst" "\<not> ct_debug_trace v"
  shows "case ne_resolve (ct_net v server) of
      Inr eps \<Rightarrow>
        tool_screen (certContactServer v server (inst, out)) = rbind (contact_report v st server) (\<lambda>t. Inr (out @ t)) \<and>
        tool_screen (marvinContactServer v server (inst, out)) = rbind (contact_report v st server) (\<lambda>t. Inr (out @ t))
    | Inl err \<Rightarrow>
        certContactServer v server (inst, out) = Inl (System_Error (ec_value err)) \<and>
        tool_screen (marvinContactServer v server (inst, out)) = rbind (contact_report v st server) (\<lambda>t. Inr (out @ t))"
proof -
  have drop: "tool_screen (rbind m (\<lambda>t. Inr (i, out @ t))) = rbind m (\<lambda>t. Inr (out @ t))" for m and i :: "'a certificates option"
    by (simp add: tool_screen_def rbind_assoc)
  have m: "tool_screen (marvinContactServer v server (inst, out)) = rbind (contact_report v st server) (\<lambda>t. Inr (out @ t))"
    using marvin_contact_report [OF assms(1), of server out] drop by auto
  show ?thesis
  proof (cases "ne_resolve (ct_net v server)")
    case (Inl err)
    obtain c where "getInstance (hv_fs (ct_hk v)) (hv_lib (ct_hk v)) (hv_environment (ct_hk v)) inst = Inr (Some c, c)"
      using assms(1) by (rule certs_readyE)
    then show ?thesis
      using Inl m
      by (simp add: certContactServer_def makeSecure_def client_handshake_def ct_getInstance_def getInstance_def get_X509_STORE_ptr_def Let_def)
  next
    case (Inr eps)
    then show ?thesis using m cert_contact_report [OF assms(1) Inr assms(2), of out] drop by auto
  qed
qed


text \<open>A sample: one server whose certificate has the wildcard name, one with an error, on a made-up library.\<close>

definition sample_contact_env :: "(nat, nat, nat) contact_env" where
  "sample_contact_env =
     \<lparr>ct_hk = \<lparr>hv_config = default_config, hv_fs = sample_fs, hv_lib = sample_cert_lib, hv_environment = Map.empty, hv_store = 0\<rparr>,
      ct_x509 = \<lparr>xl_pem = (\<lambda>c. []), xl_common_name = (\<lambda>c. Some ''*.h.org''), xl_identity_common_name = (\<lambda>i. Some ''a.h.org''),
                 xl_alt_names = (\<lambda>c. None), xl_alt_names_member = (\<lambda>c. [])\<rparr>,
      ct_message = (\<lambda>e. ''refused''), ct_debug_trace = False,
      ct_net = (\<lambda>server. \<lparr>ne_resolve = Inr [''10.0.0.1''],
                          ne_connect = \<lparr>ec_value = (if server = ''bad.org'' then 111 else 0), ec_category = Foreign_Category 0\<rparr>,
                          ne_handshake = make_error_ok, ne_peer = 5\<rparr>)\<rparr>"

definition sample_certificates :: "nat certificates" where
  "sample_certificates = \<lparr>m_cert_store_sptr = 1, m_X509_bundle = [], m_X509_refs = 2\<rparr>"

theorem handshakers_agree_witness:
  "tool_screen (certContactServer sample_contact_env ''a.h.org'' (Some sample_certificates, [])) =
     Inr (''OK : a.h.org original-CN:  *.h.org'' @ tool_nl) \<and>
   tool_screen (marvinContactServer sample_contact_env ''a.h.org'' (Some sample_certificates, [])) =
     Inr (''OK : a.h.org original-CN:  *.h.org'' @ tool_nl)"
proof -
  have "contact_report sample_contact_env 1 ''a.h.org'' = Inr (''OK : a.h.org original-CN:  *.h.org'' @ tool_nl)" by code_simp
  moreover have "certs_ready sample_contact_env 1 (Some sample_certificates)" "\<not> ct_debug_trace sample_contact_env"
    "ne_resolve (ct_net sample_contact_env ''a.h.org'') = Inr [''10.0.0.1'']"
    by (simp_all add: sample_certificates_def sample_contact_env_def)
  ultimately show ?thesis
    using handshakers_agree [of sample_contact_env 1 "Some sample_certificates" "''a.h.org''" "[]"] by simp
qed

text \<open>What the tool prints for one line of the file, and the file as a whole.\<close>

definition host_report :: "bool \<Rightarrow> ('s, 'c, 'i) contact_env \<Rightarrow> 's \<Rightarrow> int \<Rightarrow> string \<Rightarrow> string result" where
  "host_report marvin_flag v st i host =
     (if contains_sub ''//'' host then Inr (''SKIPPING handshake with : '' @ host @ tool_nl)
      else rbind (contact_report v st host) (\<lambda>t.
        Inr (''handshake '' @ int_to_string i @ '' with : '' @ host @ '' '' @
             (if marvin_flag then ''Using marvin handshaker :: '' else []) @ t)))"

lemma handleHostName_report:
  assumes "certs_ready v st inst"
    and "marvin_flag \<or> \<not> isl (ne_resolve (ct_net v host)) \<and> \<not> ct_debug_trace v" "host_report marvin_flag v st i host = Inr t"
  shows "\<exists>inst'. certs_ready v st inst' \<and> handleHostName marvin_flag v i host (inst, out) = Inr (inst', out @ t)"
proof (cases "contains_sub ''//'' host")
  case True
  then show ?thesis using assms(1,3) by (auto simp: handleHostName_def host_report_def)
next
  case False
  then obtain u where u: "contact_report v st host = Inr u"
      "t = ''handshake '' @ int_to_string i @ '' with : '' @ host @ '' '' @ (if marvin_flag then ''Using marvin handshaker :: '' else []) @ u"
    using assms(3) by (auto simp: host_report_def rbind_Inr_iff)
  show ?thesis
    using contact_report_run [OF assms(1,2), of "out @ ''handshake '' @ int_to_string i @ '' with : '' @ host @ '' ''"] False u
    by (simp add: handleHostName_def)
qed

fun file_report :: "bool \<Rightarrow> ('s, 'c, 'i) contact_env \<Rightarrow> 's \<Rightarrow> int \<Rightarrow> string list \<Rightarrow> string result" where
  "file_report marvin_flag v st i [] = Inr []"
| "file_report marvin_flag v st i (host # hosts) =
     rbind (host_report marvin_flag v st i host) (\<lambda>t.
     rbind (file_report marvin_flag v st (i + 1) hosts) (\<lambda>ts. Inr (t @ ts)))"

lemma handle_lines_report:
  assumes "certs_ready v st inst"
    and "list_all (\<lambda>h. marvin_flag \<or> \<not> isl (ne_resolve (ct_net v h)) \<and> \<not> ct_debug_trace v) hosts"
    and "file_report marvin_flag v st i hosts = Inr t"
  shows "\<exists>inst'. handle_lines marvin_flag v i hosts (inst, out) = Inr (inst', out @ t)"
  using assms
proof (induction hosts arbitrary: i inst out t)
  case (Cons h hosts)
  obtain t1 t2 where t: "host_report marvin_flag v st i h = Inr t1" "file_report marvin_flag v st (i + 1) hosts = Inr t2" "t = t1 @ t2"
    using Cons.prems(3) by (auto simp: rbind_Inr_iff)
  obtain inst1 where "certs_ready v st inst1" "handleHostName marvin_flag v i h (inst, out) = Inr (inst1, out @ t1)"
    using handleHostName_report [OF Cons.prems(1) _ t(1)] Cons.prems(2) by auto
  then show ?case using Cons.IH [of inst1 "i + 1" t2 "out @ t1"] Cons.prems(2) t by simp
qed simp



end
