(* ===== verification/Io_Service_Pool.thy ===== *)
theory Io_Service_Pool
  imports Marvin_Prelude
begin

text \<open>
  \<open>marvin/boost_ext/io_service_pool.cpp\<close>: a fixed set of event loops handed out in turn. An event loop is
  represented by whether it has been stopped; the work object that the constructor gives it keeps its
  \<open>run\<close> from returning before that.
\<close>

record io_service_pool =
  io_services :: "bool list"
  next_io_service :: nat

definition io_service_pool_new :: "nat \<Rightarrow> io_service_pool result" where
  "io_service_pool_new pool_size =
     (if pool_size = 0 then Inl Pool_Size_Zero
      else Inr \<lparr>io_services = replicate pool_size False, next_io_service = 0\<rparr>)"

text \<open>\<open>run\<close> returns when every thread has ended, a thread when its event loop has been stopped.\<close>

definition run_returns :: "io_service_pool \<Rightarrow> bool" where
  "run_returns p = list_all (\<lambda>stopped. stopped) (io_services p)"

fun stop_loop :: "nat \<Rightarrow> bool list \<Rightarrow> bool list" where
  "stop_loop 0 ss = ss"
| "stop_loop (Suc i) ss = (stop_loop i ss)[i := True]"

definition pool_stop :: "io_service_pool \<Rightarrow> io_service_pool" where
  "pool_stop p = p\<lparr>io_services := stop_loop (length (io_services p)) (io_services p)\<rparr>"

text \<open>The index of the chosen event loop, and the pool after the choice.\<close>

definition get_io_service :: "io_service_pool \<Rightarrow> (nat \<times> io_service_pool) result" where
  "get_io_service p =
     (if next_io_service p < length (io_services p) then
        (let i = next_io_service p;
             n = Suc i in
         Inr (i, p\<lparr>next_io_service := (if n = length (io_services p) then 0 else n)\<rparr>))
      else Inl Out_Of_Bounds)"

fun get_many :: "nat \<Rightarrow> io_service_pool \<Rightarrow> (nat list \<times> io_service_pool) result" where
  "get_many 0 p = Inr ([], p)"
| "get_many (Suc k) p =
     rbind (get_io_service p) (\<lambda>(i, p). rbind (get_many k p) (\<lambda>(is, p). Inr (i # is, p)))"

lemma get_io_service_ok:
  assumes "next_io_service p = i mod length (io_services p)" "io_services p \<noteq> []"
  shows "get_io_service p = Inr (i mod length (io_services p), p\<lparr>next_io_service := Suc i mod length (io_services p)\<rparr>)"
  using assms by (auto simp: get_io_service_def mod_Suc Let_def)

lemma get_many_ok:
  assumes "next_io_service p = i mod length (io_services p)" "io_services p \<noteq> []"
  shows "get_many k p = Inr (map (\<lambda>j. (i + j) mod length (io_services p)) [0..<k],
           p\<lparr>next_io_service := (i + k) mod length (io_services p)\<rparr>)"
  using assms
proof (induction k arbitrary: i p)
  case 0
  then show ?case by (metis add_0_right get_many.simps(1) io_service_pool.surjective io_service_pool.update_convs(2) list.map(1) upt_0)
next
  case (Suc k)
  let ?n = "length (io_services p)"
  let ?p = "p\<lparr>next_io_service := Suc i mod ?n\<rparr>"
  have "get_many k ?p = Inr (map (\<lambda>j. (Suc i + j) mod ?n) [0..<k], ?p\<lparr>next_io_service := (Suc i + k) mod ?n\<rparr>)"
    using Suc.IH [of ?p "Suc i"] Suc.prems by simp
  moreover have "map (\<lambda>j. (i + j) mod ?n) [0..<Suc k] = i mod ?n # map (\<lambda>j. (Suc i + j) mod ?n) [0..<k]"
    by (simp add: upt_conv_Cons map_Suc_upt [symmetric] del: upt_Suc)
  ultimately show ?case using get_io_service_ok [OF Suc.prems] by simp
qed

lemma stop_loop_all: "k \<le> length ss \<Longrightarrow> length (stop_loop k ss) = length ss \<and> (\<forall>i<k. stop_loop k ss ! i)"
  by (induction k) (auto simp: less_Suc_eq nth_list_update)

text \<open>
  The pool is fair and can be stopped: a pool of no loops is refused; otherwise any number of requests
  is served and the \<open>j\<close>-th of them gets loop \<open>j\<close> modulo the size of the pool; \<open>run\<close> does not return before
  \<open>stop\<close> and does after it.
\<close>

theorem pool_round_robin:
  "case io_service_pool_new n of
     Inl e \<Rightarrow> n = 0 \<and> e = Pool_Size_Zero
   | Inr p \<Rightarrow> n > 0 \<and> (\<exists>p'. get_many k p = Inr (map (\<lambda>j. j mod n) [0..<k], p') \<and>
       \<not> run_returns p' \<and> run_returns (pool_stop p'))"
proof (cases "n = 0")
  case False
  let ?p = "\<lparr>io_services = replicate n False, next_io_service = 0\<rparr>"
  have "get_many k ?p = Inr (map (\<lambda>j. j mod n) [0..<k], ?p\<lparr>next_io_service := k mod n\<rparr>)"
    using get_many_ok [of ?p 0 k] False by simp
  moreover have "run_returns (pool_stop q)" for q
    using stop_loop_all [of "length (io_services q)" "io_services q"]
    by (simp add: run_returns_def pool_stop_def list_all_length)
  moreover have "\<not> run_returns (?p\<lparr>next_io_service := k mod n\<rparr>)" using False by (auto simp: run_returns_def list_all_length)
  ultimately show ?thesis using False by (simp add: io_service_pool_new_def)
qed (simp add: io_service_pool_new_def)

end
