(* ===== verification/Pipe_Collector.thy ===== *)
theory Pipe_Collector
  imports Collectors "HOL-Library.Multiset"
begin

text \<open>
  \<open>marvin/collector/pipe_collector.cpp\<close>: the collector that copies exchanges to a named pipe. It is a singleton
  made by double-checked locking, so \<open>getInstance\<close> is a step function over the atomic pointer, the mutex and
  the program counters of the threads that call it, with one step per access to shared data. Which paths
  the operating system lets a writer open without blocking is an argument of the steps and may change
  between them. The collected exchanges are closures posted to the event loop; the strand lets one run at
  a time, in any order. Its texts are those of \<open>Collectors\<close>.
\<close>

section \<open>The collector and its construction\<close>

text \<open>
  The stream \<open>m_out_pipe\<close> is the path it was opened with and the texts written to it, \<^term>\<open>None\<close> for a text with
  a body that was never written.
\<close>

record pipe_collector =
  m_out_path :: string
  m_out_pipe :: "string option list"
  m_pipe_open :: bool

text \<open>\<open>open(path, O_WRONLY | O_NONBLOCK)\<close> adds the path to the open descriptors when it succeeds.\<close>

definition open_nonblock :: "(string \<Rightarrow> bool) \<Rightarrow> string \<Rightarrow> string list \<Rightarrow> string list option" where
  "open_nonblock can_open path fds = (if can_open path then Some (path # fds) else None)"

definition testPipeReaderExists :: "(string \<Rightarrow> bool) \<Rightarrow> string \<Rightarrow> string list \<Rightarrow> (string list \<times> bool) result" where
  "testPipeReaderExists can_open pipeName fds =
     (case open_nonblock can_open pipeName fds of
        None \<Rightarrow> Inl No_Pipe_Reader
      | Some fds' \<Rightarrow> Inr (remove1 pipeName fds', True))"

text \<open>
  The constructor: the descriptor of its own first \<open>open\<close> is never closed. The two attempts see the same answer of
  the operating system.
\<close>

definition PipeCollector_new ::
    "(string \<Rightarrow> bool) \<Rightarrow> string \<Rightarrow> string list \<Rightarrow> (string list \<times> pipe_collector) result" where
  "PipeCollector_new can_open s_pipe_path fds =
     (let fds = (case open_nonblock can_open s_pipe_path fds of None \<Rightarrow> fds | Some fds' \<Rightarrow> fds') in
      rbind (testPipeReaderExists can_open s_pipe_path fds) (\<lambda>(fds, b).
        if b then Inr (s_pipe_path # fds, \<lparr>m_out_path = s_pipe_path, m_out_pipe = [], m_pipe_open = True\<rparr>)
        else Inr (fds, \<lparr>m_out_path = [], m_out_pipe = [], m_pipe_open = False\<rparr>)))"

lemma PipeCollector_new_cases:
  "PipeCollector_new can_open p fds =
     (if can_open p then Inr (p # p # fds, \<lparr>m_out_path = p, m_out_pipe = [], m_pipe_open = True\<rparr>)
      else Inl No_Pipe_Reader)"
  by (simp add: PipeCollector_new_def testPipeReaderExists_def open_nonblock_def)

section \<open>The singleton\<close>

text \<open>Where a thread is in \<open>getInstance\<close>: before each of its accesses to the pointer, the mutex and the heap.\<close>

datatype gi_pc =
    G_Idle
  | G_First_Load
  | G_Lock
  | G_Second_Load
  | G_New
  | G_Store nat
  | G_Unlock "nat result"

record gi_state =
  s_atomic_instance :: "nat option"
  s_mutex :: "nat option"
  s_pipe_path :: string
  gi_objects :: "pipe_collector list"
  gi_fds :: "string list"
  gi_at :: "nat \<Rightarrow> gi_pc"
  gi_results :: "(nat \<times> nat result) list"

definition gi_init :: gi_state where
  "gi_init = \<lparr>s_atomic_instance = None, s_mutex = None, s_pipe_path = [], gi_objects = [], gi_fds = [],
              gi_at = (\<lambda>t. G_Idle), gi_results = []\<rparr>"

definition goto :: "nat \<Rightarrow> gi_pc \<Rightarrow> gi_state \<Rightarrow> gi_state" where
  "goto t pc s = s\<lparr>gi_at := (gi_at s)(t := pc)\<rparr>"

definition gi_return :: "nat \<Rightarrow> nat result \<Rightarrow> gi_state \<Rightarrow> gi_state" where
  "gi_return t r s = goto t G_Idle (s\<lparr>gi_results := gi_results s @ [(t, r)]\<rparr>)"

text \<open>
  One step of a thread, \<^term>\<open>None\<close> while it has to wait for the mutex. The address of an object is its place in the
  list of objects made; a constructor that throws leaves through the \<open>lock_guard\<close>.
\<close>

definition pipe_getInstance_step :: "(string \<Rightarrow> bool) \<Rightarrow> nat \<Rightarrow> gi_state \<Rightarrow> gi_state option" where
  "pipe_getInstance_step can_open t s =
     (case gi_at s t of
        G_Idle \<Rightarrow> Some (goto t G_First_Load s)
      | G_First_Load \<Rightarrow>
          (case s_atomic_instance s of
             Some a \<Rightarrow> Some (gi_return t (Inr a) s)
           | None \<Rightarrow> Some (goto t G_Lock s))
      | G_Lock \<Rightarrow>
          (case s_mutex s of
             None \<Rightarrow> Some (goto t G_Second_Load (s\<lparr>s_mutex := Some t\<rparr>))
           | Some u \<Rightarrow> None)
      | G_Second_Load \<Rightarrow>
          (case s_atomic_instance s of
             Some a \<Rightarrow> Some (goto t (G_Unlock (Inr a)) s)
           | None \<Rightarrow> Some (goto t G_New s))
      | G_New \<Rightarrow>
          (case PipeCollector_new can_open (s_pipe_path s) (gi_fds s) of
             Inl e \<Rightarrow> Some (goto t (G_Unlock (Inl e)) s)
           | Inr (fds, c) \<Rightarrow>
               Some (goto t (G_Store (length (gi_objects s))) (s\<lparr>gi_fds := fds, gi_objects := gi_objects s @ [c]\<rparr>)))
      | G_Store a \<Rightarrow> Some (goto t (G_Unlock (Inr a)) (s\<lparr>s_atomic_instance := Some a\<rparr>))
      | G_Unlock r \<Rightarrow> Some (gi_return t r (s\<lparr>s_mutex := None\<rparr>)))"

definition configSet_PipePath :: "string \<Rightarrow> gi_state \<Rightarrow> gi_state" where
  "configSet_PipePath path s = s\<lparr>s_pipe_path := path\<rparr>"

text \<open>Any number of threads, each calling any number of times, and the path set at any time.\<close>

inductive pipe_reachable :: "gi_state \<Rightarrow> bool" where
  start: "pipe_reachable gi_init"
| thread: "pipe_reachable s \<Longrightarrow> pipe_getInstance_step can_open t s = Some s' \<Longrightarrow> pipe_reachable s'"
| configure: "pipe_reachable s \<Longrightarrow> pipe_reachable (configSet_PipePath path s)"

section \<open>The invariant of the singleton\<close>

definition holds_lock :: "gi_pc \<Rightarrow> bool" where
  "holds_lock pc = (case pc of G_Idle \<Rightarrow> False | G_First_Load \<Rightarrow> False | G_Lock \<Rightarrow> False | _ \<Rightarrow> True)"

text \<open>What the pointer and the list of objects are, by where the holder of the mutex is.\<close>

definition result_ok :: "gi_state \<Rightarrow> nat result \<Rightarrow> bool" where
  "result_ok s r \<longleftrightarrow> r = Inl No_Pipe_Reader \<or> r = Inr 0 \<and> s_atomic_instance s = Some 0"

fun pc_ok :: "gi_state \<Rightarrow> gi_pc \<Rightarrow> bool" where
  "pc_ok s G_New \<longleftrightarrow> s_atomic_instance s = None \<and> gi_objects s = []"
| "pc_ok s (G_Store a) \<longleftrightarrow> a = 0 \<and> s_atomic_instance s = None \<and> length (gi_objects s) = 1"
| "pc_ok s (G_Unlock r) \<longleftrightarrow> result_ok s r"
| "pc_ok s _ \<longleftrightarrow> True"

fun is_store :: "gi_pc \<Rightarrow> bool" where
  "is_store (G_Store a) \<longleftrightarrow> True"
| "is_store _ \<longleftrightarrow> False"

definition storing :: "gi_state \<Rightarrow> bool" where
  "storing s \<longleftrightarrow> (\<exists>t. is_store (gi_at s t))"

definition shared_ok :: "gi_state \<Rightarrow> bool" where
  "shared_ok s \<longleftrightarrow>
     (case s_atomic_instance s of
        None \<Rightarrow> gi_objects s = [] \<or> storing s
      | Some a \<Rightarrow> a = 0 \<and> length (gi_objects s) = 1) \<and>
     list_all (\<lambda>(t, r). result_ok s r) (gi_results s) \<and>
     list_all (\<lambda>c. m_pipe_open c \<and> m_out_pipe c = []) (gi_objects s) \<and>
     length (gi_fds s) = 2 * length (gi_objects s)"

definition gi_inv :: "gi_state \<Rightarrow> bool" where
  "gi_inv s \<longleftrightarrow>
     (\<forall>t. holds_lock (gi_at s t) \<longleftrightarrow> s_mutex s = Some t) \<and> (\<forall>t. pc_ok s (gi_at s t)) \<and> shared_ok s"

lemma goto_simps [simp]:
  "gi_at (goto t pc s) = (gi_at s)(t := pc)" "s_mutex (goto t pc s) = s_mutex s"
  "s_atomic_instance (goto t pc s) = s_atomic_instance s" "gi_objects (goto t pc s) = gi_objects s"
  "gi_results (goto t pc s) = gi_results s" "gi_fds (goto t pc s) = gi_fds s" "s_pipe_path (goto t pc s) = s_pipe_path s"
  by (simp_all add: goto_def)

lemma result_ok_cong: "s_atomic_instance s = s_atomic_instance s' \<Longrightarrow> result_ok s r = result_ok s' r"
  by (simp add: result_ok_def)

lemma pc_ok_cong:
  "s_atomic_instance s = s_atomic_instance s' \<Longrightarrow> gi_objects s = gi_objects s' \<Longrightarrow> pc_ok s pc = pc_ok s' pc"
  by (cases pc) (simp_all add: result_ok_def)

lemma pc_ok_outside: "\<not> holds_lock pc \<Longrightarrow> pc_ok s pc"
  by (cases pc) (simp_all add: holds_lock_def)

lemma is_store_holds: "is_store pc \<Longrightarrow> holds_lock pc"
  by (cases pc) (simp_all add: holds_lock_def)

lemma storing_holder:
  assumes "gi_inv s" "s_mutex s = Some t \<or> s_mutex s = None"
  shows "storing s \<longleftrightarrow> is_store (gi_at s t)"
    and "gi_at s1 = gi_at s \<Longrightarrow> storing (goto t pc s1) \<longleftrightarrow> is_store pc"
proof -
  have "u = t" if "is_store (gi_at s u)" for u
    using is_store_holds [OF that] assms by (auto simp: gi_inv_def)
  then show "storing s \<longleftrightarrow> is_store (gi_at s t)"
    and "gi_at s1 = gi_at s \<Longrightarrow> storing (goto t pc s1) \<longleftrightarrow> is_store pc"
    by (auto simp: storing_def)
qed

text \<open>A thread that does not hold the mutex moves on without touching what the holder relies on.\<close>

lemma outside_step:
  assumes "gi_inv s" "\<not> holds_lock (gi_at s t)" "\<not> holds_lock pc" "list_all (\<lambda>(t, r). result_ok s r) rs"
  shows "gi_inv (goto t pc (s\<lparr>gi_results := rs\<rparr>))"
proof -
  let ?s = "goto t pc (s\<lparr>gi_results := rs\<rparr>)"
  have c: "pc_ok ?s p = pc_ok s p" "result_ok ?s r = result_ok s r" for p r
    by (rule pc_ok_cong result_ok_cong; simp)+
  have "storing ?s" if st: "storing s"
  proof -
    obtain u where "is_store (gi_at s u)" using st by (auto simp: storing_def)
    then show ?thesis using assms(2) is_store_holds by (auto simp: storing_def intro!: exI [of _ u])
  qed
  then have "shared_ok ?s" using assms(1,4) by (auto simp: gi_inv_def shared_ok_def c split: option.splits)
  then show ?thesis using assms by (auto simp: gi_inv_def c pc_ok_outside)
qed

text \<open>The thread that holds the mutex or takes it free is the only one with a clause, and may change everything.\<close>

lemma holder_step:
  assumes "gi_inv s" "s_mutex s = Some t \<or> s_mutex s = None" "gi_at s1 = gi_at s"
    and "s_mutex s1 = (if holds_lock pc then Some t else None)" "pc_ok s1 pc" "shared_ok (goto t pc s1)"
  shows "gi_inv (goto t pc s1)"
proof -
  have o: "\<not> holds_lock (gi_at s u)" if "u \<noteq> t" for u using that assms(1,2) by (auto simp: gi_inv_def)
  have "pc_ok (goto t pc s1) p = pc_ok s1 p" for p by (rule pc_ok_cong) simp_all
  then show ?thesis using assms o pc_ok_outside by (auto simp: gi_inv_def)
qed

lemma shared_ok_goto:
  assumes "gi_inv s" "s_mutex s = Some t \<or> s_mutex s = None" "gi_at s1 = gi_at s"
  shows "shared_ok (goto t pc s1) \<longleftrightarrow>
     (case s_atomic_instance s1 of
        None \<Rightarrow> gi_objects s1 = [] \<or> is_store pc
      | Some a \<Rightarrow> a = 0 \<and> length (gi_objects s1) = 1) \<and>
     list_all (\<lambda>(t, r). result_ok s1 r) (gi_results s1) \<and>
     list_all (\<lambda>c. m_pipe_open c \<and> m_out_pipe c = []) (gi_objects s1) \<and>
     length (gi_fds s1) = 2 * length (gi_objects s1)"
proof -
  have "result_ok (goto t pc s1) r = result_ok s1 r" for r by (rule result_ok_cong) simp
  then show ?thesis by (simp add: shared_ok_def storing_holder(2) [OF assms] split: option.split)
qed

lemma gi_inv_step:
  assumes inv: "gi_inv s" and st: "pipe_getInstance_step can_open t s = Some s'"
  shows "gi_inv s'"
proof (cases "holds_lock (gi_at s t)")
  case False
  have S: "shared_ok s" using inv by (simp add: gi_inv_def)
  note out = outside_step [OF inv False]
  show ?thesis
  proof (cases "gi_at s t = G_Lock")
    case True
    then have "s_mutex s = None" "s' = goto t G_Second_Load (s\<lparr>s_mutex := Some t\<rparr>)"
      using st by (auto simp: pipe_getInstance_step_def split: option.splits)
    then show ?thesis
      using S [unfolded shared_ok_def result_ok_def] storing_holder(1) [OF inv, of t] True
      by (auto intro!: holder_step [OF inv] simp: shared_ok_goto [OF inv] holds_lock_def result_ok_def split: option.splits)
  next
    case G: False
    then show ?thesis
      using st S False out [of G_First_Load "gi_results s"] out [of G_Lock "gi_results s"]
        out [of G_Idle "gi_results s @ [(t, Inr 0)]"]
      by (cases "gi_at s t")
        (auto simp: pipe_getInstance_step_def holds_lock_def shared_ok_def gi_return_def result_ok_def split: option.splits)
  qed
next
  case True
  have m: "s_mutex s = Some t" and P: "pc_ok s (gi_at s t)" and S: "shared_ok s"
    using inv True by (simp_all add: gi_inv_def)
  note hs = holder_step [OF inv] and sh = shared_ok_goto [OF inv] 
    and S' = S [unfolded shared_ok_def result_ok_def storing_holder(1) [OF inv disjI1 [OF m]]]
  show ?thesis
  proof (cases "gi_at s t")
    case G_Second_Load
    then show ?thesis using st S' m
      by (auto intro!: hs simp: sh pipe_getInstance_step_def holds_lock_def result_ok_def split: option.splits)
  next
    case G_New
    then show ?thesis using st S' m P
      by (auto intro!: hs simp: sh pipe_getInstance_step_def PipeCollector_new_cases holds_lock_def result_ok_def
          split: option.splits if_splits)
  next
    case (G_Store a)
    then show ?thesis using st S' m P
      by (auto intro!: hs simp: sh pipe_getInstance_step_def holds_lock_def result_ok_def list_all_iff
          split: option.splits)
  next
    case (G_Unlock r)
    then show ?thesis using st S' m P
      by (auto intro!: hs simp: sh pipe_getInstance_step_def gi_return_def holds_lock_def result_ok_def
          split: option.splits)
  qed (use True in \<open>simp_all add: holds_lock_def\<close>)
qed


lemma pipe_reachable_inv: "pipe_reachable s \<Longrightarrow> gi_inv s"
proof (induction rule: pipe_reachable.induct)
  case start
  show ?case by (simp add: gi_inv_def gi_init_def holds_lock_def shared_ok_def)
next
  case (thread s can_open t s')
  then show ?case using gi_inv_step by blast
next
  case (configure s path)
  let ?s = "configSet_PipePath path s"
  have c: "pc_ok ?s p = pc_ok s p" "result_ok ?s r = result_ok s r" "storing ?s = storing s" for p r
    by (cases p) (simp_all add: configSet_PipePath_def storing_def result_ok_def)
  show ?case using configure.IH unfolding gi_inv_def shared_ok_def c by (simp add: configSet_PipePath_def split: option.splits)
qed

lemma some_thread_moves:
  assumes "gi_inv s" "gi_at s t \<noteq> G_Idle"
  shows "\<exists>u. gi_at s u \<noteq> G_Idle \<and> pipe_getInstance_step can_open u s \<noteq> None"
proof (cases "s_mutex s")
  case None
  then show ?thesis
    using assms(2)
    by (intro exI [of _ t]) (auto simp: pipe_getInstance_step_def split: gi_pc.split option.split sum.split prod.split)
next
  case (Some u)
  then have "holds_lock (gi_at s u)" using assms(1) by (auto simp: gi_inv_def)
  then show ?thesis
    by (intro exI [of _ u])
      (auto simp: pipe_getInstance_step_def holds_lock_def split: gi_pc.splits option.split sum.split prod.split)
qed

section \<open>Collecting\<close>

type_synonym exchange_arg = "string \<times> string \<times> message \<times> message"

record pipe_run =
  pr_posted :: "exchange_arg list"
  pr_pipe :: pipe_collector
  pr_cout :: "string option list"

definition pipe_collect :: "exchange_arg \<Rightarrow> pipe_run \<Rightarrow> pipe_run" where
  "pipe_collect a s = s\<lparr>pr_posted := pr_posted s @ [a]\<rparr>"

text \<open>One posted closure runs on the strand.\<close>

definition pipe_posted :: "(int \<Rightarrow> string) \<Rightarrow> exchange_arg \<Rightarrow> pipe_run \<Rightarrow> pipe_run result" where
  "pipe_posted mstr a s =
     (case a of (scheme, host, req, resp) \<Rightarrow>
        rbind (pipe_posted_collect (m_pipe_open (pr_pipe s)) mstr scheme host req resp) (\<lambda>r.
          Inr (case r of
             None \<Rightarrow> s
           | Some txt \<Rightarrow>
               s\<lparr>pr_pipe := (pr_pipe s)\<lparr>m_out_pipe := m_out_pipe (pr_pipe s) @ [txt]\<rparr>,
                 pr_cout := pr_cout s @ [map_option (\<lambda>w. w @ endl) txt]\<rparr>)))"

datatype pipe_event = P_Collect exchange_arg | P_Run nat

text \<open>The event loop picks any posted closure; an event that is not possible does nothing.\<close>

fun pipe_step :: "(int \<Rightarrow> string) \<Rightarrow> pipe_event \<Rightarrow> pipe_run \<Rightarrow> pipe_run result" where
  "pipe_step mstr (P_Collect a) s = Inr (pipe_collect a s)"
| "pipe_step mstr (P_Run i) s =
     (if i < length (pr_posted s)
      then pipe_posted mstr (pr_posted s ! i) (s\<lparr>pr_posted := take i (pr_posted s) @ drop (Suc i) (pr_posted s)\<rparr>)
      else Inr s)"

fun pipe_collected :: "pipe_event list \<Rightarrow> exchange_arg list" where
  "pipe_collected [] = []"
| "pipe_collected (P_Collect a # es) = a # pipe_collected es"
| "pipe_collected (P_Run i # es) = pipe_collected es"

text \<open>The text of an exchange, where the code does not throw.\<close>

definition pipe_text :: "(int \<Rightarrow> string) \<Rightarrow> exchange_arg \<Rightarrow> string option" where
  "pipe_text mstr a =
     (case a of (scheme, host, req, resp) \<Rightarrow>
        case pipe_posted_collect True mstr scheme host req resp of Inr (Some txt) \<Rightarrow> txt | _ \<Rightarrow> None)"

lemma pipe_posted_ok:
  assumes "pipe_posted mstr a s = Inr s'" "m_pipe_open (pr_pipe s)"
  shows "pr_posted s' = pr_posted s" "m_pipe_open (pr_pipe s')"
    "m_out_pipe (pr_pipe s') = m_out_pipe (pr_pipe s) @ [pipe_text mstr a]"
  using assms
  by (auto simp: pipe_posted_def pipe_text_def pipe_posted_collect_def rbind_Inr_iff Let_def split: prod.splits)

text \<open>What is posted and what is written is what was collected, each exchange once.\<close>

lemma pipe_step_count:
  assumes "pipe_step mstr e s = Inr s'" "m_pipe_open (pr_pipe s)"
  shows "m_pipe_open (pr_pipe s')"
    "mset (m_out_pipe (pr_pipe s')) + image_mset (pipe_text mstr) (mset (pr_posted s')) =
     mset (m_out_pipe (pr_pipe s)) + image_mset (pipe_text mstr) (mset (pr_posted s) + mset (pipe_collected [e]))"
proof -
  have "m_pipe_open (pr_pipe s') \<and>
     mset (m_out_pipe (pr_pipe s')) + image_mset (pipe_text mstr) (mset (pr_posted s')) =
     mset (m_out_pipe (pr_pipe s)) + image_mset (pipe_text mstr) (mset (pr_posted s) + mset (pipe_collected [e]))"
  proof (cases e)
    case (P_Collect a)
    then show ?thesis using assms by (auto simp: pipe_collect_def)
  next
    case (P_Run i)
    show ?thesis
    proof (cases "i < length (pr_posted s)")
      case True
      let ?xs = "pr_posted s"
      have "mset ?xs = mset (take i ?xs @ ?xs ! i # drop (Suc i) ?xs)" using id_take_nth_drop [OF True] by metis
      then have "mset ?xs = add_mset (?xs ! i) (mset (take i ?xs @ drop (Suc i) ?xs))" by simp
      then show ?thesis using assms P_Run True pipe_posted_ok [of mstr "?xs ! i" _ s'] by auto
    qed (use assms P_Run in simp)
  qed
  then show "m_pipe_open (pr_pipe s')" and
    "mset (m_out_pipe (pr_pipe s')) + image_mset (pipe_text mstr) (mset (pr_posted s')) =
     mset (m_out_pipe (pr_pipe s)) + image_mset (pipe_text mstr) (mset (pr_posted s) + mset (pipe_collected [e]))" by blast+
qed

lemma pipe_run_count:
  assumes "rfold (pipe_step mstr) es s = Inr s'" "m_pipe_open (pr_pipe s)"
  shows "m_pipe_open (pr_pipe s') \<and>
    mset (m_out_pipe (pr_pipe s')) + image_mset (pipe_text mstr) (mset (pr_posted s')) =
    mset (m_out_pipe (pr_pipe s)) + image_mset (pipe_text mstr) (mset (pr_posted s) + mset (pipe_collected es))"
  using assms
proof (induction es arbitrary: s)
  case (Cons e es)
  then obtain s1 where s1: "pipe_step mstr e s = Inr s1" "rfold (pipe_step mstr) es s1 = Inr s'"
    by (auto simp: rbind_Inr_iff)
  have "pipe_collected (e # es) = pipe_collected [e] @ pipe_collected es" by (cases e) simp_all
  then show ?case using Cons.IH [OF s1(2)] pipe_step_count [OF s1(1) Cons.prems(2)] by (simp add: ac_simps)
qed simp

section \<open>Properties\<close>

text \<open>
  C24. The pipe collector is made once. However the threads that call \<open>getInstance\<close> interleave, and whenever the
  path is set and the pipe has a reader or not: only one thread is behind the mutex at a time, at most
  one collector is ever constructed, every call that returns gives that one, every other call has thrown
  for want of a reader, and no call is stuck: a thread that has called can go on or waits for one that
  can. The collector there is has its pipe open (the branch that leaves it closed is never taken), and two
  descriptors are then open although the collector uses one.
\<close>

theorem pipe_collector_made_once:
  assumes "pipe_reachable s"
  shows "(\<forall>t u. holds_lock (gi_at s t) \<and> holds_lock (gi_at s u) \<longrightarrow> t = u) \<and>
    length (gi_objects s) \<le> 1 \<and>
    list_all (\<lambda>(t, r). r = Inl No_Pipe_Reader \<or> r = Inr 0 \<and> s_atomic_instance s = Some 0 \<and> length (gi_objects s) = 1) (gi_results s) \<and>
    list_all m_pipe_open (gi_objects s) \<and> length (gi_fds s) = 2 * length (gi_objects s) \<and>
    (\<forall>t. gi_at s t \<noteq> G_Idle \<longrightarrow> (\<exists>u. gi_at s u \<noteq> G_Idle \<and> pipe_getInstance_step can_open u s \<noteq> None))"
proof -
  have inv: "gi_inv s" by (rule pipe_reachable_inv [OF assms])
  then have H: "holds_lock (gi_at s t) \<longleftrightarrow> s_mutex s = Some t" and P: "pc_ok s (gi_at s t)" and S: "shared_ok s" for t
    by (simp_all add: gi_inv_def)
  have "length (gi_objects s) \<le> 1"
  proof (cases "storing s")
    case True
    then obtain t where t: "is_store (gi_at s t)" by (auto simp: storing_def)
    then show ?thesis using P [of t] by (cases "gi_at s t") auto
  qed (use S in \<open>auto simp: shared_ok_def split: option.splits\<close>)
  moreover have "list_all (\<lambda>(t, r). r = Inl No_Pipe_Reader \<or> r = Inr 0 \<and> s_atomic_instance s = Some 0 \<and> length (gi_objects s) = 1) (gi_results s)"
    using S by (auto simp: shared_ok_def result_ok_def list_all_iff split: option.splits)
  ultimately show ?thesis using H S some_thread_moves [OF inv] by (auto simp: shared_ok_def list_all_iff)
qed

text \<open>Two threads meet: both see no object, the second waits, gets the object of the first and makes none.\<close>

definition gi_schedule :: "nat list \<Rightarrow> gi_state \<Rightarrow> gi_state" where
  "gi_schedule ts s = fold (\<lambda>t s. case pipe_getInstance_step (\<lambda>p. True) t s of None \<Rightarrow> s | Some s' \<Rightarrow> s') ts s"

lemma gi_schedule_simps:
  "gi_schedule [] s = s"
  "pipe_getInstance_step (\<lambda>p. True) t s = r \<Longrightarrow>
     gi_schedule (t # ts) s = (case r of None \<Rightarrow> gi_schedule ts s | Some s' \<Rightarrow> gi_schedule ts s')"
  by (auto simp: gi_schedule_def split: option.split)

lemma gi_schedule_reachable: "pipe_reachable s \<Longrightarrow> pipe_reachable (gi_schedule ts s)"
  by (induction ts arbitrary: s) (auto simp: gi_schedule_def intro: pipe_reachable.thread split: option.split)

theorem pipe_collector_made_once_witness:
  "let s = gi_schedule [0, 1, 0, 1, 0, 1, 0, 0, 1, 0, 0, 1, 1, 1] (configSet_PipePath ''/tmp/p'' gi_init) in
   gi_results s = [(0, Inr 0), (1, Inr 0)] \<and> length (gi_objects s) \<le> 1"
proof -
  let ?s = "gi_schedule [0, 1, 0, 1, 0, 1, 0, 0, 1, 0, 0, 1, 1, 1] (configSet_PipePath ''/tmp/p'' gi_init)"
  have "pipe_reachable ?s" by (intro gi_schedule_reachable pipe_reachable.configure pipe_reachable.start)
  moreover have "gi_results ?s = [(0, Inr 0), (1, Inr 0)]"
    by (simp add: gi_schedule_simps pipe_getInstance_step_def goto_def gi_return_def gi_init_def configSet_PipePath_def
        PipeCollector_new_cases)
  ultimately show ?thesis using pipe_collector_made_once [of ?s "\<lambda>p. True"] unfolding Let_def by blast
qed

text \<open>
  Exchanges collected while the event loop runs are each written to the pipe once and whole, in some order; what
  is not yet written is still posted.
\<close>

theorem pipe_receives_every_exchange:
  assumes "rfold (pipe_step mstr) es \<lparr>pr_posted = [], pr_pipe = p, pr_cout = []\<rparr> = Inr s"
    and "m_pipe_open p" "m_out_pipe p = []"
  shows "mset (m_out_pipe (pr_pipe s)) + image_mset (pipe_text mstr) (mset (pr_posted s)) =
    image_mset (pipe_text mstr) (mset (pipe_collected es))"
  using pipe_run_count [OF assms(1)] assms(2,3) by simp

end
