(* ===== verification/Helpers_Fs.thy ===== *)
theory Helpers_Fs
  imports Marvin_Prelude
begin

text \<open>
  \<open>marvin/error_handler\<close>, the exception every \<open>MARVIN_THROW\<close> raises and its text, and \<open>marvin/helpers/helpers_fs.cpp\<close>,
  the helpers for files and directories. The calls of the operating system are an argument over an abstract
  file system; the names that the compiler gives to a function and a file are arguments too.
\<close>

section \<open>The error handler\<close>

definition error_newline :: string where
  "error_newline = [CHR 0x0A]"

record src_place =
  sp_function :: string
  sp_file :: string

definition error_text :: "string \<Rightarrow> string \<Rightarrow> int \<Rightarrow> string \<Rightarrow> string" where
  "error_text func file lineno msg =
     ''Error in function: '' @ func @ '' file: '' @ file @ '' at lineNo: '' @ int_to_string lineno @ error_newline @
     ''Message: ['' @ msg @ '']''"

definition errorHandler :: "string \<Rightarrow> string \<Rightarrow> int \<Rightarrow> string \<Rightarrow> 'a result" where
  "errorHandler func file lineno msg = Inl (Marvin_Exception (error_text func file lineno msg))"

text \<open>\<open>what()\<close> gives a C string, which ends at the first null character of the message.\<close>

fun exception_what :: "exn \<Rightarrow> string option" where
  "exception_what (Marvin_Exception errMessage) = Some (takeWhile (\<lambda>c. c \<noteq> CHR 0x00) errMessage)"
| "exception_what _ = None"

definition MARVIN_THROW :: "src_place \<Rightarrow> int \<Rightarrow> string \<Rightarrow> 'a result" where
  "MARVIN_THROW pl lineno msg = errorHandler (sp_function pl) (sp_file pl) lineno msg"

definition MARVIN_IFTRUE_MARVIN_THROW :: "src_place \<Rightarrow> int \<Rightarrow> bool \<Rightarrow> string \<Rightarrow> unit result" where
  "MARVIN_IFTRUE_MARVIN_THROW pl lineno v msg =
     (if v then errorHandler (sp_function pl) (sp_file pl) lineno msg else Inr ())"

definition MARVIN_IFFALSE_MARVIN_THROW :: "src_place \<Rightarrow> int \<Rightarrow> bool \<Rightarrow> string \<Rightarrow> unit result" where
  "MARVIN_IFFALSE_MARVIN_THROW pl lineno v msg =
     (if \<not> v then errorHandler (sp_function pl) (sp_file pl) lineno msg else Inr ())"

section \<open>Files and directories\<close>

datatype file_kind = S_REG | S_DIR | S_OTHER

text \<open>
  \<open>stat\<close> gives the kind of a file or fails; \<open>mkdir\<close> gives the error number or the changed file system; \<open>remove_all\<close> of
  \<open>boost\<close> may throw; the file streams open a file, truncating it for output, or fail.
\<close>

record 'f posix =
  px_stat :: "string \<Rightarrow> 'f \<Rightarrow> file_kind option"
  px_mkdir :: "string \<Rightarrow> 'f \<Rightarrow> int + 'f"
  px_remove_all :: "string \<Rightarrow> 'f \<Rightarrow> 'f result"
  px_write :: "string \<Rightarrow> string \<Rightarrow> 'f \<Rightarrow> 'f option"
  px_read :: "string \<Rightarrow> 'f \<Rightarrow> string option"

definition file_put_contents :: "src_place \<Rightarrow> 'f posix \<Rightarrow> string \<Rightarrow> string \<Rightarrow> 'f \<Rightarrow> 'f result" where
  "file_put_contents pl px filename data f =
     (case px_write px filename data f of
        None \<Rightarrow> MARVIN_THROW pl 70 (''filename: ['' @ filename @ '']  probably does not exist'')
      | Some f' \<Rightarrow> Inr f')"

text \<open>A file that cannot be opened reads as the empty text.\<close>

definition file_get_contents :: "'f posix \<Rightarrow> string \<Rightarrow> 'f \<Rightarrow> string" where
  "file_get_contents px path f = (case px_read px path f of None \<Rightarrow> [] | Some s \<Rightarrow> s)"

definition combinePEM :: "src_place \<Rightarrow> 'f posix \<Rightarrow> string \<Rightarrow> string \<Rightarrow> string \<Rightarrow> string \<Rightarrow> 'f \<Rightarrow> 'f result" where
  "combinePEM pl px dest src1 src2 tag f =
     (let src1_str = file_get_contents px src1 f;
          src2_str = file_get_contents px src2 f;
          s = error_newline @ tag @ error_newline @ ''========================'' @ error_newline;
          res = src1_str @ s @ src2_str in
      file_put_contents pl px dest res f)"

text \<open>The result of \<open>stat\<close> is not looked at: when it fails the mode is read from an uninitialised structure.\<close>

definition is_regular_file :: "'f posix \<Rightarrow> string \<Rightarrow> 'f \<Rightarrow> bool result" where
  "is_regular_file px path f = (case px_stat px path f of None \<Rightarrow> Inl Undefined_Value | Some k \<Rightarrow> Inr (k = S_REG))"

definition is_directory :: "'f posix \<Rightarrow> string \<Rightarrow> 'f \<Rightarrow> bool result" where
  "is_directory px path f = (case px_stat px path f of None \<Rightarrow> Inl Undefined_Value | Some k \<Rightarrow> Inr (k = S_DIR))"

definition path_exists :: "'f posix \<Rightarrow> string \<Rightarrow> 'f \<Rightarrow> bool" where
  "path_exists px path f = (px_stat px path f \<noteq> None)"

definition create_dir :: "src_place \<Rightarrow> 'f posix \<Rightarrow> string \<Rightarrow> 'f \<Rightarrow> 'f result" where
  "create_dir pl px path f =
     (case px_stat px path f of
        None \<Rightarrow>
          (case px_mkdir px path f of
             Inl errno \<Rightarrow> MARVIN_THROW pl 52 (''create_dir failed errno: '' @ int_to_string errno)
           | Inr f' \<Rightarrow> Inr f')
      | Some k \<Rightarrow> MARVIN_THROW pl 55 ('' path_create_dir: failed for path '' @ path))"

definition remove_dir :: "'f posix \<Rightarrow> string \<Rightarrow> 'f \<Rightarrow> 'f result" where
  "remove_dir px path f = px_remove_all px path f"

section \<open>What the helpers rely on, and what they do\<close>

text \<open>
  The documented behaviour of the calls on paths that name different files: what is written is what is
  read, in the file written only; \<open>mkdir\<close> makes a directory where there was nothing; \<open>remove_all\<close> leaves nothing.
\<close>

definition posix_ok :: "'f posix \<Rightarrow> string set \<Rightarrow> bool" where
  "posix_ok px paths \<longleftrightarrow>
     (\<forall>p \<in> paths. \<forall>d f f'. px_write px p d f = Some f' \<longrightarrow>
        px_read px p f' = Some d \<and> (\<forall>q \<in> paths - {p}. px_read px q f' = px_read px q f)) \<and>
     (\<forall>p \<in> paths. \<forall>f f'. px_mkdir px p f = Inr f' \<longrightarrow>
        px_stat px p f' = Some S_DIR \<and> (\<forall>q \<in> paths - {p}. px_stat px q f' = px_stat px q f)) \<and>
     (\<forall>p \<in> paths. \<forall>f f'. px_remove_all px p f = Inr f' \<longrightarrow> px_stat px p f' = None)"

lemma exception_carries_message:
  assumes "CHR 0x00 \<notin> set func \<union> set file \<union> set msg"
  shows "errorHandler func file lineno msg = Inl e \<Longrightarrow> exception_what e = Some (error_text func file lineno msg)"
proof -
  have "CHR 0x00 \<notin> set (error_text func file lineno msg)"
    using assms by (auto simp: error_text_def error_newline_def int_to_string_def is_digit_def Let_def dest!: nat_to_string_digits)
  then show "errorHandler func file lineno msg = Inl e \<Longrightarrow> exception_what e = Some (error_text func file lineno msg)"
    by (auto simp: errorHandler_def takeWhile_eq_all_conv)
qed

text \<open>
  Combining two files. The destination gets the contents of the two sources, as they were before, around a
  rule with the tag, also when it is one of the sources; a source that cannot be read counts as empty
  without any error; a destination that cannot be opened is an exception with its name, and every other
  file keeps its contents.
\<close>

theorem combinePEM_contents:
  assumes "posix_ok px paths" "dest \<in> paths"
  shows "case px_write px dest (file_get_contents px src1 f @ error_newline @ tag @ error_newline @
           ''========================'' @ error_newline @ file_get_contents px src2 f) f of
      None \<Rightarrow> combinePEM pl px dest src1 src2 tag f =
        Inl (Marvin_Exception (error_text (sp_function pl) (sp_file pl) 70 (''filename: ['' @ dest @ '']  probably does not exist'')))
    | Some f' \<Rightarrow> combinePEM pl px dest src1 src2 tag f = Inr f' \<and>
        file_get_contents px dest f' = file_get_contents px src1 f @ error_newline @ tag @ error_newline @
          ''========================'' @ error_newline @ file_get_contents px src2 f \<and>
        (\<forall>q \<in> paths - {dest}. file_get_contents px q f' = file_get_contents px q f)"
  using assms
  by (auto simp: combinePEM_def file_put_contents_def MARVIN_THROW_def errorHandler_def posix_ok_def file_get_contents_def Let_def
      split: option.split)

text \<open>
  Directories: one is made exactly where there is nothing, and a second attempt throws until it is removed. What
  the tests say of a path is defined only where there is something.
\<close>

theorem create_dir_once:
  assumes "posix_ok px paths" "p \<in> paths" "create_dir pl px p f = Inr f'"
  shows "\<not> path_exists px p f \<and> is_directory px p f' = Inr True \<and> is_regular_file px p f' = Inr False \<and>
    create_dir pl px p f' = Inl (Marvin_Exception (error_text (sp_function pl) (sp_file pl) 55
      ('' path_create_dir: failed for path '' @ p))) \<and>
    (\<forall>f''. remove_dir px p f' = Inr f'' \<longrightarrow> \<not> path_exists px p f'' \<and> is_directory px p f'' = Inl Undefined_Value)"
proof -
  have n: "px_stat px p f = None" "px_mkdir px p f = Inr f'"
    using assms(3) by (auto simp: create_dir_def MARVIN_THROW_def errorHandler_def split: option.splits sum.splits)
  then have "px_stat px p f' = Some S_DIR" using assms(1,2) by (auto simp: posix_ok_def)
  then show ?thesis
    using n assms(1,2)
    by (auto simp: path_exists_def is_directory_def is_regular_file_def create_dir_def MARVIN_THROW_def errorHandler_def
        remove_dir_def posix_ok_def)
qed

section \<open>A file system\<close>

text \<open>A map from paths to directories and files, in which every path can be opened but those of directories.\<close>

definition map_posix :: "(string \<rightharpoonup> string option) posix" where
  "map_posix =
     \<lparr>px_stat = (\<lambda>p f. map_option (\<lambda>n. if n = None then S_DIR else S_REG) (f p)),
      px_mkdir = (\<lambda>p f. if f p = None then Inr (f(p \<mapsto> None)) else Inl 17),
      px_remove_all = (\<lambda>p f. Inr (f(p := None))),
      px_write = (\<lambda>p d f. if f p = Some None then None else Some (f(p \<mapsto> Some d))),
      px_read = (\<lambda>p f. Option.bind (f p) (\<lambda>n. n))\<rparr>"

lemma map_posix_ok: "posix_ok map_posix paths"
  by (auto simp: posix_ok_def map_posix_def split: if_splits)

theorem combinePEM_contents_witness:
  "\<exists>f'. combinePEM \<lparr>sp_function = ''f'', sp_file = ''g''\<rparr> map_posix ''a'' ''a'' ''missing'' ''t'' [''a'' \<mapsto> Some ''x''] = Inr f' \<and>
     file_get_contents map_posix ''a'' f' = ''x'' @ error_newline @ ''t'' @ error_newline @ ''========================'' @ error_newline"
proof -
  have w: "px_write map_posix ''a'' d [''a'' \<mapsto> Some ''x''] = Some ([''a'' \<mapsto> Some ''x''](''a'' \<mapsto> Some d))" for d
    by (simp add: map_posix_def)
  have r: "file_get_contents map_posix ''a'' [''a'' \<mapsto> Some ''x''] = ''x''"
    "file_get_contents map_posix ''missing'' [''a'' \<mapsto> Some ''x''] = []"
    by (simp_all add: map_posix_def file_get_contents_def)
  show ?thesis
    using combinePEM_contents [where px = map_posix and paths = UNIV and dest = "''a''" and ?src1.0 = "''a''" and
        ?src2.0 = "''missing''" and f = "[''a'' \<mapsto> Some ''x'']" and tag = "''t''" and
        pl = "\<lparr>sp_function = ''f'', sp_file = ''g''\<rparr>", OF map_posix_ok UNIV_I]
    unfolding r w option.case by simp
qed

theorem create_dir_once_witness:
  "\<not> path_exists map_posix ''d'' Map.empty \<and> is_directory map_posix ''d'' [''d'' \<mapsto> None] = Inr True"
  using create_dir_once [where px = map_posix and paths = UNIV and p = "''d''" and f = Map.empty and f' = "[''d'' \<mapsto> None]" and
      pl = "\<lparr>sp_function = [], sp_file = []\<rparr>", OF map_posix_ok UNIV_I]
  by (simp add: create_dir_def map_posix_def)

end
