(* ===== verification/Spec2Isabelle.thy ===== *)
theory Spec2Isabelle
  imports Mitm_Apps Proxy_Cli Contact_Server Io_Service_Pool Pipe_Collector Helpers_Fs
begin

text \<open>
  A verification library for marvin, an HTTP and HTTPS man-in-the-middle proxy in C++ (\<open>src/marvin\<close>).

  The program. \<open>TcpServer\<close> accepts connections up to a limit and gives each to a \<open>ConnectionHandler\<close>, which
  runs a request handler on it; the proxy's is \<open>MitmApp\<close>. It reads the first message of the client with a
  \<open>MessageReaderV2\<close> (a \<open>FullMessageReader\<close>, which feeds the bytes of the connection to a \<open>Parser\<close>, the
  wrapper of the C library \<open>http-parser\<close>) and chooses between three handlers. \<open>MitmHttp\<close> rewrites a plain
  request and sends it with a \<open>Client\<close>; \<open>MitmHttps\<close> answers a \<open>CONNECT\<close> for a host of interest by completing a TLS
  handshake with the server, building an identity from the server's certificate, completing a handshake
  with the client and then forwarding one request; \<open>MitmTunnel\<close> relays the bytes of any other \<open>CONNECT\<close> with a
  \<open>TunnelHandler\<close>. Responses are rewritten, shown to a collector and written with a \<open>MessageWriter\<close>. All
  input and output goes through \<open>Connection\<close>, whose operations are guarded by a \<open>Timeout\<close>. Bodies are
  \<open>BufferChain\<close>s of \<open>ContigBuffer\<close>s; messages are \<open>MessageBase\<close>s with \<open>HeaderFields\<close>.

  How it is modelled. Objects are records with the members of the classes, member functions are functions
  that take and return them, and every throw, failed assertion and read of an empty optional is the error
  side of a sum. The program is asynchronous: an operation that starts input or output returns the effects
  it issues, and its completion handler is a function of its own that takes the outcome; the event loop is
  the step relation that decides which outstanding operation completes and how. Theories, in the order of
  their imports:

  \<^item> \<open>Marvin_Prelude\<close>: result monad, string and number conversions of the C and C++ libraries, the rule
    collections. \<open>Std_Regex\<close>: the part of \<open>std::regex\<close> that is used, as a relation and an executable matcher
    that are proved to agree.
  \<^item> \<open>Marvin_Error\<close> (\<open>error/\<close>): error codes and their descriptions.
  \<^item> \<open>Contig_Buffer\<close>, \<open>Buffer_Chain\<close> (\<open>buffer/\<close>): allocation strategies, buffers with their memory, chains and
    the gather-write sequence. The locale \<open>byte_sink\<close> states what appending promises, \<open>bounded_sink\<close> adds a
    capacity and \<open>piecewise_sink\<close> unbounded pieces; they are interpreted as \<open>contig\<close> and \<open>chain\<close>.
  \<^item> \<open>Header_Fields\<close>, \<open>Message\<close>, \<open>Uri\<close> (\<open>http/\<close>): the header list, which refines a map through the locale
    \<open>keyed_store\<close> (interpreted as \<open>hdrs\<close>); messages and the two serialisers of a head; URIs, queries and the
    message factory.
  \<^item> \<open>Parser\<close> (\<open>http/parser.cpp\<close>): the call-backs and the loops that feed the library. The library is the
    record \<open>http_parser_lib\<close> of the functions the wrapper calls, with its documented behaviour as named
    hypotheses and the toy library \<open>line_lib\<close>, which satisfies them, for the witnesses.
  \<^item> \<open>Msg_Reader\<close>, \<open>Msg_Writer\<close> (\<open>message/\<close>): reading one message and writing one.
  \<^item> \<open>Timeout\<close>, \<open>Connection\<close>, \<open>Tunnel\<close> (\<open>connection/\<close>): the timer protocol, the connection's resolve, connect,
    handshake, read, write and close, the relaying halves. The locale \<open>refillable\<close> is the contract between a
    connection and the buffers it reads into (interpreted as \<open>refill\<close> on \<open>ContigBuffer\<close>).
  \<^item> \<open>Client\<close> (\<open>client/\<close>), \<open>Mitm_Helpers\<close> (\<open>helpers/mitm.cpp\<close>), \<open>Collectors\<close> (\<open>collector/\<close>, with the locale
    \<open>window\<close> of bounded queues interpreted as \<open>ex_win\<close> and \<open>host_win\<close>), \<open>Io_Service_Pool\<close> (\<open>boost_ext/\<close>).
  \<^item> \<open>Certificates\<close> (\<open>certificates/\<close>): the environment variables that say where the certificate store is, the
    singleton that holds it and the calls that create one, also those of the tool \<open>apps/config\<close>.
  \<^item> \<open>Request_Handler\<close> (\<open>server/request_handler_interface.hpp\<close>): the contract between the server and the handler
    of a connection as the locale \<open>request_handler\<close>, interpreted as \<open>mitm_handler\<close> on \<open>MitmApp\<close> and as
    \<open>ctl_handler\<close> on \<open>CtlApp\<close>.
  \<^item> \<open>Mitm_Apps\<close>, \<open>Server\<close> (\<open>server/\<close>): the proxy on one connection as a set of named continuations resumed by
    the outcomes of the operations they wait for, and the server with its limit, heartbeat and termination.
  \<^item> \<open>Ctl_App\<close>, \<open>Proxy_Cli\<close> (\<open>apps/simple_proxy\<close>): the program that runs the proxy, its HTTP control interface,
    which edits the filters the proxy uses and stops both servers, its thread objects and its command line tool.
  \<^item> \<open>Handshake\<close>, \<open>Contact_Server\<close> (\<open>apps/handshake\<close>): matching a host against the names of a certificate, the
    handshakers over a connection and over plain sockets, and the program that runs them on a list of hosts.
  \<^item> \<open>Pipe_Collector\<close> (\<open>collector/pipe_collector.cpp\<close>): the singleton made by double-checked locking, as steps of
    threads over the atomic pointer and the mutex, and the exchanges posted to its strand. \<open>Helpers_Fs\<close>
    (\<open>error_handler/\<close>, \<open>helpers/helpers_fs.cpp\<close>): the exception of \<open>MARVIN_THROW\<close> and the file helpers over the
    calls of the operating system, whose documented behaviour is the named hypothesis \<open>posix_ok\<close>.

  What is shown. Per object: the invariants of buffers, chains and header lists and that operations keep
  them; the functional behaviour of appends, look-ups, serialisation, message rewriting and parsing, with
  the errors. Per protocol, by rule induction over all runs: a reader, a client and a proxied connection
  report exactly once; the timer posts each continuation once unless completion and expiry race; the
  server keeps its limit and one accept; a client is only ever shown an identity made from the real
  server's certificate; a connection keeps the objects its mode needs; at most one pipe collector is made. Across components: a message written is the serialised head and body of the
  message built, a plain request goes from arrival to the end of the connection through client, rewriting,
  collector and writer, a filter added with the command line tool decides what the proxy does with the next
  \<open>CONNECT\<close>. Where the code does not do what it means to, the theorem says what it does: the
  parse loop that never ends, the race that loses a continuation, the requests that bring the proxy down,
  the termination request that is lost, the name of the server that no stream is told to check.

  Bounds and fuel. Loops of the source that end on every input are structurally recursive or have a
  measure. The loops \<open>consume\<close> and \<open>p_parse_some\<close> and the move assignment of a buffer need not end; they take
  fuel and return \<^const>\<open>None\<close> without a result. Under the library's contract three
  iterations are enough for the first, and five for the second when the library takes every byte; when
  bytes are left over, and for the move assignment, no fuel is enough, which is proved as such. Sizes are natural numbers, exact up to the maximum of
  1 MiB that the allocation strategies enforce; where an \<open>int\<close> becomes a \<open>size_t\<close> or a
  \<open>long\<close> an \<open>int\<close> the wrap-around is written out.

  Not modelled. Of OpenSSL only the documented rule that a stream inherits the settings its context has when the
  stream is made. The environment: sockets, name resolution, TLS, the clock and the file system appear as the
  outcomes of operations; \<open>http-parser\<close>, the URL parser, the \<open>cert\<close> library and OpenSSL are arguments. Logging
  is left out throughout, as are the reference counts of certificates. \<open>client/request*.cpp\<close>, \<open>message/message_reader.cpp\<close>, \<open>server/adapter.cpp\<close> and
  \<open>buffer/hex.cpp\<close> are not part of the build; of \<open>apps/\<close> the scheduling of the threads and the parsing of
  command lines are left out; \<open>experiments/\<close>, \<open>buffer_junk/\<close> and \<open>all/\<close> hold unused code. The capture windows and the
  connection manager are only touched from one event loop in the source, so their operations are atomic
  steps; the filters are changed by the thread of the control interface while the proxy's thread reads
  them, without a lock, and the model only has the runs in which these accesses do not overlap;
  memory is modelled per object, not as a shared heap.
\<close>

section \<open>Components together\<close>

lemma filter_loop_last:
  assumes "list_all (\<lambda>f. compile f \<noteq> None) fs" "compile rex = Some r" "regex_match host r"
  shows "filter_loop compile host (fs @ [rex]) = Inr True"
  using assms(1) by (induction fs) (auto simp: assms(2,3))

text \<open>
  C18. A filter added with the command line tool takes effect on the next \<open>CONNECT\<close>. The control interface accepts
  the request of \<open>filter_add\<close> with a pattern without a slash and answers it; from then on a \<open>CONNECT\<close> request
  for a host that the pattern matches is intercepted: the proxy connects to that host and goes on to
  present it to the client itself, whatever the earlier filters are, as long as they compile.
\<close>

theorem added_filter_intercepts:
  assumes "cli_request idn rex ''filter_add'' = Some rq" "m_target m = rq_path rq" "\<not> ec_failed err"
    and "list_all dot rex" "CHR ''/'' \<notin> set rex"
    and "length (filters_text (m_filters (mitm_filter s))) + length rex + 100 \<le> 1048576"
    and "list_all (\<lambda>f. v_compile v f \<noteq> None) (m_filters (mitm_filter s))" "v_compile v rex = Some r"
    and "m_method req = v_http_connect v" "Uri_new (v_parse_url v) (m_target req) = Inr u"
    and "regex_match (uri_host_no_port u) r" "\<not> ec_failed ec"
  shows "\<exists>s' es. ctl_resume cv KC_Read err (Some m) s = Inr (s', [C_Write es KC_Written]) \<and>
     (\<forall>app. a_filter app = mitm_filter s' \<longrightarrow>
        (\<exists>app'. resume v K_First ec (Some req) peer app =
           Inr (app', [Start (Op_Conn [E_Resolve (uri_host_no_port u) (int_to_string (m_port u))]) K_Tls_Connected])))"
proof -
  let ?fs = "m_filters (mitm_filter s)"
  have t: "m_target m = ''/filter'' @ ''_add/'' @ rex" using assms(1,2) by (auto simp: cli_request_def)
  have d: "list_all dot (''_add/'' @ rex)" using assms(4) by (simp add: dot_def)
  have "takeWhile (\<lambda>c. c \<noteq> CHR ''/'') rex = rex" using assms(5) by (auto simp: takeWhile_eq_all_conv)
  then have e: "edit_filters (split_path (m_target m)) ?fs = (?fs @ [rex], [])" using edit_add [OF t] by simp
  have "length [] + length (filters_text (?fs @ [rex])) \<le> 1048576" using assms(6) by (simp add: length_filters_text)
  then obtain w mb where w: "ctl_resume cv KC_Read err (Some m) s =
      Inr (s\<lparr>ctl_request := Some m, mitm_filter := set_filters (?fs @ [rex]) (mitm_filter s), ctl_wrtr := w\<rparr>,
           [C_Write [Write_Contig mb] KC_Written])"
    using filter_request [OF t d assms(3) e] by blast
  have "\<exists>app'. resume v K_First ec (Some req) peer app =
           Inr (app', [Start (Op_Conn [E_Resolve (uri_host_no_port u) (int_to_string (m_port u))]) K_Tls_Connected])"
    if "a_filter app = set_filters (?fs @ [rex]) (mitm_filter s)" for app
  proof -
    have "is_collectable (v_compile v) (uri_host_no_port u) (a_filter app) = Inr True"
      using filter_loop_last [OF assms(7,8,11)] that by (simp add: is_collectable_def set_filters_def)
    from connect_first [OF assms(9,10,12) this] show ?thesis by simp
  qed
  then show ?thesis using w by auto
qed

theorem added_filter_intercepts_witness:
  "\<exists>s' es. ctl_resume sample_ctl_env KC_Read make_ok (Some ((MessageBase_new 1 0)\<lparr>m_target := ''/filter_add/h''\<rparr>)) sample_ctl =
       Inr (s', [C_Write es KC_Written]) \<and>
     (\<forall>app. a_filter app = mitm_filter s' \<longrightarrow>
        (\<exists>app'. resume sample_app_env K_First make_ok (Some (MessageBase_new 5 0)) 0 app =
           Inr (app', [Start (Op_Conn [E_Resolve ''h'' ''80'']) K_Tls_Connected])))"
proof -
  let ?m = "(MessageBase_new 1 0)\<lparr>m_target := ''/filter_add/h''\<rparr>"
  have rq: "cli_request [] ''h'' ''filter_add'' = Some \<lparr>rq_method = ''POST'', rq_path = ''/filter_add/h''\<rparr>"
    by (simp add: cli_request_def)
  have f: "m_filters (mitm_filter sample_ctl) = [''a'', ''b'']" by (simp add: sample_ctl_def CaptureFilter_new_def)
  have l: "length (filters_text (m_filters (mitm_filter sample_ctl))) + length ''h'' + 100 \<le> 1048576"
    unfolding f length_filters_text by simp
  have v: "v_compile sample_app_env p = Some (Rep (Cls (\<lambda>_. True)))" for p by (simp add: sample_app_env_def)
  have c: "list_all (\<lambda>p. v_compile sample_app_env p \<noteq> None) (m_filters (mitm_filter sample_ctl))" using v by (simp add: list_all_iff)
  have k: "m_method (MessageBase_new 5 0) = v_http_connect sample_app_env" by (simp add: sample_app_env_def MessageBase_new_def)
  have h: "regex_match ''h'' (Rep (Cls (\<lambda>_. True)))" "list_all dot ''h''" by code_simp+
  have "int_to_string 80 = ''80''" by code_simp
  then show ?thesis
    using added_filter_intercepts [OF rq _ make_ok_not_failed(1) h(2) _ l c v k sample_uri _ make_ok_not_failed(1),
        of ?m sample_ctl_env 0] h(1)
    by (simp add: uri_host_no_port_def del: ctl_resume.simps resume.simps)
qed

end
